theory Spec2Isabelle
  imports Complex_Main "HOL-Library.Log_Nat"
begin

section \<open>The PINN training driver (maestroflame/driver_pinn.py)\<close>

text \<open>
  The driver is a Python script on top of PyTorch and NumPy. Library calls are modelled
  by small total functions that spell out what the library does where a claim depends
  on it; the sub-loss functions of the module \<open>losses\<close>, the network and the optimizer
  are parameters of the model.
\<close>

subsection \<open>Exceptions\<close>

datatype error =
    ZeroDivisionError
  | OverflowError
  | NameError
  | IndexError
  | ValueError
  | RuntimeError
  | AttributeError
  | OSError

subsection \<open>Dataset geometry: \<open>nnuc\<close> and the train/test split\<close>

text \<open>Python's \<open>int(x)\<close> on a float truncates towards zero.\<close>

definition py_int :: "real \<Rightarrow> int" where
  "py_int x = (if 0 \<le> x then \<lfloor>x\<rfloor> else \<lceil>x\<rceil>)"

text \<open>
  Line 96: \<open>nnuc = int(react_data.output_data.shape[1]/2 - 1)\<close>. The operand is the width
  of a tensor that is held in memory, far below \<open>2 ^ 53\<close>, where halving an integer and
  subtracting one are exact in float64; both are taken exactly.
\<close>

definition nnuc_of :: "nat \<Rightarrow> int" where
  "nnuc_of output_width = py_int (real output_width / 2 - 1)"

text \<open>
  \<open>a / b\<close> on two Python integers of any size is the exact quotient rounded to the nearest
  float64, ties to even: 53 significant bits at the binary exponent of the quotient,
  exponents from \<open>-1022\<close> on (below that the spacing stays \<open>2 ^ -1074\<close>). It raises
  ZeroDivisionError on a zero divisor and OverflowError when the rounded quotient
  reaches \<open>2 ^ 1024\<close>.
\<close>

definition pow2 :: "int \<Rightarrow> real" where
  "pow2 k = (if 0 \<le> k then 2 ^ nat k else 1 / 2 ^ nat (- k))"

definition round_half_even :: "real \<Rightarrow> int" where
  "round_half_even x =
     (let f = \<lfloor>x\<rfloor>; d = x - of_int f
      in if d < 1 / 2 then f else if 1 / 2 < d then f + 1 else if even f then f else f + 1)"

text \<open>The binary exponent of \<open>a / b\<close> for positive \<open>a\<close> and \<open>b\<close>: the \<open>e\<close> with
  \<open>2 ^ e \<le> a / b < 2 ^ (e + 1)\<close>, found from the bit lengths of the operands.\<close>

definition quotient_exponent :: "int \<Rightarrow> int \<Rightarrow> int" where
  "quotient_exponent a b =
     (let k = bitlen a - bitlen b
      in if pow2 k * of_int b \<le> of_int a then k else k - 1)"

definition long_true_divide :: "int \<Rightarrow> int \<Rightarrow> error + real" where
  "long_true_divide a b =
     (if b = 0 then Inl ZeroDivisionError
      else if a = 0 then Inr 0
      else
        let e = max (quotient_exponent \<bar>a\<bar> \<bar>b\<bar>) (- 1022);
            ulp = pow2 (e - 52);
            x = of_int (round_half_even (of_int \<bar>a\<bar> / of_int \<bar>b\<bar> / ulp)) * ulp
        in if pow2 1024 \<le> x then Inl OverflowError
           else Inr (if (a < 0) = (b < 0) then x else - x))"

text \<open>
  Lines 119-120: \<open>Num_test = int(N*percent_test/100)\<close>, \<open>Num_train = N-Num_test\<close>. The
  product is a product of integers; the quotient is a float.
\<close>

definition Num_test :: "int \<Rightarrow> int \<Rightarrow> error + int" where
  "Num_test N percent_test =
     (case long_true_divide (N * percent_test) 100 of
        Inl e \<Rightarrow> Inl e
      | Inr x \<Rightarrow> Inr (py_int x))"

definition Num_train :: "int \<Rightarrow> int \<Rightarrow> error + int" where
  "Num_train N percent_test =
     (case Num_test N percent_test of
        Inl e \<Rightarrow> Inl e
      | Inr t \<Rightarrow> Inr (N - t))"

subsection \<open>Floating-point values\<close>

text \<open>
  A float is a real number, one of the two infinities, or NaN. Rounding and overflow
  of finite results are not modelled; the special values and the IEEE rules for them
  are, since NumPy's division by zero produces them instead of raising.
\<close>

datatype pyfloat = Fin real | PInf | NInf | NaN

definition is_finite :: "pyfloat \<Rightarrow> bool" where
  "is_finite x = (case x of Fin _ \<Rightarrow> True | _ \<Rightarrow> False)"

fun fadd :: "pyfloat \<Rightarrow> pyfloat \<Rightarrow> pyfloat" where
  "fadd (Fin a) (Fin b) = Fin (a + b)"
| "fadd NaN _ = NaN"
| "fadd _ NaN = NaN"
| "fadd PInf NInf = NaN"
| "fadd NInf PInf = NaN"
| "fadd PInf _ = PInf"
| "fadd _ PInf = PInf"
| "fadd NInf _ = NInf"
| "fadd _ NInf = NInf"

text \<open>
  IEEE division of a float by a non-negative integer (a batch index or a length),
  as NumPy's \<open>/\<close> computes it elementwise: \<open>x/0\<close> is \<open>inf\<close>, \<open>-inf\<close> or \<open>nan\<close>.
\<close>

fun fdiv_idx :: "pyfloat \<Rightarrow> nat \<Rightarrow> pyfloat" where
  "fdiv_idx (Fin x) n =
     (if n = 0 then (if 0 < x then PInf else if x < 0 then NInf else NaN)
      else Fin (x / real n))"
| "fdiv_idx PInf n = PInf"
| "fdiv_idx NInf n = NInf"
| "fdiv_idx NaN n = NaN"

text \<open>Python's own \<open>/\<close> on a float and an \<open>int\<close> raises on a zero divisor.\<close>

definition py_truediv :: "pyfloat \<Rightarrow> nat \<Rightarrow> error + pyfloat" where
  "py_truediv x n = (if n = 0 then Inl ZeroDivisionError else Inr (fdiv_idx x n))"

text \<open>Python's \<open>sum(xs)\<close>: a left fold from \<open>0\<close>.\<close>

definition py_sum :: "pyfloat list \<Rightarrow> pyfloat" where
  "py_sum xs = foldl fadd (Fin 0) xs"

text \<open>\<open>sum(xs) / len(xs)\<close>, as the driver writes its means.\<close>

definition py_mean :: "pyfloat list \<Rightarrow> error + pyfloat" where
  "py_mean xs = py_truediv (py_sum xs) (length xs)"

subsection \<open>Tensor and array values\<close>

text \<open>
  The value of a tensor or of a NumPy array is a list of rows. A 1-D value of length
  \<open>B\<close> is kept as one row, a scalar as \<open>[[x]]\<close>.
\<close>

type_synonym matrix = "pyfloat list list"

definition shape :: "matrix \<Rightarrow> nat list" where
  "shape m = map length m"

definition zeros_like :: "matrix \<Rightarrow> matrix" where
  "zeros_like m = map (map (\<lambda>_. Fin 0)) m"

definition ones_like :: "matrix \<Rightarrow> matrix" where
  "ones_like m = map (map (\<lambda>_. Fin 1)) m"

definition madd :: "matrix \<Rightarrow> matrix \<Rightarrow> matrix" where
  "madd a b = map2 (map2 fadd) a b"

text \<open>\<open>m[:, n]\<close>: column \<open>n\<close> of every row; IndexError when a row is too short.\<close>

definition column :: "matrix \<Rightarrow> nat \<Rightarrow> error + pyfloat list" where
  "column m n = (if list_all (\<lambda>r. n < length r) m then Inr (map (\<lambda>r. r ! n) m)
                 else Inl IndexError)"

text \<open>
  \<open>m[:, n] = v\<close>: writes the 1-D value \<open>v\<close> into column \<open>n\<close>; IndexError when the column
  does not exist, RuntimeError when \<open>v\<close> has not one entry per row.
\<close>

definition set_column :: "matrix \<Rightarrow> nat \<Rightarrow> pyfloat list \<Rightarrow> error + matrix" where
  "set_column m n v =
     (if \<not> list_all (\<lambda>r. n < length r) m then Inl IndexError
      else if length v \<noteq> length m then Inl RuntimeError
      else Inr (map2 (\<lambda>r x. r[n := x]) m v))"

text \<open>\<open>m[:, :k]\<close> and \<open>m[:, k:]\<close> for \<open>k \<ge> 0\<close>.\<close>

definition slice_to :: "nat \<Rightarrow> matrix \<Rightarrow> matrix" where
  "slice_to k m = map (take k) m"

definition slice_from :: "nat \<Rightarrow> matrix \<Rightarrow> matrix" where
  "slice_from k m = map (drop k) m"

text \<open>\<open>t.item()\<close>: the Python float of a one-element tensor.\<close>

definition item_of :: "matrix \<Rightarrow> error + pyfloat" where
  "item_of m = (case m of [[x]] \<Rightarrow> Inr x | _ \<Rightarrow> Inl ValueError)"

subsection \<open>NumPy arithmetic on the component-loss arrays\<close>

text \<open>
  \<open>a + b\<close> on arrays of one shape is elementwise. The component arrays of all batches
  have one entry per channel; broadcasting between different shapes is not modelled
  and is the error here.
\<close>

definition np_add :: "matrix \<Rightarrow> matrix \<Rightarrow> error + matrix" where
  "np_add a b = (if shape a = shape b then Inr (madd a b) else Inl ValueError)"

text \<open>\<open>a / k\<close> for an array and a Python \<open>int\<close>: elementwise, never raising.\<close>

definition np_div :: "matrix \<Rightarrow> nat \<Rightarrow> matrix" where
  "np_div a k = map (map (\<lambda>x. fdiv_idx x k)) a"

text \<open>
  \<open>np.array(diff_losses).sum(axis=0)\<close>: the column sums of the per-batch breakdown
  lists, which have four entries each.
\<close>

definition sum_axis0 :: "pyfloat list list \<Rightarrow> pyfloat list" where
  "sum_axis0 rows = foldl (map2 fadd) (replicate 4 (Fin 0)) rows"

subsection \<open>Autograd\<close>

text \<open>
  A tensor carries its value and its place in the computation graph: a leaf that
  requires gradients, a tensor without gradient history, or the result of an operation
  on tensors of which at least one requires gradients.
\<close>

datatype leaf = Data | Param nat | DXdt

datatype lossname =
    log_loss
  | L1Loss
  | signed_loss_function
  | relative_loss
  | loss_mass_fraction
  | MSELoss
  | component_loss_f
  | component_loss_f_L1

datatype opname =
    Network
  | LossFn lossname
  | Select nat
  | SliceTo nat
  | SliceFrom nat
  | Add

datatype tensor =
    Leaf leaf matrix
  | Const matrix
  | Op opname "tensor list" matrix

fun tvalue :: "tensor \<Rightarrow> matrix" where
  "tvalue (Leaf l v) = v"
| "tvalue (Const v) = v"
| "tvalue (Op f args v) = v"

fun requires_grad :: "tensor \<Rightarrow> bool" where
  "requires_grad (Leaf l v) = True"
| "requires_grad (Const v) = False"
| "requires_grad (Op f args v) = True"

text \<open>
  The collaborators outside the driver: the network (\<open>networks\<close>), the sub-losses
  (\<open>losses\<close>, \<open>torch.nn\<close>) with their vector-Jacobian products, and the optimizer.
  \<open>forward\<close> takes the value of the input batch followed by the parameter values;
  \<open>vjp f vals i g\<close> is the gradient that operation \<open>f\<close>, run on the values \<open>vals\<close>, sends
  to its \<open>i\<close>-th input for the incoming gradient \<open>g\<close>.
\<close>

record 'o env =
  forward :: "matrix list \<Rightarrow> matrix"
  loss_value :: "lossname \<Rightarrow> matrix list \<Rightarrow> matrix"
  vjp :: "opname \<Rightarrow> matrix list \<Rightarrow> nat \<Rightarrow> matrix \<Rightarrow> matrix"
  opt_step :: "'o \<Rightarrow> matrix list \<Rightarrow> matrix option list \<Rightarrow> 'o \<times> matrix list"

text \<open>Values of the operations; indexing, slicing and \<open>+\<close> are torch's own.\<close>

fun op_value :: "'o env \<Rightarrow> opname \<Rightarrow> matrix list \<Rightarrow> matrix" where
  "op_value env Network vals = forward env vals"
| "op_value env (LossFn l) vals = loss_value env l vals"
| "op_value env (Select n) vals = [map (\<lambda>r. r ! n) (hd vals)]"
| "op_value env (SliceTo k) vals = slice_to k (hd vals)"
| "op_value env (SliceFrom k) vals = slice_from k (hd vals)"
| "op_value env Add vals = madd (hd vals) (hd (tl vals))"

text \<open>
  Their vector-Jacobian products. Selecting column \<open>n\<close> sends the incoming 1-D gradient
  back into column \<open>n\<close> of a zero matrix; a slice pads with zeros; \<open>+\<close> passes the gradient
  on to both operands.
\<close>

definition select_vjp :: "nat \<Rightarrow> matrix \<Rightarrow> matrix \<Rightarrow> matrix" where
  "select_vjp n m g = map2 (\<lambda>r x. (map (\<lambda>_. Fin 0) r)[n := x]) m (hd g)"

fun op_vjp :: "'o env \<Rightarrow> opname \<Rightarrow> matrix list \<Rightarrow> nat \<Rightarrow> matrix \<Rightarrow> matrix" where
  "op_vjp env Network vals i g = vjp env Network vals i g"
| "op_vjp env (LossFn l) vals i g = vjp env (LossFn l) vals i g"
| "op_vjp env (Select n) vals i g = select_vjp n (hd vals) g"
| "op_vjp env (SliceTo k) vals i g =
     map2 (\<lambda>r gr. gr @ map (\<lambda>_. Fin 0) (drop k r)) (hd vals) g"
| "op_vjp env (SliceFrom k) vals i g =
     map2 (\<lambda>r gr. map (\<lambda>_. Fin 0) (take k r) @ gr) (hd vals) g"
| "op_vjp env Add vals i g = g"

text \<open>
  Torch records an operation in the graph only when one of its inputs requires
  gradients; otherwise the result has no history.
\<close>

definition apply_op :: "'o env \<Rightarrow> opname \<Rightarrow> tensor list \<Rightarrow> tensor" where
  "apply_op env f args =
     (let v = op_value env f (map tvalue args)
      in if list_ex requires_grad args then Op f args v else Const v)"

text \<open>
  The \<open>.grad\<close> fields of the leaves. A gradient arriving at a leaf becomes its \<open>.grad\<close>
  when there is none and is added to it otherwise. Autograd hands every input a gradient
  of the input's own shape.
\<close>

type_synonym grads = "leaf \<Rightarrow> matrix option"

definition accumulate :: "grads \<Rightarrow> leaf \<Rightarrow> matrix \<Rightarrow> grads" where
  "accumulate st l g = st(l := Some (case st l of None \<Rightarrow> g | Some old \<Rightarrow> madd old g))"

text \<open>
  \<open>t.backward(g)\<close>: the chain rule along every path from \<open>t\<close> to a leaf. Nothing flows into
  a tensor without history.
\<close>

fun backward :: "'o env \<Rightarrow> tensor \<Rightarrow> matrix \<Rightarrow> grads \<Rightarrow> grads"
  and backward_args ::
    "'o env \<Rightarrow> opname \<Rightarrow> matrix list \<Rightarrow> nat \<Rightarrow> tensor list \<Rightarrow> matrix \<Rightarrow> grads \<Rightarrow> grads"
where
  "backward env (Leaf l v) g st = accumulate st l g"
| "backward env (Const v) g st = st"
| "backward env (Op f args v) g st = backward_args env f (map tvalue args) 0 args g st"
| "backward_args env f vals i [] g st = st"
| "backward_args env f vals i (a # as) g st =
     backward_args env f vals (Suc i) as g (backward env a (op_vjp env f vals i g) st)"

text \<open>The leaves a tensor's graph reaches.\<close>

fun leaves :: "tensor \<Rightarrow> leaf set" where
  "leaves (Leaf l v) = {l}"
| "leaves (Const v) = {}"
| "leaves (Op f args v) = (\<Union>a \<in> set args. leaves a)"

text \<open>
  The gradient fields together with the one flag the driver's \<open>retain_graph\<close> is about:
  whether the graph of the current forward pass still holds its buffers.
  \<open>t.backward(g, retain_graph=r)\<close> raises on a tensor that does not require gradients and
  on a graph that an earlier backward pass has freed; it frees the graph unless \<open>r\<close>.
\<close>

record autograd =
  grad_of :: grads
  graph_alive :: bool

definition torch_backward ::
  "'o env \<Rightarrow> tensor \<Rightarrow> matrix \<Rightarrow> bool \<Rightarrow> autograd \<Rightarrow> error + autograd" where
  "torch_backward env t g retain ag =
     (case t of
        Const v \<Rightarrow> Inl RuntimeError
      | Leaf l v \<Rightarrow> Inr (ag\<lparr>grad_of := backward env t g (grad_of ag)\<rparr>)
      | Op f args v \<Rightarrow>
          if \<not> graph_alive ag then Inl RuntimeError
          else Inr (ag\<lparr>grad_of := backward env t g (grad_of ag), graph_alive := retain\<rparr>))"

subsection \<open>The network call\<close>

text \<open>
  \<open>prediction = model(data)\<close>: the parameters are leaves \<open>Param 0\<close>, \<open>Param 1\<close>, ...;
  \<open>data\<close> has \<open>requires_grad=True\<close> and is the leaf \<open>Data\<close>.
\<close>

fun param_leaves :: "nat \<Rightarrow> matrix list \<Rightarrow> tensor list" where
  "param_leaves k [] = []"
| "param_leaves k (v # vs) = Leaf (Param k) v # param_leaves (Suc k) vs"

definition model :: "'o env \<Rightarrow> matrix list \<Rightarrow> matrix \<Rightarrow> tensor" where
  "model env params data = apply_op env Network (Leaf Data data # param_leaves 0 params)"

subsection \<open>The differentiator (lines 265-274 and 332-341)\<close>

text \<open>
  One pass of the loop body for channel \<open>n\<close>, on the pair of \<open>dXdt\<close> and the autograd state:
  \<^verbatim>\<open>
  if data.grad is not None:
      data.grad.data.zero_()
  prediction[:, n].backward(torch.ones_like(prediction[:,n]), retain_graph=True)
  dXdt[:, n] = data.grad.clone()[:, 0]
  data.grad.data.zero_()
  \<close>
\<close>

definition zero_data_grad :: "autograd \<Rightarrow> autograd" where
  "zero_data_grad ag =
     (case grad_of ag Data of
        None \<Rightarrow> ag
      | Some g \<Rightarrow> ag\<lparr>grad_of := (grad_of ag)(Data := Some (zeros_like g))\<rparr>)"

fun diff_step ::
  "'o env \<Rightarrow> tensor \<Rightarrow> nat \<Rightarrow> matrix \<times> autograd \<Rightarrow> error + (matrix \<times> autograd)" where
  "diff_step env prediction n (dXdt, ag) =
     (case column (tvalue prediction) n of
        Inl e \<Rightarrow> Inl e
      | Inr col \<Rightarrow>
     (case torch_backward env (apply_op env (Select n) [prediction]) (ones_like [col]) True
             (zero_data_grad ag) of
        Inl e \<Rightarrow> Inl e
      | Inr ag2 \<Rightarrow>
     (case grad_of ag2 Data of
        None \<Rightarrow> Inl AttributeError
      | Some g \<Rightarrow>
     (case column g 0 of
        Inl e \<Rightarrow> Inl e
      | Inr c0 \<Rightarrow>
     (case set_column dXdt n c0 of
        Inl e \<Rightarrow> Inl e
      | Inr dXdt' \<Rightarrow> Inr (dXdt', zero_data_grad ag2))))))"

fun diff_loop ::
  "'o env \<Rightarrow> tensor \<Rightarrow> nat list \<Rightarrow> matrix \<times> autograd \<Rightarrow> error + (matrix \<times> autograd)" where
  "diff_loop env prediction [] s = Inr s"
| "diff_loop env prediction (n # ns) s =
     (case diff_step env prediction n s of
        Inl e \<Rightarrow> Inl e
      | Inr s' \<Rightarrow> diff_loop env prediction ns s')"

text \<open>
  \<open>dXdt = torch.zeros_like(prediction)\<close>, then the loop over \<open>range(nnuc+1)\<close>; \<open>K\<close> is
  \<open>nnuc+1\<close>.
\<close>

definition differentiator ::
  "'o env \<Rightarrow> nat \<Rightarrow> tensor \<Rightarrow> autograd \<Rightarrow> error + (matrix \<times> autograd)" where
  "differentiator env K prediction ag =
     diff_loop env prediction [0..<K] (zeros_like (tvalue prediction), ag)"

text \<open>
  What the loop is meant to extract: the gradient that reaches the input batch when
  channel \<open>n\<close> of the prediction is backpropagated with a seed of ones.
\<close>

definition channel_grad :: "'o env \<Rightarrow> matrix list \<Rightarrow> matrix \<Rightarrow> nat \<Rightarrow> matrix" where
  "channel_grad env params data n =
     (let vals = data # params; p = forward env vals
      in vjp env Network vals 0 (select_vjp n p (ones_like [map (\<lambda>r. r ! n) p])))"

text \<open>
  A network that returns the first \<open>K\<close> channels of its input unchanged and has no use
  for its parameters: its vector-Jacobian product pads the incoming gradient with zeros
  for the input channels it drops.
\<close>

definition identity_net :: "nat \<Rightarrow> 'o env \<Rightarrow> 'o env" where
  "identity_net K env = env
     \<lparr> forward := (\<lambda>vals. slice_to K (hd vals)),
       vjp := (\<lambda>f vals i g.
          if f = Network then
            (if i = 0 then map2 (\<lambda>r gr. gr @ map (\<lambda>_. Fin 0) (drop K r)) (hd vals) g
             else zeros_like (vals ! i))
          else vjp env f vals i g) \<rparr>"

text \<open>\<open>dXdt[:, n] = G[:, 0]\<close> on values, for stating what one pass of the loop writes.\<close>

definition write_col :: "matrix \<Rightarrow> nat \<Rightarrow> matrix \<Rightarrow> matrix" where
  "write_col d n G = map2 (\<lambda>r x. r[n := x]) d (map (\<lambda>r. r ! 0) G)"

subsection \<open>The loss composer (lines 199-237)\<close>

text \<open>
  \<open>criterion_plotting\<close>: \<open>nn.MSELoss()(prediction, targets[:, :nnuc+1])\<close>; \<open>K\<close> is \<open>nnuc+1\<close>.
\<close>

definition criterion_plotting :: "'o env \<Rightarrow> nat \<Rightarrow> tensor \<Rightarrow> tensor \<Rightarrow> tensor" where
  "criterion_plotting env K prediction targets =
     apply_op env (LossFn MSELoss) [prediction, apply_op env (SliceTo K) [targets]]"

text \<open>\<open>t.item()\<close> on a tensor.\<close>

definition item :: "tensor \<Rightarrow> error + pyfloat" where
  "item t = item_of (tvalue t)"

text \<open>
  \<open>criterion(data, pred, dXdt, actual)\<close>. All five sub-losses are computed; \<open>loss4\<close>, the
  relative loss, enters neither the list nor the sum:
  \<^verbatim>\<open>
  loss_arr = [loss1.item(), loss2.item(), loss3.item(), loss5.item()]
  return  loss1 +  loss2 + loss3  + loss5, loss_arr
  \<close>
\<close>

definition criterion ::
  "'o env \<Rightarrow> nat \<Rightarrow> tensor \<Rightarrow> tensor \<Rightarrow> tensor \<Rightarrow> tensor \<Rightarrow> error + (tensor \<times> pyfloat list)" where
  "criterion env K data pred dXdt actual =
     (let loss1 = apply_op env (LossFn log_loss) [pred, apply_op env (SliceTo K) [actual]];
          loss2 = apply_op env (LossFn L1Loss) [dXdt, apply_op env (SliceFrom K) [actual]];
          loss3 = apply_op env (LossFn signed_loss_function)
                    [dXdt, apply_op env (SliceFrom K) [actual]];
          loss4 = apply_op env (LossFn relative_loss) [pred, apply_op env (SliceTo K) [actual]];
          loss5 = apply_op env (LossFn loss_mass_fraction) [pred]
      in (case item loss1 of Inl e \<Rightarrow> Inl e | Inr i1 \<Rightarrow>
         (case item loss2 of Inl e \<Rightarrow> Inl e | Inr i2 \<Rightarrow>
         (case item loss3 of Inl e \<Rightarrow> Inl e | Inr i3 \<Rightarrow>
         (case item loss5 of Inl e \<Rightarrow> Inl e | Inr i5 \<Rightarrow>
            Inr (apply_op env Add
                   [apply_op env Add [apply_op env Add [loss1, loss2], loss3], loss5],
                 [i1, i2, i3, i5]))))))"

text \<open>
  The sum of the state loss and the mass-conservation loss alone, for comparison with
  what the driver backpropagates.
\<close>

definition state_and_mass_loss :: "'o env \<Rightarrow> nat \<Rightarrow> tensor \<Rightarrow> tensor \<Rightarrow> tensor" where
  "state_and_mass_loss env K pred actual =
     apply_op env Add
       [apply_op env (LossFn log_loss) [pred, apply_op env (SliceTo K) [actual]],
        apply_op env (LossFn loss_mass_fraction) [pred]]"

subsection \<open>One training batch (lines 255-299)\<close>

text \<open>
  What persists from batch to batch: the parameters, the optimizer's state and the
  gradient fields.
\<close>

record 'o trainer =
  params :: "matrix list"
  opt_state :: "'o"
  autograd_of :: autograd

record batch_out =
  loss_item :: pyfloat
  array_loss :: "pyfloat list"
  loss_plot :: pyfloat
  loss_c :: matrix
  dloss_c :: matrix

text \<open>
  \<open>t.requires_grad = True\<close> turns a tensor without history into a leaf; torch refuses
  it on the result of an operation.
\<close>

definition set_requires_grad :: "leaf \<Rightarrow> tensor \<Rightarrow> error + tensor" where
  "set_requires_grad l t =
     (case t of
        Const v \<Rightarrow> Inr (Leaf l v)
      | Leaf l' v \<Rightarrow> Inr (Leaf l' v)
      | Op f args v \<Rightarrow> Inl RuntimeError)"

text \<open>
  The loader hands over a new \<open>data\<close> tensor, whose \<open>.grad\<close> is \<open>None\<close>; \<open>dXdt\<close> is new as
  well, and the forward pass builds a new graph.
\<close>

definition new_batch :: "autograd \<Rightarrow> autograd" where
  "new_batch ag = \<lparr>grad_of = (grad_of ag)(Data := None, DXdt := None), graph_alive = True\<rparr>"

text \<open>
  Lines 257-276: the forward pass, the differentiator, and \<open>dXdt.requires_grad = True\<close>.
  \<open>dXdt\<close> starts as \<open>torch.zeros_like(prediction)\<close> and is filled from \<open>data.grad\<close>; the
  gradients that \<open>backward\<close> leaves in \<open>.grad\<close> carry no history (no \<open>create_graph\<close>), so
  neither does \<open>dXdt\<close> until the flag makes it a leaf.
\<close>

definition forward_and_differentiate ::
  "'o env \<Rightarrow> nat \<Rightarrow> 'o trainer \<Rightarrow> matrix \<Rightarrow> error + (tensor \<times> tensor \<times> autograd)" where
  "forward_and_differentiate env K tr data =
     (let prediction = model env (params tr) data in
      (case differentiator env K prediction (new_batch (autograd_of tr)) of
         Inl e \<Rightarrow> Inl e
       | Inr (dXdt_value, ag) \<Rightarrow>
      (case set_requires_grad DXdt (Const dXdt_value) of
         Inl e \<Rightarrow> Inl e
       | Inr dXdt \<Rightarrow> Inr (prediction, dXdt, ag))))"

text \<open>
  \<open>optimizer.zero_grad()\<close>, as torch 1.x does it: the gradient of every parameter that has
  one is zeroed in place.
\<close>

definition zero_grad :: "nat \<Rightarrow> autograd \<Rightarrow> autograd" where
  "zero_grad n ag = ag\<lparr>grad_of :=
     (\<lambda>l. case l of
             Param k \<Rightarrow> (if k < n then map_option zeros_like (grad_of ag l) else grad_of ag l)
           | _ \<Rightarrow> grad_of ag l)\<rparr>"

definition param_grads :: "nat \<Rightarrow> autograd \<Rightarrow> matrix option list" where
  "param_grads n ag = map (\<lambda>k. grad_of ag (Param k)) [0..<n]"

text \<open>
  Lines 283-287: \<open>optimizer.zero_grad()\<close>, \<open>loss.backward()\<close> (no \<open>retain_graph\<close>: the graph is
  freed), \<open>optimizer.step()\<close>.
\<close>

definition backprop_and_step ::
  "'o env \<Rightarrow> 'o trainer \<Rightarrow> tensor \<Rightarrow> autograd \<Rightarrow> error + 'o trainer" where
  "backprop_and_step env tr loss ag =
     (let n = length (params tr) in
      (case torch_backward env loss (ones_like (tvalue loss)) False (zero_grad n ag) of
         Inl e \<Rightarrow> Inl e
       | Inr ag' \<Rightarrow>
           (case opt_step env (opt_state tr) (params tr) (param_grads n ag') of
              (s', ps') \<Rightarrow> Inr \<lparr>params = ps', opt_state = s', autograd_of = ag'\<rparr>)))"

text \<open>
  The component losses that are only recorded: \<open>np.array(f(...).tolist())\<close>.
\<close>

definition component_losses ::
  "'o env \<Rightarrow> nat \<Rightarrow> tensor \<Rightarrow> tensor \<Rightarrow> tensor \<Rightarrow> matrix \<times> matrix" where
  "component_losses env K prediction dXdt targets =
     (tvalue (apply_op env (LossFn component_loss_f)
                [prediction, apply_op env (SliceTo K) [targets]]),
      tvalue (apply_op env (LossFn component_loss_f_L1)
                [dXdt, apply_op env (SliceFrom K) [targets]]))"

type_synonym batch = "matrix \<times> matrix"

fun train_batch ::
  "'o env \<Rightarrow> nat \<Rightarrow> batch \<Rightarrow> 'o trainer \<Rightarrow> error + ('o trainer \<times> batch_out)" where
  "train_batch env K (data, targets) tr =
     (case forward_and_differentiate env K tr data of
        Inl e \<Rightarrow> Inl e
      | Inr (prediction, dXdt, ag) \<Rightarrow>
     (case criterion env K (Leaf Data data) prediction dXdt (Const targets) of
        Inl e \<Rightarrow> Inl e
      | Inr (loss, arr) \<Rightarrow>
     (case item loss of
        Inl e \<Rightarrow> Inl e
      | Inr li \<Rightarrow>
     (case backprop_and_step env tr loss ag of
        Inl e \<Rightarrow> Inl e
      | Inr tr' \<Rightarrow>
     (case item (criterion_plotting env K prediction (Const targets)) of
        Inl e \<Rightarrow> Inl e
      | Inr lp \<Rightarrow>
     (case component_losses env K prediction dXdt (Const targets) of
        (c, d) \<Rightarrow>
          Inr (tr', \<lparr>loss_item = li, array_loss = arr, loss_plot = lp,
                     loss_c = c, dloss_c = d\<rparr>)))))))"

subsection \<open>One test batch (lines 324-350)\<close>

text \<open>
  No optimizer call; the differentiator's backward passes still add to the parameters'
  gradient fields. The loss appended to \<open>losses\<close> is the plotting loss.
\<close>

record test_out =
  test_loss_item :: pyfloat
  test_loss_c :: matrix
  test_dloss_c :: matrix

fun test_batch ::
  "'o env \<Rightarrow> nat \<Rightarrow> batch \<Rightarrow> 'o trainer \<Rightarrow> error + ('o trainer \<times> test_out)" where
  "test_batch env K (data, targets) tr =
     (let prediction = model env (params tr) data in
      (case item (criterion_plotting env K prediction (Const targets)) of
         Inl e \<Rightarrow> Inl e
       | Inr li \<Rightarrow>
      (case differentiator env K prediction (new_batch (autograd_of tr)) of
         Inl e \<Rightarrow> Inl e
       | Inr (dXdt_value, ag) \<Rightarrow>
      (case component_losses env K prediction (Const dXdt_value) (Const targets) of
         (c, d) \<Rightarrow>
           Inr (tr\<lparr>autograd_of := ag\<rparr>,
                \<lparr>test_loss_item = li, test_loss_c = c, test_dloss_c = d\<rparr>)))))"

subsection \<open>The epoch loop (lines 250-362)\<close>

text \<open>
  The variables of the two batch loops. \<open>losses\<close>, \<open>plotting_losses\<close> and \<open>diff_losses\<close> are
  reset at the top of every epoch; \<open>batch_idx\<close>, \<open>component_loss\<close> and \<open>d_component_loss\<close>
  are bound by the loops and stay bound after them (\<open>None\<close>: not bound yet).
\<close>

record loopvars =
  losses :: "pyfloat list"
  plotting_losses :: "pyfloat list"
  diff_losses :: "pyfloat list list"
  batch_idx :: "nat option"
  component_loss :: "matrix option"
  d_component_loss :: "matrix option"

datatype message =
    Line string
  | ModelStartingOn string
  | CostAtEpoch nat pyfloat
  | OverwritingFile string

text \<open>The per-epoch histories (lines 241-247) and what was printed.\<close>

record histories =
  cost_per_epoc :: "pyfloat list"
  component_losses_test :: "matrix list"
  component_losses_train :: "matrix list"
  d_component_losses_test :: "matrix list"
  d_component_losses_train :: "matrix list"
  cost_per_epoc_test :: "pyfloat list"
  different_loss_metrics :: "pyfloat list list"
  console :: "message list"

text \<open>
  Lines 301-307 and 352-357:
  \<^verbatim>\<open>
  if batch_idx == 0:
      component_loss = loss_c
      d_component_loss = dloss_c
  else:
      component_loss = component_loss + loss_c
      d_component_loss = d_component_loss + dloss_c
  \<close>
\<close>

definition accumulate_components ::
  "nat \<Rightarrow> matrix \<Rightarrow> matrix \<Rightarrow> loopvars \<Rightarrow> error + loopvars" where
  "accumulate_components idx c d lv =
     (if idx = 0 then Inr (lv\<lparr>component_loss := Some c, d_component_loss := Some d\<rparr>)
      else
        (case component_loss lv of
           None \<Rightarrow> Inl NameError
         | Some c0 \<Rightarrow>
        (case np_add c0 c of
           Inl e \<Rightarrow> Inl e
         | Inr c' \<Rightarrow>
        (case d_component_loss lv of
           None \<Rightarrow> Inl NameError
         | Some d0 \<Rightarrow>
        (case np_add d0 d of
           Inl e \<Rightarrow> Inl e
         | Inr d' \<Rightarrow> Inr (lv\<lparr>component_loss := Some c', d_component_loss := Some d'\<rparr>))))))"

text \<open>\<open>for batch_idx, (data, targets) in enumerate(train_loader)\<close>, from index \<open>idx\<close> on.\<close>

fun train_loop ::
  "'o env \<Rightarrow> nat \<Rightarrow> nat \<Rightarrow> batch list \<Rightarrow> 'o trainer \<times> loopvars
     \<Rightarrow> error + ('o trainer \<times> loopvars)" where
  "train_loop env K idx [] s = Inr s"
| "train_loop env K idx (b # bs) (tr, lv) =
     (case train_batch env K b tr of
        Inl e \<Rightarrow> Inl e
      | Inr (tr', out) \<Rightarrow>
     (case accumulate_components idx (loss_c out) (dloss_c out)
             (lv\<lparr>batch_idx := Some idx,
                 losses := losses lv @ [loss_item out],
                 diff_losses := diff_losses lv @ [array_loss out],
                 plotting_losses := plotting_losses lv @ [loss_plot out]\<rparr>) of
        Inl e \<Rightarrow> Inl e
      | Inr lv' \<Rightarrow> train_loop env K (Suc idx) bs (tr', lv')))"

text \<open>
  Lines 310-319, after the training batches of epoch \<open>epoch\<close>:
  \<^verbatim>\<open>
  print(f"Cost at epoch {epoch} is {sum(losses) / len(losses)}")
  cost_per_epoc.append(sum(plotting_losses) / len(plotting_losses))
  component_losses_train.append(component_loss/batch_idx)
  d_component_losses_train.append(d_component_loss/batch_idx)
  diff_losses = np.array(diff_losses)
  different_loss_metrics.append(diff_losses.sum(axis=0)/len(losses))
  \<close>
\<close>

definition after_train :: "nat \<Rightarrow> loopvars \<Rightarrow> histories \<Rightarrow> error + histories" where
  "after_train epoch lv h =
     (case py_mean (losses lv) of
        Inl e \<Rightarrow> Inl e
      | Inr cost \<Rightarrow>
     (case py_mean (plotting_losses lv) of
        Inl e \<Rightarrow> Inl e
      | Inr plot_cost \<Rightarrow>
     (case component_loss lv of
        None \<Rightarrow> Inl NameError
      | Some c \<Rightarrow>
     (case batch_idx lv of
        None \<Rightarrow> Inl NameError
      | Some i \<Rightarrow>
     (case d_component_loss lv of
        None \<Rightarrow> Inl NameError
      | Some d \<Rightarrow>
          Inr (h\<lparr>console := console h @ [CostAtEpoch epoch cost],
                 cost_per_epoc := cost_per_epoc h @ [plot_cost],
                 component_losses_train := component_losses_train h @ [np_div c i],
                 d_component_losses_train := d_component_losses_train h @ [np_div d i],
                 different_loss_metrics := different_loss_metrics h @
                   [map (\<lambda>x. fdiv_idx x (length (losses lv)))
                      (sum_axis0 (diff_losses lv))]\<rparr>))))))"

text \<open>\<open>for batch_idx, (data, targets) in enumerate(test_loader)\<close>, from index \<open>idx\<close> on.\<close>

fun test_loop ::
  "'o env \<Rightarrow> nat \<Rightarrow> nat \<Rightarrow> batch list \<Rightarrow> 'o trainer \<times> loopvars
     \<Rightarrow> error + ('o trainer \<times> loopvars)" where
  "test_loop env K idx [] s = Inr s"
| "test_loop env K idx (b # bs) (tr, lv) =
     (case test_batch env K b tr of
        Inl e \<Rightarrow> Inl e
      | Inr (tr', out) \<Rightarrow>
     (case accumulate_components idx (test_loss_c out) (test_dloss_c out)
             (lv\<lparr>batch_idx := Some idx,
                 losses := losses lv @ [test_loss_item out]\<rparr>) of
        Inl e \<Rightarrow> Inl e
      | Inr lv' \<Rightarrow> test_loop env K (Suc idx) bs (tr', lv')))"

text \<open>
  Lines 360-362, after the test batches:
  \<^verbatim>\<open>
  cost_per_epoc_test.append(sum(losses) / len(losses))
  component_losses_test.append(component_loss/batch_idx)
  d_component_losses_test.append(d_component_loss/batch_idx)
  \<close>
\<close>

definition after_test :: "loopvars \<Rightarrow> histories \<Rightarrow> error + histories" where
  "after_test lv h =
     (case py_mean (losses lv) of
        Inl e \<Rightarrow> Inl e
      | Inr cost \<Rightarrow>
     (case component_loss lv of
        None \<Rightarrow> Inl NameError
      | Some c \<Rightarrow>
     (case batch_idx lv of
        None \<Rightarrow> Inl NameError
      | Some i \<Rightarrow>
     (case d_component_loss lv of
        None \<Rightarrow> Inl NameError
      | Some d \<Rightarrow>
          Inr (h\<lparr>cost_per_epoc_test := cost_per_epoc_test h @ [cost],
                 component_losses_test := component_losses_test h @ [np_div c i],
                 d_component_losses_test := d_component_losses_test h @ [np_div d i]\<rparr>)))))"

text \<open>
  One pass of \<open>for epoch in range(num_epochs)\<close>, on the batches the two loaders yield in
  this epoch; \<open>do_plotting\<close> is the flag \<open>DO_PLOTTING\<close>.
\<close>

type_synonym 'o run_state = "'o trainer \<times> loopvars \<times> histories"

fun epoch ::
  "'o env \<Rightarrow> nat \<Rightarrow> bool \<Rightarrow> batch list \<Rightarrow> batch list \<Rightarrow> nat \<Rightarrow> 'o run_state
     \<Rightarrow> error + 'o run_state" where
  "epoch env K do_plotting train_batches test_batches n (tr, lv, h) =
     (case train_loop env K 0 train_batches
             (tr, lv\<lparr>losses := [], plotting_losses := [], diff_losses := []\<rparr>) of
        Inl e \<Rightarrow> Inl e
      | Inr (tr1, lv1) \<Rightarrow>
     (case after_train n lv1 h of
        Inl e \<Rightarrow> Inl e
      | Inr h1 \<Rightarrow>
          if do_plotting then
            (case test_loop env K 0 test_batches (tr1, lv1) of
               Inl e \<Rightarrow> Inl e
             | Inr (tr2, lv2) \<Rightarrow>
            (case after_test lv2 h1 of
               Inl e \<Rightarrow> Inl e
             | Inr h2 \<Rightarrow> Inr (tr2, lv2, h2)))
          else Inr (tr1, lv1, h1)))"

text \<open>
  The loaders shuffle: \<open>train_loader n\<close> and \<open>test_loader n\<close> are the batches they yield in
  epoch \<open>n\<close>.
\<close>

fun epochs ::
  "'o env \<Rightarrow> nat \<Rightarrow> bool \<Rightarrow> (nat \<Rightarrow> batch list) \<Rightarrow> (nat \<Rightarrow> batch list) \<Rightarrow> nat list
     \<Rightarrow> 'o run_state \<Rightarrow> error + 'o run_state" where
  "epochs env K do_plotting train_loader test_loader [] s = Inr s"
| "epochs env K do_plotting train_loader test_loader (n # ns) s =
     (case epoch env K do_plotting (train_loader n) (test_loader n) n s of
        Inl e \<Rightarrow> Inl e
      | Inr s' \<Rightarrow> epochs env K do_plotting train_loader test_loader ns s')"

definition initial_loopvars :: loopvars where
  "initial_loopvars = \<lparr>losses = [], plotting_losses = [], diff_losses = [],
     batch_idx = None, component_loss = None, d_component_loss = None\<rparr>"

definition initial_histories :: histories where
  "initial_histories = \<lparr>cost_per_epoc = [], component_losses_test = [],
     component_losses_train = [], d_component_losses_test = [],
     d_component_losses_train = [], cost_per_epoc_test = [],
     different_loss_metrics = [], console = []\<rparr>"

subsection \<open>The batches of a loop, one after the other\<close>

text \<open>
  The outputs of the batches in the order of the loop, each batch starting from the
  trainer the one before it left, and the sum of a list of arrays as the loop builds it.
  The properties of the epoch are stated in terms of these.
\<close>

fun run_train_batches ::
  "'o env \<Rightarrow> nat \<Rightarrow> batch list \<Rightarrow> 'o trainer \<Rightarrow> error + ('o trainer \<times> batch_out list)" where
  "run_train_batches env K [] tr = Inr (tr, [])"
| "run_train_batches env K (b # bs) tr =
     (case train_batch env K b tr of
        Inl e \<Rightarrow> Inl e
      | Inr (tr', out) \<Rightarrow>
     (case run_train_batches env K bs tr' of
        Inl e \<Rightarrow> Inl e
      | Inr (tr'', outs) \<Rightarrow> Inr (tr'', out # outs)))"

fun run_test_batches ::
  "'o env \<Rightarrow> nat \<Rightarrow> batch list \<Rightarrow> 'o trainer \<Rightarrow> error + ('o trainer \<times> test_out list)" where
  "run_test_batches env K [] tr = Inr (tr, [])"
| "run_test_batches env K (b # bs) tr =
     (case test_batch env K b tr of
        Inl e \<Rightarrow> Inl e
      | Inr (tr', out) \<Rightarrow>
     (case run_test_batches env K bs tr' of
        Inl e \<Rightarrow> Inl e
      | Inr (tr'', outs) \<Rightarrow> Inr (tr'', out # outs)))"

fun np_accum :: "matrix \<Rightarrow> matrix list \<Rightarrow> error + matrix" where
  "np_accum a [] = Inr a"
| "np_accum a (x # xs) =
     (case np_add a x of Inl e \<Rightarrow> Inl e | Inr a' \<Rightarrow> np_accum a' xs)"

definition np_total :: "matrix list \<Rightarrow> error + matrix" where
  "np_total xs = (case xs of [] \<Rightarrow> Inl NameError | x # xs' \<Rightarrow> np_accum x xs')"

definition all_finite :: "matrix \<Rightarrow> bool" where
  "all_finite m = list_all (list_all is_finite) m"

definition none_finite :: "matrix \<Rightarrow> bool" where
  "none_finite m = list_all (list_all (\<lambda>x. \<not> is_finite x)) m"

text \<open>
  What the histories are said to hold, in real numbers. \<open>real_of\<close> reads a finite float.
  \<open>divided_by_last_index xs\<close> has the shape of the first array of \<open>xs\<close>, and its entry
  \<open>(i, j)\<close> is the sum of the entries \<open>(i, j)\<close> of the arrays of \<open>xs\<close> divided by their
  number minus one. \<open>over_zero x\<close> is what IEEE arithmetic gives for \<open>x / 0\<close>.
\<close>

definition real_of :: "pyfloat \<Rightarrow> real" where
  "real_of x = (case x of Fin r \<Rightarrow> r | _ \<Rightarrow> 0)"

definition divided_by_last_index :: "matrix list \<Rightarrow> matrix" where
  "divided_by_last_index xs =
     map (\<lambda>i. map (\<lambda>j. Fin (sum_list (map (\<lambda>x. real_of (x ! i ! j)) xs)
                                    / real (length xs - 1)))
                [0..<length (hd xs ! i)])
         [0..<length (hd xs)]"

definition over_zero :: "pyfloat \<Rightarrow> pyfloat" where
  "over_zero x =
     (case x of
        Fin r \<Rightarrow> if 0 < r then PInf else if r < 0 then NInf else NaN
      | PInf \<Rightarrow> PInf
      | NInf \<Rightarrow> NInf
      | NaN \<Rightarrow> NaN)"

subsection \<open>Files\<close>

text \<open>
  The part of the file system the driver touches: paths relative to the working
  directory, split at \<open>/\<close> with empty components dropped (so \<open>fix_plot//x\<close> is
  \<open>fix_plot/x\<close>), each bound to a directory or a file. The working directory itself is the
  empty path. Links and permissions are not modelled.
\<close>

type_synonym path = "string list"

datatype content =
    Text "message list"
  | Checkpoint "matrix list"
  | Table "pyfloat list list"
  | Other string

datatype node = Dir | File content

type_synonym filesystem = "(path \<times> node) list"

fun components :: "string \<Rightarrow> string \<Rightarrow> string list" where
  "components acc [] = (if acc = [] then [] else [acc])"
| "components acc (c # cs) =
     (if c = CHR ''/'' then (if acc = [] then components [] cs else acc # components [] cs)
      else components (acc @ [c]) cs)"

definition split_path :: "string \<Rightarrow> path" where
  "split_path s = components [] s"

definition node_at :: "filesystem \<Rightarrow> path \<Rightarrow> node option" where
  "node_at fs p = map_of fs p"

definition is_dir :: "filesystem \<Rightarrow> path \<Rightarrow> bool" where
  "is_dir fs p = (p = [] \<or> node_at fs p = Some Dir)"

definition remove :: "filesystem \<Rightarrow> path \<Rightarrow> filesystem" where
  "remove fs p = filter (\<lambda>e. fst e \<noteq> p) fs"

definition put :: "filesystem \<Rightarrow> path \<Rightarrow> node \<Rightarrow> filesystem" where
  "put fs p n = (p, n) # remove fs p"

text \<open>\<open>os.path.isdir\<close>, \<open>os.path.exists\<close>, \<open>os.listdir\<close> (called on directories only).\<close>

definition os_path_isdir :: "filesystem \<Rightarrow> string \<Rightarrow> bool" where
  "os_path_isdir fs s = is_dir fs (split_path s)"

definition os_path_exists :: "filesystem \<Rightarrow> string \<Rightarrow> bool" where
  "os_path_exists fs s = (split_path s = [] \<or> node_at fs (split_path s) \<noteq> None)"

definition os_listdir :: "filesystem \<Rightarrow> string \<Rightarrow> string list" where
  "os_listdir fs s =
     map (\<lambda>e. last (fst e)) (filter (\<lambda>e. fst e \<noteq> [] \<and> butlast (fst e) = split_path s) fs)"

text \<open>\<open>os.mkdir\<close>: the path must be new and its parent a directory.\<close>

definition os_mkdir :: "filesystem \<Rightarrow> string \<Rightarrow> error + filesystem" where
  "os_mkdir fs s =
     (let p = split_path s in
      if p = [] \<or> node_at fs p \<noteq> None then Inl OSError
      else if \<not> is_dir fs (butlast p) then Inl OSError
      else Inr (put fs p Dir))"

text \<open>
  Writing a whole file, as \<open>torch.save\<close> and \<open>np.savetxt\<close> do: the path must not be a
  directory and its parent must be one; what was there is replaced.
\<close>

definition write_file :: "filesystem \<Rightarrow> string \<Rightarrow> content \<Rightarrow> error + filesystem" where
  "write_file fs s c =
     (let p = split_path s in
      if p = [] \<or> node_at fs p = Some Dir then Inl OSError
      else if \<not> is_dir fs (butlast p) then Inl OSError
      else Inr (put fs p (File c)))"

text \<open>\<open>open(s, "a")\<close>: creates an empty file when there is none, keeps what is there.\<close>

definition open_append :: "filesystem \<Rightarrow> string \<Rightarrow> error + filesystem" where
  "open_append fs s =
     (let p = split_path s in
      if p = [] \<or> node_at fs p = Some Dir then Inl OSError
      else if \<not> is_dir fs (butlast p) then Inl OSError
      else if node_at fs p = None then Inr (put fs p (File (Text [])))
      else Inr fs)"

text \<open>
  \<open>os.rename(src, dst)\<close> as POSIX has it: a file replaces a file or takes a free name; a
  directory moves with everything below it, onto a free name or an empty directory.
\<close>

definition below :: "path \<Rightarrow> path \<Rightarrow> bool" where
  "below p q = (length p \<le> length q \<and> take (length p) q = p)"

text \<open>An entry at or below \<open>ps\<close> goes to the same place at or below \<open>pd\<close>.\<close>

definition move :: "path \<Rightarrow> path \<Rightarrow> path \<times> node \<Rightarrow> path \<times> node" where
  "move ps pd e = (if below ps (fst e) then (pd @ drop (length ps) (fst e), snd e) else e)"

definition os_rename :: "filesystem \<Rightarrow> string \<Rightarrow> string \<Rightarrow> error + filesystem" where
  "os_rename fs src dst =
     (let ps = split_path src; pd = split_path dst in
      if pd = [] \<or> \<not> is_dir fs (butlast pd) then Inl OSError
      else
        (case node_at fs ps of
           None \<Rightarrow> Inl OSError
         | Some (File c) \<Rightarrow>
             if node_at fs pd = Some Dir then Inl OSError
             else Inr (put (remove fs ps) pd (File c))
         | Some Dir \<Rightarrow>
             if below ps pd then Inl OSError
             else if node_at fs pd \<noteq> None
                     \<and> (node_at fs pd \<noteq> Some Dir \<or> os_listdir fs dst \<noteq> []) then Inl OSError
             else Inr (map (move ps pd) (remove fs pd))))"

subsection \<open>The driver's files and its console (lines 44-81, 372-400)\<close>

definition output_dir :: string where
  "output_dir = ''fix_plot/''"

definition log_file :: string where
  "log_file = output_dir @ ''log.txt''"

definition file_name :: string where
  "file_name = output_dir @ ''my_model_pinn.pt''"

definition DEBUG_MODE :: bool where
  "DEBUG_MODE = True"

definition DO_PLOTTING :: bool where
  "DO_PLOTTING = True"

definition SAVE_MODEL :: bool where
  "SAVE_MODEL = True"

definition num_epochs :: nat where
  "num_epochs = (if DEBUG_MODE then 3 else 100)"

text \<open>
  Once \<open>sys.stdout = Logger()\<close> is in place, \<open>print\<close> writes to the terminal and appends to
  the log file. The state is the file system and what the terminal has shown.
\<close>

type_synonym world = "filesystem \<times> message list"

definition log_write :: "filesystem \<Rightarrow> message \<Rightarrow> filesystem" where
  "log_write fs m =
     (case node_at fs (split_path log_file) of
        Some (File (Text ls)) \<Rightarrow> put fs (split_path log_file) (File (Text (ls @ [m])))
      | _ \<Rightarrow> fs)"

fun print_line :: "message \<Rightarrow> world \<Rightarrow> world" where
  "print_line m (fs, out) = (log_write fs m, out @ [m])"

text \<open>
  Lines 372-384:
  \<^verbatim>\<open>
  print("Saving...")
  file_name = output_dir + 'my_model_pinn.pt'
  if os.path.exists(file_name):
      print("Overwritting file:", file_name)
      os.rename(file_name, file_name+'.backup')
  torch.save(model.state_dict(), file_name)
  np.savetxt(output_dir + "/cost_per_epoch.txt", cost_per_epoc)
  ...
  \<close>
  The component histories are arrays of one row per epoch.
\<close>

definition backup_existing :: "world \<Rightarrow> error + world" where
  "backup_existing w =
     (if os_path_exists (fst w) file_name then
        (case print_line (OverwritingFile file_name) w of
           (fs, out) \<Rightarrow>
             (case os_rename fs file_name (file_name @ ''.backup'') of
                Inl e \<Rightarrow> Inl e
              | Inr fs' \<Rightarrow> Inr (fs', out)))
      else Inr w)"

definition save_model :: "matrix list \<Rightarrow> histories \<Rightarrow> world \<Rightarrow> error + world" where
  "save_model state_dict h w =
     (case backup_existing (print_line (Line ''Saving...'') w) of
        Inl e \<Rightarrow> Inl e
      | Inr (fs, out) \<Rightarrow>
     (case write_file fs file_name (Checkpoint state_dict) of
        Inl e \<Rightarrow> Inl e
      | Inr fs1 \<Rightarrow>
     (case write_file fs1 (output_dir @ ''/cost_per_epoch.txt'')
             (Table (map (\<lambda>x. [x]) (cost_per_epoc h))) of
        Inl e \<Rightarrow> Inl e
      | Inr fs2 \<Rightarrow>
     (case write_file fs2 (output_dir @ ''/component_losses_test.txt'')
             (Table (map concat (component_losses_test h))) of
        Inl e \<Rightarrow> Inl e
      | Inr fs3 \<Rightarrow>
     (case write_file fs3 (output_dir @ ''/component_losses_train.txt'')
             (Table (map concat (component_losses_train h))) of
        Inl e \<Rightarrow> Inl e
      | Inr fs4 \<Rightarrow>
     (case write_file fs4 (output_dir @ ''/d_component_losses_test.txt'')
             (Table (map concat (d_component_losses_test h))) of
        Inl e \<Rightarrow> Inl e
      | Inr fs5 \<Rightarrow>
     (case write_file fs5 (output_dir @ ''/d_component_losses_train.txt'')
             (Table (map concat (d_component_losses_train h))) of
        Inl e \<Rightarrow> Inl e
      | Inr fs6 \<Rightarrow> Inr (fs6, out))))))))"

text \<open>
  The places the block writes to, and the condition under which every step of it goes
  through: the output directory is a directory and none of these places is one.
\<close>

definition ckpt :: path where
  "ckpt = [''fix_plot'', ''my_model_pinn.pt'']"

definition bak :: path where
  "bak = [''fix_plot'', ''my_model_pinn.pt.backup'']"

definition metric_paths :: "path list" where
  "metric_paths =
     [[''fix_plot'', ''cost_per_epoch.txt''],
      [''fix_plot'', ''component_losses_test.txt''],
      [''fix_plot'', ''component_losses_train.txt''],
      [''fix_plot'', ''d_component_losses_test.txt''],
      [''fix_plot'', ''d_component_losses_train.txt'']]"

definition writable :: "filesystem \<Rightarrow> bool" where
  "writable fs =
     (is_dir fs [''fix_plot'']
      \<and> list_all (\<lambda>p. node_at fs p \<noteq> Some Dir) (ckpt # bak # metric_paths))"

text \<open>A path whose last component ends in \<open>.backup\<close>.\<close>

definition is_backup :: "path \<Rightarrow> bool" where
  "is_backup p =
     (p \<noteq> [] \<and> 7 \<le> length (last p) \<and> drop (length (last p) - 7) (last p) = ''.backup'')"

definition backups :: "filesystem \<Rightarrow> path list" where
  "backups fs = filter is_backup (map fst fs)"

subsection \<open>The script from top to bottom\<close>

text \<open>
  What the script takes from outside: the clock, the data set's output width, the
  batches the two loaders yield in each epoch, the freshly built network and optimizer,
  and what the plotting module writes. The data set's loading and normalisation and the
  split are not part of this model.
\<close>

record 'o inputs =
  now :: string
  output_width :: nat
  train_loader :: "nat \<Rightarrow> batch list"
  test_loader :: "nat \<Rightarrow> batch list"
  initial_trainer :: "'o trainer"
  do_all_plots :: "filesystem \<Rightarrow> filesystem"

datatype outcome = Exited | Raised error | Succeeded

record run_result =
  outcome :: outcome
  files :: filesystem
  terminal :: "message list"

definition banner :: "string \<Rightarrow> message list" where
  "banner t =
     [ModelStartingOn t,
      Line (''input_prefix react_inputs_*''),
      Line (''output_prefix react_outputs_*''),
      Line (''output_dir '' @ output_dir),
      Line (''DEBUG_MODE True''),
      Line (''DO_PLOTTING True''),
      Line (''DO_HYPER_OPTIMIZATION False'')]"

text \<open>
  Lines 51-54 come first:
  \<^verbatim>\<open>
  if os.path.isdir(output_dir) and (len(os.listdir(output_dir)) != 0):
      print(f"Directory {output_dir} exists and is not empty.")
      print("Please change output_dir or remove the directory to prevent overwritting data.")
      sys.exit()
  \<close>
  An exception ends the run with the files as the stage before it left them.
\<close>

definition driver :: "'o env \<Rightarrow> 'o inputs \<Rightarrow> filesystem \<Rightarrow> run_result" where
  "driver env inp fs =
     (if os_path_isdir fs output_dir \<and> length (os_listdir fs output_dir) \<noteq> 0 then
        \<lparr>outcome = Exited, files = fs,
         terminal =
           [Line (''Directory '' @ output_dir @ '' exists and is not empty.''),
            Line ''Please change output_dir or remove the directory to prevent overwritting data.'']\<rparr>
      else
        (case (if \<not> os_path_isdir fs output_dir then os_mkdir fs output_dir else Inr fs) of
           Inl e \<Rightarrow> \<lparr>outcome = Raised e, files = fs, terminal = []\<rparr>
         | Inr fs1 \<Rightarrow>
        (case open_append fs1 log_file of
           Inl e \<Rightarrow> \<lparr>outcome = Raised e, files = fs1, terminal = []\<rparr>
         | Inr fs2 \<Rightarrow>
        (let w0 = fold print_line (banner (now inp)) (fs2, []);
             K = nat (nnuc_of (output_width inp) + 1)
         in
        (case epochs env K DO_PLOTTING (train_loader inp) (test_loader inp) [0..<num_epochs]
                (initial_trainer inp, initial_loopvars, initial_histories) of
           Inl e \<Rightarrow> \<lparr>outcome = Raised e, files = fst w0, terminal = snd w0\<rparr>
         | Inr (tr, lv, h) \<Rightarrow>
        (let w1 = fold print_line (console h) w0 in
        (case (if SAVE_MODEL then save_model (params tr) h w1 else Inr w1) of
           Inl e \<Rightarrow> \<lparr>outcome = Raised e, files = fst w1, terminal = snd w1\<rparr>
         | Inr w2 \<Rightarrow>
        (let w3 = (if DO_PLOTTING
                   then (case print_line (Line ''Plotting...'') w2 of
                           (f, out) \<Rightarrow> (do_all_plots inp f, out))
                   else w2);
             w4 = print_line (Line ''Success! :) '') w3
         in \<lparr>outcome = Succeeded, files = fst w4, terminal = snd w4\<rparr>))))))))"

subsection \<open>A small concrete run\<close>

text \<open>
  A two-channel identity network with constant sub-losses and an optimizer that leaves the
  parameters alone, on a batch of one sample with three input channels.
\<close>

definition demo_env :: "unit env" where
  "demo_env = identity_net 2
     \<lparr> forward = (\<lambda>vals. []),
       loss_value = (\<lambda>l vals.
          if l = component_loss_f then [[Fin 1, Fin 2]]
          else if l = component_loss_f_L1 then [[Fin 0, Fin 5]]
          else [[Fin 1]]),
       vjp = (\<lambda>f vals i g. zeros_like (vals ! i)),
       opt_step = (\<lambda>s ps gs. (s, ps)) \<rparr>"

definition demo_data :: matrix where
  "demo_data = [[Fin 3, Fin 4, Fin 5]]"

definition fresh_autograd :: autograd where
  "fresh_autograd = \<lparr>grad_of = (\<lambda>_. None), graph_alive = True\<rparr>"

definition demo_params :: "matrix list" where
  "demo_params = [[[Fin 7]]]"

definition demo_targets :: matrix where
  "demo_targets = [[Fin 3, Fin 4, Fin 0, Fin 0]]"

definition demo_trainer :: "unit trainer" where
  "demo_trainer = \<lparr>params = demo_params, opt_state = (), autograd_of = fresh_autograd\<rparr>"

definition demo_out :: batch_out where
  "demo_out = \<lparr>loss_item = Fin 4, array_loss = [Fin 1, Fin 1, Fin 1, Fin 1],
     loss_plot = Fin 1, loss_c = [[Fin 1, Fin 2]], dloss_c = [[Fin 0, Fin 5]]\<rparr>"

definition demo_batch :: batch where
  "demo_batch = (demo_data, demo_targets)"

definition demo_test_out :: test_out where
  "demo_test_out = \<lparr>test_loss_item = Fin 1, test_loss_c = [[Fin 1, Fin 2]],
     test_dloss_c = [[Fin 0, Fin 5]]\<rparr>"

text \<open>Both running sums are bound and hold one row of two entries.\<close>

definition two_wide :: "loopvars \<Rightarrow> bool" where
  "two_wide lv = (\<exists>c d. component_loss lv = Some c \<and> shape c = [2]
                     \<and> d_component_loss lv = Some d \<and> shape d = [2])"

text \<open>Inputs for the whole script, an output directory that holds one file, and one that
  holds only the log.\<close>

definition demo_inputs :: "unit inputs" where
  "demo_inputs = \<lparr>now = ''11/03/2026 12:00:00'', output_width = 4,
     train_loader = (\<lambda>n. [demo_batch, demo_batch]), test_loader = (\<lambda>n. [demo_batch]),
     initial_trainer = demo_trainer, do_all_plots = (\<lambda>fs. fs)\<rparr>"

definition occupied_files :: filesystem where
  "occupied_files = [([''fix_plot''], Dir), ([''fix_plot'', ''old_run.txt''], File (Other ''x''))]"

definition fresh_files :: filesystem where
  "fresh_files = [([''fix_plot''], Dir), ([''fix_plot'', ''log.txt''], File (Text []))]"

section \<open>Properties\<close>

subsection \<open>Species count\<close>






subsection \<open>Split sizes\<close>

lemma pow2_powi: "pow2 k = 2 powi k"
  by (simp add: pow2_def power_int_def power_one_over inverse_eq_divide)

lemma pow2_pos: "0 < pow2 k"
  by (simp add: pow2_def)

lemma pow2_add: "pow2 (j + k) = pow2 j * pow2 k"
  by (simp add: pow2_powi power_int_add)

lemma pow2_nat: "pow2 (int n) = 2 ^ n"
  by (simp add: pow2_def)

lemma pow2_mono: "j \<le> k \<Longrightarrow> pow2 j \<le> pow2 k"
  by (simp add: pow2_powi power_int_increasing)

lemma round_half_even_lower: "of_int L \<le> x \<Longrightarrow> L \<le> round_half_even x"
proof -
  assume "of_int L \<le> x"
  then have "L \<le> \<lfloor>x\<rfloor>" by (simp add: le_floor_iff)
  then show ?thesis by (simp add: round_half_even_def Let_def)
qed

lemma round_half_even_upper:
  assumes "x < of_int M - 1 / 2"
  shows "round_half_even x \<le> M - 1"
proof -
  have f: "\<lfloor>x\<rfloor> \<le> M - 1"
  proof -
    have "x < of_int M" using assms by simp
    then have "\<lfloor>x\<rfloor> < M" by (simp add: floor_less_iff)
    then show ?thesis by simp
  qed
  show ?thesis
  proof (cases "\<lfloor>x\<rfloor> = M - 1")
    case True
    then have "x - of_int \<lfloor>x\<rfloor> < 1 / 2" using assms by simp
    then show ?thesis using True by (simp add: round_half_even_def Let_def)
  next
    case False
    with f have "\<lfloor>x\<rfloor> + 1 \<le> M - 1" by simp
    then show ?thesis by (simp add: round_half_even_def Let_def)
  qed
qed

lemma quotient_exponent_le:
  assumes "0 < a" and "0 < b"
  shows "pow2 (quotient_exponent a b) * of_int b \<le> of_int a"
proof (cases "pow2 (bitlen a - bitlen b) * of_int b \<le> (of_int a :: real)")
  case True
  then show ?thesis by (simp add: quotient_exponent_def Let_def)
next
  case False
  from bitlen_bounds [OF assms(1)] have la: "2 ^ nat (bitlen a - 1) \<le> a" by simp
  from bitlen_bounds [OF assms(2)] have lb: "b < 2 ^ nat (bitlen b)" by simp
  have pa: "1 \<le> bitlen a" using assms(1) bitlen_eq_zero_iff [of a] bitlen_nonneg [of a]
    by linarith
  have "pow2 (bitlen a - bitlen b - 1) * of_int b
      \<le> pow2 (bitlen a - bitlen b - 1) * 2 ^ nat (bitlen b)"
  proof -
    have "real_of_int b \<le> real_of_int (2 ^ nat (bitlen b))" using lb by linarith
    then have "real_of_int b \<le> 2 ^ nat (bitlen b)" by simp
    then show ?thesis using pow2_pos [of "bitlen a - bitlen b - 1"]
      by (simp add: mult_left_mono)
  qed
  also have "\<dots> = pow2 (bitlen a - bitlen b - 1) * pow2 (bitlen b)"
    using bitlen_nonneg [of b] by (simp add: pow2_def)
  also have "\<dots> = pow2 (bitlen a - 1)"
    by (simp add: pow2_add [symmetric])
  also have "\<dots> = 2 ^ nat (bitlen a - 1)" using pa by (simp add: pow2_def)
  also have "\<dots> \<le> of_int a"
  proof -
    have "real_of_int (2 ^ nat (bitlen a - 1)) \<le> real_of_int a" using la by linarith
    then show ?thesis by simp
  qed
  finally show ?thesis using False by (simp add: quotient_exponent_def Let_def)
qed

lemma quotient_exponent_less:
  assumes "0 < a" and "0 < b" and "real_of_int a < 2 ^ n * real_of_int b"
  shows "quotient_exponent a b < int n"
proof (rule ccontr)
  assume "\<not> quotient_exponent a b < int n"
  then have "int n \<le> quotient_exponent a b" by simp
  from pow2_mono [OF this] have "2 ^ n \<le> pow2 (quotient_exponent a b)"
    by (simp add: pow2_nat)
  then have "2 ^ n * real_of_int b \<le> pow2 (quotient_exponent a b) * real_of_int b"
    using assms(2) by (simp add: mult_right_mono)
  with quotient_exponent_le [OF assms(1,2)] assms(3) show False by linarith
qed

text \<open>Below \<open>2 ^ 47\<close> the rounded quotient by 100 has the integer part of the exact one.\<close>

lemma long_true_divide_100:
  assumes "0 \<le> a" and "a < 100 * 2 ^ 47"
  shows "\<exists>v. long_true_divide a 100 = Inr v \<and> 0 \<le> v \<and> \<lfloor>v\<rfloor> = a div 100"
proof (cases "a = 0")
  case True
  then show ?thesis by (simp add: long_true_divide_def)
next
  case False
  with assms(1) have pos: "0 < a" by simp
  define e where "e = max (quotient_exponent a 100) (- 1022)"
  define k where "k = nat (52 - e)"
  define m where "m = a div 100"
  have "real_of_int a < 2 ^ 47 * real_of_int 100"
  proof -
    have "real_of_int a < real_of_int (100 * 2 ^ 47)" using assms(2) by linarith
    then show ?thesis by simp
  qed
  from quotient_exponent_less [OF pos _ this] have "quotient_exponent a 100 < 47" by simp
  then have e: "e \<le> 46" by (simp add: e_def)
  then have k: "6 \<le> k" and ek: "e - 52 = - int k" by (simp_all add: k_def)
  have ulp: "pow2 (e - 52) = 1 / 2 ^ k" using k by (simp add: ek pow2_def)
  have k64: "(64::real) \<le> 2 ^ k"
  proof -
    have "(2::real) ^ 6 \<le> 2 ^ k" using k by (intro power_increasing) simp_all
    then show ?thesis by simp
  qed
  define x where "x = real_of_int a / 100 / (1 / 2 ^ k)"
  have x: "x = real_of_int a / 100 * 2 ^ k" by (simp add: x_def)
  have am: "a = 100 * m + a mod 100" by (simp add: m_def)
  have r: "0 \<le> a mod 100" "a mod 100 \<le> 99" by simp_all
  have lo: "real_of_int m \<le> real_of_int a / 100"
  proof -
    have "100 * m \<le> a" using am r(1) by linarith
    then have "real_of_int (100 * m) \<le> real_of_int a" by linarith
    then show ?thesis by simp
  qed
  have hi: "real_of_int a / 100 \<le> real_of_int m + 99 / 100"
  proof -
    have "a \<le> 100 * m + 99" using am r(2) by linarith
    then have "real_of_int a \<le> real_of_int (100 * m + 99)" by linarith
    then show ?thesis by simp
  qed
  have L: "real_of_int (m * 2 ^ k) \<le> x"
    using lo by (simp add: x mult_right_mono)
  have M: "x < real_of_int ((m + 1) * 2 ^ k) - 1 / 2"
  proof -
    have "x \<le> (real_of_int m + 99 / 100) * 2 ^ k"
      using hi by (simp add: x mult_right_mono)
    also have "\<dots> = real_of_int ((m + 1) * 2 ^ k) - 2 ^ k / 100"
      by (simp add: algebra_simps)
    also have "\<dots> < real_of_int ((m + 1) * 2 ^ k) - 1 / 2"
      using k64 by simp
    finally show ?thesis .
  qed
  define rr where "rr = round_half_even x"
  have r1: "m * 2 ^ k \<le> rr" unfolding rr_def by (rule round_half_even_lower [OF L])
  have r2: "rr \<le> (m + 1) * 2 ^ k - 1" unfolding rr_def by (rule round_half_even_upper [OF M])
  define v where "v = real_of_int rr * (1 / 2 ^ k)"
  have v: "v = real_of_int rr / 2 ^ k" by (simp add: v_def)
  have v1: "real_of_int m \<le> v"
  proof -
    have "real_of_int (m * 2 ^ k) \<le> real_of_int rr" using r1 by linarith
    then have "real_of_int m * 2 ^ k \<le> real_of_int rr" by simp
    then show ?thesis by (simp add: v pos_le_divide_eq)
  qed
  have v2: "v < real_of_int m + 1"
  proof -
    have "real_of_int rr \<le> real_of_int ((m + 1) * 2 ^ k - 1)" using r2 by linarith
    then have "real_of_int rr < (real_of_int m + 1) * 2 ^ k" by simp
    then show ?thesis by (simp add: v pos_divide_less_eq)
  qed
  have m0: "0 \<le> m" using assms(1) by (simp add: m_def pos_imp_zdiv_nonneg_iff)
  have m47: "m \<le> 2 ^ 47"
  proof -
    have "a div 100 \<le> (100 * 2 ^ 47) div 100" using assms(2) by (intro zdiv_mono1) simp_all
    then show ?thesis by (simp add: m_def)
  qed
  have fl: "\<lfloor>v\<rfloor> = m" using v1 v2 by (simp add: floor_unique)
  have nov: "\<not> pow2 1024 \<le> v"
  proof -
    have "v < real_of_int (2 ^ 47) + 1" using v2 m47 by linarith
    also have "\<dots> < 2 ^ 1024" by simp
    finally show ?thesis by (simp add: pow2_def)
  qed
  have "long_true_divide a 100 = (if pow2 1024 \<le> v then Inl OverflowError else Inr v)"
    using False pos
    by (simp add: long_true_divide_def Let_def e_def [symmetric] ulp v_def rr_def x_def)
  with nov have "long_true_divide a 100 = Inr v" by simp
  moreover have "0 \<le> v" using v1 m0 by linarith
  ultimately show ?thesis using fl by (simp add: m_def)
qed

text \<open>
  C6 (as stated, refuted): for every dataset size \<open>N \<ge> 1\<close> and every test percentage
  \<open>0 < percent < 100\<close>, \<open>Num_test = floor(N * percent / 100)\<close>. At
  \<open>N = 11258999068426249\<close> and \<open>percent = 10\<close> the exact quotient is
  \<open>1125899906842624.9\<close>; floats of that size are a quarter apart, the quotient is rounded
  to \<open>1125899906842625.0\<close>, and \<open>int\<close> returns one more than the floor.
\<close>

theorem split_sizes_counterexample:
  "(1::int) \<le> 11258999068426249 \<and> (0::int) < 10 \<and> (10::int) < 100
   \<and> Num_test 11258999068426249 10 = Inr 1125899906842625
   \<and> \<lfloor>real_of_int 11258999068426249 * real_of_int 10 / 100\<rfloor> = (1125899906842624::int)
   \<and> Num_test 11258999068426249 10
       \<noteq> Inr \<lfloor>real_of_int 11258999068426249 * real_of_int 10 / 100\<rfloor>"
  by (simp add: Num_test_def long_true_divide_def quotient_exponent_def round_half_even_def
      compute_bitlen pow2_def py_int_def Let_def)

text \<open>
  C6 (amended): for every dataset size \<open>N \<ge> 1\<close> and every test percentage
  \<open>0 < percent < 100\<close> with \<open>N * percent / 100 < 2 ^ 47\<close>, line 119 returns
  \<open>Num_test = floor(N * percent / 100)\<close>, and \<open>Num_test + Num_train = N\<close>.
\<close>

theorem split_sizes_below_2_47:
  assumes "1 \<le> N" and "0 < percent" and "percent < 100"
    and "real_of_int N * real_of_int percent / 100 < 2 ^ 47"
  shows "Num_test N percent = Inr \<lfloor>real_of_int N * real_of_int percent / 100\<rfloor>
     \<and> (\<exists>t r. Num_test N percent = Inr t \<and> Num_train N percent = Inr r \<and> t + r = N)"
proof -
  have a0: "0 \<le> N * percent" using assms(1,2) by simp
  have "real_of_int (N * percent) < real_of_int (100 * 2 ^ 47)" using assms(4) by simp
  then have a1: "N * percent < 100 * 2 ^ 47" by linarith
  from long_true_divide_100 [OF a0 a1] obtain v where
    v: "long_true_divide (N * percent) 100 = Inr v" "0 \<le> v" "\<lfloor>v\<rfloor> = N * percent div 100"
    by blast
  have "\<lfloor>real_of_int N * real_of_int percent / 100\<rfloor> = N * percent div 100"
  proof -
    have "\<lfloor>real_of_int (N * percent) / real_of_int 100\<rfloor> = N * percent div 100"
      by (rule floor_divide_of_int_eq)
    then show ?thesis by simp
  qed
  then have "Num_test N percent = Inr \<lfloor>real_of_int N * real_of_int percent / 100\<rfloor>"
    using v by (simp add: Num_test_def py_int_def)
  then show ?thesis by (simp add: Num_train_def)
qed

theorem split_sizes_below_2_47_witness:
  "(1::int) \<le> 25 \<and> (0::int) < 10 \<and> (10::int) < 100
   \<and> real_of_int 25 * real_of_int 10 / 100 < 2 ^ 47
   \<and> Num_test 25 10 = Inr 2 \<and> Num_train 25 10 = Inr 23"
proof -
  have h: "(1::int) \<le> 25" "(0::int) < 10" "(10::int) < 100"
    "real_of_int 25 * real_of_int 10 / 100 < 2 ^ 47" by simp_all
  from split_sizes_below_2_47 [OF h] have "Num_test 25 10 = Inr 2" by simp
  then show ?thesis by (simp add: Num_train_def)
qed

text \<open>
  The bound cannot be raised: at \<open>N = 100 * 2 ^ 47 + 99\<close> and \<open>percent = 1\<close> the quotient
  \<open>2 ^ 47 + 0.99\<close> lies where floats are \<open>1/32\<close> apart and is rounded to \<open>2 ^ 47 + 1\<close>.
\<close>

lemma split_sizes_bound_is_sharp:
  "Num_test 14073748835532899 1 = Inr 140737488355329
   \<and> \<lfloor>real_of_int 14073748835532899 * real_of_int 1 / 100\<rfloor> = (140737488355328::int)"
  by (simp add: Num_test_def long_true_divide_def quotient_exponent_def round_half_even_def
      compute_bitlen pow2_def py_int_def Let_def)

subsection \<open>The differentiator\<close>

lemma fadd_zero_left: "fadd (Fin 0) x = x"
  by (cases x) simp_all

lemma shape_zeros_like: "shape (zeros_like m) = shape m"
  by (simp add: shape_def zeros_like_def comp_def)

lemma row_add_zeros: "length r = length g \<Longrightarrow> map2 fadd (map (\<lambda>_. Fin 0) r) g = g"
  by (induction r g rule: list_induct2) (simp_all add: fadd_zero_left)

lemma madd_zeros_like: "shape z = shape g \<Longrightarrow> madd (zeros_like z) g = g"
proof (induction z arbitrary: g)
  case Nil
  then show ?case by (simp add: madd_def zeros_like_def shape_def)
next
  case (Cons r z)
  then obtain gr g' where g: "g = gr # g'" by (cases g) (auto simp: shape_def)
  with Cons.prems have "length r = length gr" "shape z = shape g'" by (simp_all add: shape_def)
  with Cons.IH [of g'] show ?case
    by (simp add: g madd_def zeros_like_def row_add_zeros)
qed

lemma tvalue_param_leaves: "map tvalue (param_leaves k ps) = ps"
  by (induction ps arbitrary: k) simp_all

lemma backward_args_param_leaves_Data:
  "backward_args env f vals i (param_leaves k ps) g st Data = st Data"
  by (induction ps arbitrary: k i st) (simp_all add: accumulate_def)

lemma model_unfold:
  "model env ps X = Op Network (Leaf Data X # param_leaves 0 ps) (forward env (X # ps))"
  by (simp add: model_def apply_op_def tvalue_param_leaves)

lemma tvalue_model: "tvalue (model env ps X) = forward env (X # ps)"
  by (simp add: model_unfold)

lemma backward_select_Data:
  "backward env (apply_op env (Select n) [model env ps X]) seed st Data =
     Some (case st Data of
             None \<Rightarrow> vjp env Network (X # ps) 0 (select_vjp n (forward env (X # ps)) seed)
           | Some old \<Rightarrow>
               madd old (vjp env Network (X # ps) 0 (select_vjp n (forward env (X # ps)) seed)))"
  by (simp add: apply_op_def model_unfold tvalue_param_leaves
      backward_args_param_leaves_Data accumulate_def)

lemma column_ok:
  "list_all (\<lambda>r. K \<le> length r) m \<Longrightarrow> n < K \<Longrightarrow> column m n = Inr (map (\<lambda>r. r ! n) m)"
  by (auto simp: column_def list_all_iff)

lemma list_all_length_shape:
  "shape a = shape b \<Longrightarrow> list_all (\<lambda>r. P (length r)) a = list_all (\<lambda>r. P (length r)) b"
proof -
  assume "shape a = shape b"
  then have "list_all P (map length a) = list_all P (map length b)" by (simp add: shape_def)
  then show ?thesis by (simp add: list_all_iff)
qed

lemma shape_length: "shape a = shape b \<Longrightarrow> length a = length b"
  unfolding shape_def by (rule map_eq_imp_length_eq)

lemma zero_data_grad_alive: "graph_alive (zero_data_grad ag) = graph_alive ag"
  by (simp add: zero_data_grad_def split: option.splits)

lemma zero_data_grad_Data:
  "grad_of (zero_data_grad ag) Data = map_option zeros_like (grad_of ag Data)"
  by (simp add: zero_data_grad_def split: option.splits)

lemma select_requires_grad:
  "apply_op env (Select n) [model env ps X] =
     Op (Select n) [model env ps X] (op_value env (Select n) [forward env (X # ps)])"
  by (simp add: apply_op_def model_unfold)

lemma diff_step_ok:
  assumes pv: "list_all (\<lambda>r. K \<le> length r) (forward env (X # ps))" and n: "n < K"
    and len: "length (forward env (X # ps)) = length X"
    and X0: "list_all (\<lambda>r. 0 < length r) X"
    and sh: "shape (channel_grad env ps X n) = shape X"
    and alive: "graph_alive ag"
    and g0: "grad_of ag Data = None \<or> (\<exists>z. grad_of ag Data = Some z \<and> shape z = shape X)"
    and dsh: "shape dXdt = shape (forward env (X # ps))"
  shows "\<exists>ag'. diff_step env (model env ps X) n (dXdt, ag) =
            Inr (map2 (\<lambda>r x. r[n := x]) dXdt (map (\<lambda>r. r ! 0) (channel_grad env ps X n)), ag')
          \<and> graph_alive ag' \<and> grad_of ag' Data = Some (zeros_like (channel_grad env ps X n))"
proof -
  let ?pv = "forward env (X # ps)"
  let ?G = "channel_grad env ps X n"
  let ?seed = "ones_like [map (\<lambda>r. r ! n) ?pv]"
  have col: "column (tvalue (model env ps X)) n = Inr (map (\<lambda>r. r ! n) ?pv)"
    using column_ok [OF pv n] by (simp add: tvalue_model)
  define ag2 where "ag2 = (zero_data_grad ag)
     \<lparr>grad_of := backward env (apply_op env (Select n) [model env ps X]) ?seed
        (grad_of (zero_data_grad ag)), graph_alive := True\<rparr>"
  have bw: "torch_backward env (apply_op env (Select n) [model env ps X]) ?seed True
              (zero_data_grad ag) = Inr ag2"
    using alive
    by (simp add: torch_backward_def select_requires_grad zero_data_grad_alive ag2_def)
  have G: "vjp env Network (X # ps) 0 (select_vjp n ?pv ?seed) = ?G"
    by (simp add: channel_grad_def Let_def)
  have gD: "grad_of ag2 Data = Some ?G"
  proof -
    from g0 show ?thesis
    proof
      assume "grad_of ag Data = None"
      then show ?thesis
        by (simp add: ag2_def backward_select_Data zero_data_grad_Data G)
    next
      assume "\<exists>z. grad_of ag Data = Some z \<and> shape z = shape X"
      then obtain z where z: "grad_of ag Data = Some z" "shape z = shape X" by blast
      then have "madd (zeros_like z) ?G = ?G" using sh by (simp add: madd_zeros_like)
      then show ?thesis
        using z by (simp add: ag2_def backward_select_Data zero_data_grad_Data G)
    qed
  qed
  have c0: "column ?G 0 = Inr (map (\<lambda>r. r ! 0) ?G)"
    using X0 list_all_length_shape [OF sh, of "\<lambda>k. 0 < k"] by (simp add: column_def)
  have "list_all (\<lambda>r. n < length r) ?pv"
    using pv n by (auto simp: list_all_iff)
  then have dn: "list_all (\<lambda>r. n < length r) dXdt"
    using list_all_length_shape [OF dsh, of "\<lambda>k. n < k"] by simp
  have "length (map (\<lambda>r. r ! 0) ?G) = length dXdt"
    using shape_length [OF sh] shape_length [OF dsh] len by simp
  then have sc: "set_column dXdt n (map (\<lambda>r. r ! 0) ?G) =
      Inr (map2 (\<lambda>r x. r[n := x]) dXdt (map (\<lambda>r. r ! 0) ?G))"
    using dn by (simp add: set_column_def)
  have "diff_step env (model env ps X) n (dXdt, ag) =
      Inr (map2 (\<lambda>r x. r[n := x]) dXdt (map (\<lambda>r. r ! 0) ?G), zero_data_grad ag2)"
    by (simp add: col bw gD c0 sc)
  moreover have "graph_alive (zero_data_grad ag2)"
    by (simp add: zero_data_grad_alive ag2_def)
  moreover have "grad_of (zero_data_grad ag2) Data = Some (zeros_like ?G)"
    by (simp add: zero_data_grad_Data gD)
  ultimately show ?thesis by blast
qed

lemma zeros_like_shape: "zeros_like m = map (\<lambda>k. replicate k (Fin 0)) (shape m)"
  by (simp add: zeros_like_def shape_def map_replicate_const)

lemma zeros_like_cong: "shape a = shape b \<Longrightarrow> zeros_like a = zeros_like b"
  by (simp add: zeros_like_shape)

lemma shape_write_col: "length G = length d \<Longrightarrow> shape (write_col d n G) = shape d"
  unfolding shape_def write_col_def
  by (rule nth_equalityI) simp_all

lemma column_write_col:
  assumes "length G = length d" and "list_all (\<lambda>r. K \<le> length r) d" and "m < K" and "n < K"
  shows "column (write_col d n G) m =
           (if m = n then Inr (map (\<lambda>r. r ! 0) G) else column d m)"
proof -
  have sh: "shape (write_col d n G) = shape d" using assms(1) by (rule shape_write_col)
  have "list_all (\<lambda>r. K \<le> length r) (write_col d n G)"
    using list_all_length_shape [OF sh, of "\<lambda>k. K \<le> k"] assms(2) by simp
  then have c: "column (write_col d n G) m = Inr (map (\<lambda>r. r ! m) (write_col d n G))"
    using assms(3) by (rule column_ok)
  have rows: "\<And>i. i < length d \<Longrightarrow> n < length (d ! i) \<and> m < length (d ! i)"
    using assms(2,3,4) by (auto simp: list_all_length)
  have "map (\<lambda>r. r ! m) (write_col d n G) =
          (if m = n then map (\<lambda>r. r ! 0) G else map (\<lambda>r. r ! m) d)"
    unfolding write_col_def using assms(1) rows
    by (auto intro!: nth_equalityI)
  then show ?thesis using c column_ok [OF assms(2,3)] by simp
qed

lemma diff_loop_ok:
  assumes pv: "list_all (\<lambda>r. K \<le> length r) (forward env (X # ps))"
    and len: "length (forward env (X # ps)) = length X"
    and X0: "list_all (\<lambda>r. 0 < length r) X"
  shows "(\<forall>n\<in>set ns. n < K \<and> shape (channel_grad env ps X n) = shape X) \<Longrightarrow>
     graph_alive ag \<Longrightarrow>
     grad_of ag Data = None \<or> (\<exists>z. grad_of ag Data = Some z \<and> shape z = shape X) \<Longrightarrow>
     shape dXdt = shape (forward env (X # ps)) \<Longrightarrow>
     \<exists>dXdt' ag'. diff_loop env (model env ps X) ns (dXdt, ag) = Inr (dXdt', ag')
        \<and> shape dXdt' = shape dXdt \<and> graph_alive ag'
        \<and> (ns \<noteq> [] \<longrightarrow> grad_of ag' Data = Some (zeros_like X))
        \<and> (\<forall>m<K. column dXdt' m =
              (if m \<in> set ns then column (channel_grad env ps X m) 0 else column dXdt m))"
proof (induction ns arbitrary: dXdt ag)
  case Nil
  then show ?case by simp
next
  case (Cons n ns)
  let ?G = "channel_grad env ps X n"
  from Cons.prems(1) have n: "n < K" and sh: "shape ?G = shape X" by simp_all
  from diff_step_ok [OF pv n len X0 sh Cons.prems(2,3,4)]
  obtain ag1 where step: "diff_step env (model env ps X) n (dXdt, ag) =
        Inr (write_col dXdt n ?G, ag1)"
      and alive1: "graph_alive ag1"
      and g1: "grad_of ag1 Data = Some (zeros_like ?G)"
    unfolding write_col_def by blast
  have lenG: "length ?G = length dXdt"
    using shape_length [OF sh] shape_length [OF Cons.prems(4)] len by simp
  have sh1: "shape (write_col dXdt n ?G) = shape dXdt"
    using lenG by (rule shape_write_col)
  have z: "zeros_like ?G = zeros_like X" using sh by (rule zeros_like_cong)
  have g1': "grad_of ag1 Data = None \<or> (\<exists>z. grad_of ag1 Data = Some z \<and> shape z = shape X)"
    using g1 sh by (simp add: shape_zeros_like)
  have rest: "\<forall>n\<in>set ns. n < K \<and> shape (channel_grad env ps X n) = shape X"
    using Cons.prems(1) by simp
  from Cons.IH [OF rest alive1 g1', of "write_col dXdt n ?G"] sh1 Cons.prems(4)
  obtain dXdt' ag' where
      loop: "diff_loop env (model env ps X) ns (write_col dXdt n ?G, ag1) = Inr (dXdt', ag')"
      and sh': "shape dXdt' = shape (write_col dXdt n ?G)"
      and alive': "graph_alive ag'"
      and gz: "ns \<noteq> [] \<longrightarrow> grad_of ag' Data = Some (zeros_like X)"
      and cols: "\<forall>m<K. column dXdt' m =
          (if m \<in> set ns then column (channel_grad env ps X m) 0
           else column (write_col dXdt n ?G) m)"
    by auto
  have dK: "list_all (\<lambda>r. K \<le> length r) dXdt"
    using list_all_length_shape [OF Cons.prems(4), of "\<lambda>k. K \<le> k"] pv by simp
  have c0: "column ?G 0 = Inr (map (\<lambda>r. r ! 0) ?G)"
    using X0 list_all_length_shape [OF sh, of "\<lambda>k. 0 < k"] by (simp add: column_def)
  have gfin: "grad_of ag' Data = Some (zeros_like X)"
  proof (cases ns)
    case Nil
    with loop g1 z show ?thesis by simp
  next
    case (Cons a as)
    with gz show ?thesis by simp
  qed
  have colsfin: "\<forall>m<K. column dXdt' m =
      (if m \<in> set (n # ns) then column (channel_grad env ps X m) 0 else column dXdt m)"
  proof (intro allI impI)
    fix m assume m: "m < K"
    show "column dXdt' m =
      (if m \<in> set (n # ns) then column (channel_grad env ps X m) 0 else column dXdt m)"
      using cols m column_write_col [OF lenG dK m n] c0 by auto
  qed
  show ?case
    using step loop sh' sh1 alive' gfin colsfin by simp
qed

lemma forward_identity_net: "forward (identity_net K env) (X # ps) = slice_to K X"
  by (simp add: identity_net_def)

lemma identity_row:
  "K \<le> length r \<Longrightarrow>
     (map (\<lambda>_. Fin 0) (take K r))[n := Fin 1] @ map (\<lambda>_. Fin 0) (drop K r) =
     (replicate K (Fin 0))[n := Fin 1] @ replicate (length r - K) (Fin 0)"
  by (simp add: map_replicate_const min_absorb2)

lemma identity_channel_grad:
  "list_all (\<lambda>r. K \<le> length r) X \<Longrightarrow>
   channel_grad (identity_net K env) ps X n =
     map (\<lambda>r. (replicate K (Fin 0))[n := Fin 1] @ replicate (length r - K) (Fin 0)) X"
  unfolding channel_grad_def Let_def identity_net_def select_vjp_def slice_to_def ones_like_def
  by (induction X) (simp_all add: identity_row)

lemma identity_channel_grad_shape:
  assumes "list_all (\<lambda>r. K \<le> length r) X"
  shows "shape (channel_grad (identity_net K env) ps X n) = shape X"
  using assms
  by (simp add: identity_channel_grad [OF assms] shape_def list_all_iff)

lemma identity_channel_grad_column:
  assumes "list_all (\<lambda>r. K \<le> length r) X" and "n < K"
  shows "column (channel_grad (identity_net K env) ps X n) 0 =
           Inr (replicate (length X) (if n = 0 then Fin 1 else Fin 0))"
proof -
  define c where "c = (if n = 0 then Fin 1 else Fin 0)"
  let ?f = "\<lambda>r::pyfloat list.
     (replicate K (Fin 0))[n := Fin 1] @ replicate (length r - K) (Fin 0)"
  have K: "0 < K" using assms(2) by simp
  then have el: "\<And>r. ?f r ! 0 = c"
    by (simp add: c_def nth_append nth_list_update)
  have "column (map ?f X) 0 = Inr (map (\<lambda>r. ?f r ! 0) X)"
    using K by (simp add: column_def list_all_iff comp_def)
  also have "map (\<lambda>r. ?f r ! 0) X = replicate (length X) c"
    by (simp only: el map_replicate_const)
  finally show ?thesis
    by (simp only: identity_channel_grad [OF assms(1)] c_def)
qed

lemma differentiator_general:
  assumes pv: "list_all (\<lambda>r. K \<le> length r) (forward e (X # ps))"
      and len: "length (forward e (X # ps)) = length X"
      and X0: "list_all (\<lambda>r. 0 < length r) X"
      and sh: "\<forall>n<K. shape (channel_grad e ps X n) = shape X"
      and alive: "graph_alive ag" and none: "grad_of ag Data = None"
  shows "\<exists>dXdt ag'. differentiator e K (model e ps X) ag = Inr (dXdt, ag')
          \<and> shape dXdt = shape (tvalue (model e ps X))
          \<and> (\<forall>n<K. column dXdt n = column (channel_grad e ps X n) 0)
          \<and> graph_alive ag'
          \<and> (0 < K \<longrightarrow> grad_of ag' Data = Some (zeros_like X))"
proof -
  have a: "\<forall>n\<in>set [0..<K]. n < K \<and> shape (channel_grad e ps X n) = shape X"
    using sh by simp
  have b: "grad_of ag Data = None \<or> (\<exists>z. grad_of ag Data = Some z \<and> shape z = shape X)"
    using none by simp
  have c: "shape (zeros_like (forward e (X # ps))) = shape (forward e (X # ps))"
    by (rule shape_zeros_like)
  from diff_loop_ok [OF pv len X0 a alive b c]
  show ?thesis
    unfolding differentiator_def
    by (auto simp: tvalue_model shape_zeros_like)
qed

text \<open>
  C1: on a fresh input batch the differentiator returns \<open>dXdt\<close> of the prediction's shape
  whose column \<open>n\<close>, for every \<open>n\<close> in \<open>range(nnuc+1)\<close>, is the first input channel's column of
  the gradient of prediction channel \<open>n\<close> seeded with ones: the input gradient is zeroed
  before (not on the first access, where there is none) and after each backward pass, so
  no channel's gradient leaks into the next, and the graph is still alive at the end. For
  the network that is the identity on the first \<open>nnuc+1\<close> input channels, channel 0 of
  \<open>dXdt\<close> is 1 and every other channel is 0.
\<close>

theorem differentiator_time_derivative:
  "(list_all (\<lambda>r. K \<le> length r) (forward env (X # ps))
      \<and> length (forward env (X # ps)) = length X
      \<and> list_all (\<lambda>r. 0 < length r) X
      \<and> (\<forall>n<K. shape (channel_grad env ps X n) = shape X)
      \<and> graph_alive ag \<and> grad_of ag Data = None
    \<longrightarrow> (\<exists>dXdt ag'. differentiator env K (model env ps X) ag = Inr (dXdt, ag')
          \<and> shape dXdt = shape (tvalue (model env ps X))
          \<and> (\<forall>n<K. column dXdt n = column (channel_grad env ps X n) 0)
          \<and> graph_alive ag'
          \<and> (0 < K \<longrightarrow> grad_of ag' Data = Some (zeros_like X))))
   \<and> (grad_of ag Data = None \<longrightarrow> zero_data_grad ag = ag)
   \<and> (0 < K \<and> list_all (\<lambda>r. K \<le> length r) X \<and> graph_alive ag \<and> grad_of ag Data = None
    \<longrightarrow> (\<exists>dXdt ag'.
          differentiator (identity_net K env) K (model (identity_net K env) ps X) ag
            = Inr (dXdt, ag')
          \<and> column dXdt 0 = Inr (replicate (length X) (Fin 1))
          \<and> (\<forall>n. 0 < n \<and> n < K \<longrightarrow> column dXdt n = Inr (replicate (length X) (Fin 0)))))"
proof -
  note general = differentiator_general
  have ident: "\<exists>dXdt ag'.
          differentiator (identity_net K env) K (model (identity_net K env) ps X) ag
            = Inr (dXdt, ag')
          \<and> column dXdt 0 = Inr (replicate (length X) (Fin 1))
          \<and> (\<forall>n. 0 < n \<and> n < K \<longrightarrow> column dXdt n = Inr (replicate (length X) (Fin 0)))"
    if K: "0 < K" and XK: "list_all (\<lambda>r. K \<le> length r) X"
      and alive: "graph_alive ag" and none: "grad_of ag Data = None"
  proof -
    have pv: "list_all (\<lambda>r. K \<le> length r) (forward (identity_net K env) (X # ps))"
      using XK by (simp add: forward_identity_net slice_to_def list_all_iff)
    have len: "length (forward (identity_net K env) (X # ps)) = length X"
      by (simp add: forward_identity_net slice_to_def)
    have X0: "list_all (\<lambda>r. 0 < length r) X"
      using XK K by (auto simp: list_all_iff)
    have sh: "\<forall>n<K. shape (channel_grad (identity_net K env) ps X n) = shape X"
      by (simp add: identity_channel_grad_shape [OF XK])
    from general [OF pv len X0 sh alive none]
    show ?thesis
      using K identity_channel_grad_column [OF XK] by fastforce
  qed
  have skip: "grad_of ag Data = None \<longrightarrow> zero_data_grad ag = ag"
    by (simp add: zero_data_grad_def)
  show ?thesis using general [of K env X ps ag] ident skip by blast
qed

theorem differentiator_time_derivative_witness:
  "(list_all (\<lambda>r. 2 \<le> length r) (forward demo_env (demo_data # []))
      \<and> length (forward demo_env (demo_data # [])) = length demo_data
      \<and> list_all (\<lambda>r. 0 < length r) demo_data
      \<and> shape (channel_grad demo_env [] demo_data 0) = shape demo_data
      \<and> shape (channel_grad demo_env [] demo_data 1) = shape demo_data
      \<and> graph_alive fresh_autograd \<and> grad_of fresh_autograd Data = None)
   \<and> (\<exists>dXdt ag'. differentiator demo_env 2 (model demo_env [] demo_data) fresh_autograd
            = Inr (dXdt, ag')
          \<and> shape dXdt = shape (tvalue (model demo_env [] demo_data))
          \<and> (\<forall>n<2. column dXdt n = column (channel_grad demo_env [] demo_data n) 0)
          \<and> graph_alive ag'
          \<and> ((0::nat) < 2 \<longrightarrow> grad_of ag' Data = Some (zeros_like demo_data)))
   \<and> ((0::nat) < 2 \<and> list_all (\<lambda>r. 2 \<le> length r) demo_data)
   \<and> (\<exists>dXdt ag'.
          differentiator (identity_net 2 demo_env) 2 (model (identity_net 2 demo_env) [] demo_data)
            fresh_autograd = Inr (dXdt, ag')
          \<and> column dXdt 0 = Inr (replicate (length demo_data) (Fin 1))
          \<and> (\<forall>n. 0 < n \<and> n < 2 \<longrightarrow> column dXdt n = Inr (replicate (length demo_data) (Fin 0))))"
proof -
  have XK: "list_all (\<lambda>r. 2 \<le> length r) demo_data"
    by (simp add: demo_data_def)
  have h1: "list_all (\<lambda>r. 2 \<le> length r) (forward demo_env (demo_data # []))"
    "length (forward demo_env (demo_data # [])) = length demo_data"
    "list_all (\<lambda>r. 0 < length r) demo_data"
    by (simp_all add: demo_env_def identity_net_def demo_data_def slice_to_def)
  have h2: "\<forall>n<2. shape (channel_grad demo_env [] demo_data n) = shape demo_data"
    unfolding demo_env_def by (simp add: identity_channel_grad_shape [OF XK])
  have h3: "graph_alive fresh_autograd" "grad_of fresh_autograd Data = None"
    by (simp_all add: fresh_autograd_def)
  show ?thesis
    using differentiator_time_derivative
      [of 2 demo_env demo_data "[]" fresh_autograd] XK h1 h2 h3
    by simp
qed

subsection \<open>The loss composer\<close>

lemma item_of_Inr: "item_of m = Inr x \<longleftrightarrow> m = [[x]]"
  by (auto simp: item_of_def split: list.splits)

lemma item_apply_op: "item (apply_op env f args) = item_of (op_value env f (map tvalue args))"
  by (simp add: item_def apply_op_def Let_def)

lemma tvalue_apply_op: "tvalue (apply_op env f args) = op_value env f (map tvalue args)"
  by (simp add: apply_op_def Let_def)

lemma madd_scalars: "madd [[a]] [[b]] = [[fadd a b]]"
  by (simp add: madd_def)

lemma op_value_relative_update:
  "op_value (env\<lparr>loss_value := (loss_value env)(relative_loss := f)\<rparr>) g vals =
     (if g = LossFn relative_loss then f vals else op_value env g vals)"
  by (cases g) simp_all

lemma apply_op_relative_update:
  "g \<noteq> LossFn relative_loss \<Longrightarrow>
   apply_op (env\<lparr>loss_value := (loss_value env)(relative_loss := f)\<rparr>) g args =
     apply_op env g args"
  by (simp add: apply_op_def op_value_relative_update)

lemma criterion_ignores_relative_loss:
  "criterion (env\<lparr>loss_value := (loss_value env)(relative_loss := f)\<rparr>) K data pred dXdt actual
     = criterion env K data pred dXdt actual"
  by (simp add: criterion_def Let_def apply_op_relative_update split: sum.splits)

lemma criterion_Inr:
  assumes "criterion env K data pred dXdt actual = Inr (loss, arr)"
  shows "\<exists>l1 l2 l3 l5.
        item_of (loss_value env log_loss [tvalue pred, slice_to K (tvalue actual)]) = Inr l1
      \<and> item_of (loss_value env L1Loss [tvalue dXdt, slice_from K (tvalue actual)]) = Inr l2
      \<and> item_of (loss_value env signed_loss_function
                   [tvalue dXdt, slice_from K (tvalue actual)]) = Inr l3
      \<and> item_of (loss_value env loss_mass_fraction [tvalue pred]) = Inr l5
      \<and> item loss = Inr (fadd (fadd (fadd l1 l2) l3) l5)
      \<and> arr = [l1, l2, l3, l5]"
  using assms
  unfolding criterion_def Let_def
  by (auto simp: item_apply_op tvalue_apply_op item_of_Inr madd_scalars
      split: sum.splits)

lemma criterion_succeeds:
  assumes "item_of (loss_value env log_loss [tvalue pred, slice_to K (tvalue actual)]) = Inr l1"
    and "item_of (loss_value env L1Loss [tvalue dXdt, slice_from K (tvalue actual)]) = Inr l2"
    and "item_of (loss_value env signed_loss_function
                   [tvalue dXdt, slice_from K (tvalue actual)]) = Inr l3"
    and "item_of (loss_value env loss_mass_fraction [tvalue pred]) = Inr l5"
  shows "\<exists>loss. criterion env K data pred dXdt actual = Inr (loss, [l1, l2, l3, l5])"
  using assms
  unfolding criterion_def Let_def
  by (simp add: item_apply_op tvalue_apply_op)

lemma train_batch_Inr:
  assumes "train_batch env K (data, targets) tr = Inr (tr', out)"
  shows "\<exists>prediction dXdt ag loss.
        forward_and_differentiate env K tr data = Inr (prediction, dXdt, ag)
      \<and> criterion env K (Leaf Data data) prediction dXdt (Const targets)
          = Inr (loss, array_loss out)
      \<and> item loss = Inr (loss_item out)
      \<and> backprop_and_step env tr loss ag = Inr tr'"
  using assms
  by (auto split: sum.splits prod.splits)

lemma accumulate_other: "l \<noteq> l' \<Longrightarrow> accumulate st l' g l = st l"
  by (simp add: accumulate_def)

lemma backward_frame:
  "l \<notin> leaves t \<Longrightarrow> backward env t g st l = st l"
  "l \<notin> (\<Union>a \<in> set as. leaves a) \<Longrightarrow> backward_args env f vals i as g st l = st l"
  by (induction env t g st and env f vals i as g st rule: backward_backward_args.induct)
     (simp_all add: accumulate_other)

lemma backward_local:
  "st l = st' l \<Longrightarrow> backward env t g st l = backward env t g st' l"
  "st l = st' l \<Longrightarrow> backward_args env f vals i as g st l = backward_args env f vals i as g st' l"
proof (induction env t g st and env f vals i as g st arbitrary: st' and st'
    rule: backward_backward_args.induct)
  case (1 env l' v g st)
  then show ?case by (auto simp: accumulate_def)
next
  case (2 env v g st)
  then show ?case by simp
next
  case (3 env f args v g st)
  then show ?case by simp
next
  case (4 env f vals i g st)
  then show ?case by simp
next
  case (5 env f vals i a as g st)
  have "backward env a (op_vjp env f vals i g) st l = backward env a (op_vjp env f vals i g) st' l"
    using "5.IH"(1) "5.prems" by blast
  then show ?case
    using "5.IH"(2) by simp
qed

lemma requires_grad_model: "requires_grad (model env ps X)"
  by (simp add: model_def apply_op_def Let_def)

lemma apply_op_requires:
  "list_ex requires_grad args \<Longrightarrow>
     apply_op env f args = Op f args (op_value env f (map tvalue args))"
  by (simp add: apply_op_def Let_def)

lemma leaves_apply_op: "leaves (apply_op env f args) \<subseteq> (\<Union>a \<in> set args. leaves a)"
  by (simp add: apply_op_def Let_def)

lemma forward_and_differentiate_Inr:
  assumes "forward_and_differentiate env K tr data = Inr (prediction, dXdt, ag)"
  shows "prediction = model env (params tr) data"
    and "\<exists>v. differentiator env K prediction (new_batch (autograd_of tr)) = Inr (v, ag)
           \<and> dXdt = Leaf DXdt v"
  using assms
  by (auto simp: forward_and_differentiate_def Let_def set_requires_grad_def
      split: sum.splits prod.splits)

lemma torch_backward_Op:
  "t = Op f args w \<Longrightarrow>
   torch_backward env t s retain a =
     (if \<not> graph_alive a then Inl RuntimeError
      else Inr (a\<lparr>grad_of := backward env t s (grad_of a), graph_alive := retain\<rparr>))"
  by (simp add: torch_backward_def)

lemma backward_Add:
  "backward env (Op Add [a, b] v) g st = backward env b g (backward env a g st)"
  by simp

lemma total_reaches_parameters_like_state_and_mass:
  assumes l2: "Param k \<notin> leaves l2" and l3: "Param k \<notin> leaves l3"
    and r1: "requires_grad l1"
  shows "backward env (apply_op env Add [apply_op env Add [apply_op env Add [l1, l2], l3], l5])
            g st (Param k)
         = backward env (apply_op env Add [l1, l5]) g st (Param k)"
proof -
  let ?s1 = "backward env l1 g st"
  let ?s3 = "backward env l3 g (backward env l2 g ?s1)"
  have "?s3 (Param k) = ?s1 (Param k)"
    by (simp add: backward_frame(1) [OF l3] backward_frame(1) [OF l2])
  then have "backward env l5 g ?s3 (Param k) = backward env l5 g ?s1 (Param k)"
    by (rule backward_local(1))
  then show ?thesis
    using r1 by (simp add: apply_op_requires)
qed

lemma dXdt_loss_frame:
  "Param k \<notin> leaves (apply_op env f [Leaf DXdt v, apply_op env f' [Const t]])"
  by (simp add: apply_op_def Let_def)

lemma requires_grad_apply_op_model:
  "requires_grad (apply_op env f (model env ps X # rest))"
  by (simp add: apply_op_def Let_def requires_grad_model)

lemma demo_data_wide: "list_all (\<lambda>r. 2 \<le> length r) demo_data"
  by (simp add: demo_data_def)

lemma demo_loss_value:
  "loss_value demo_env l vals =
     (if l = component_loss_f then [[Fin 1, Fin 2]]
      else if l = component_loss_f_L1 then [[Fin 0, Fin 5]] else [[Fin 1]])"
  by (simp add: demo_env_def identity_net_def)

lemma demo_forward:
  "\<exists>v ag. forward_and_differentiate demo_env 2 tr demo_data
            = Inr (model demo_env (params tr) demo_data, Leaf DXdt v, ag)
         \<and> graph_alive ag"
proof -
  have h1: "list_all (\<lambda>r. 2 \<le> length r) (forward demo_env (demo_data # params tr))"
    "length (forward demo_env (demo_data # params tr)) = length demo_data"
    "list_all (\<lambda>r. 0 < length r) demo_data"
    by (simp_all add: demo_env_def identity_net_def demo_data_def slice_to_def)
  have h2: "\<forall>n<2. shape (channel_grad demo_env (params tr) demo_data n) = shape demo_data"
    unfolding demo_env_def by (simp add: identity_channel_grad_shape [OF demo_data_wide])
  have h3: "graph_alive (new_batch (autograd_of tr))"
    "grad_of (new_batch (autograd_of tr)) Data = None"
    by (simp_all add: new_batch_def)
  from differentiator_general [OF h1 h2 h3]
  show ?thesis
    by (auto simp: forward_and_differentiate_def Let_def set_requires_grad_def)
qed

lemma requires_grad_apply_op_first:
  "requires_grad p \<Longrightarrow> requires_grad (apply_op env f (p # rest))"
  by (simp add: apply_op_def Let_def)

lemma demo_criterion:
  assumes p: "requires_grad p"
  shows "\<exists>t f args. criterion demo_env K d p x a
     = Inr (t, [Fin 1, Fin 1, Fin 1, Fin 1]) \<and> t = Op f args [[Fin 4]]"
proof -
  let ?l1 = "apply_op demo_env (LossFn log_loss) [p, apply_op demo_env (SliceTo K) [a]]"
  let ?l2 = "apply_op demo_env (LossFn L1Loss) [x, apply_op demo_env (SliceFrom K) [a]]"
  let ?l3 = "apply_op demo_env (LossFn signed_loss_function)
               [x, apply_op demo_env (SliceFrom K) [a]]"
  let ?l5 = "apply_op demo_env (LossFn loss_mass_fraction) [p]"
  let ?s3 = "apply_op demo_env Add [apply_op demo_env Add [?l1, ?l2], ?l3]"
  have r: "requires_grad ?s3"
    by (intro requires_grad_apply_op_first p)
  have val: "op_value demo_env Add (map tvalue [?s3, ?l5]) = [[Fin 4]]"
    by (simp add: tvalue_apply_op demo_loss_value madd_scalars)
  have "apply_op demo_env Add [?s3, ?l5] = Op Add [?s3, ?l5] [[Fin 4]]"
    using r apply_op_requires [of "[?s3, ?l5]" demo_env Add] val by simp
  moreover have "criterion demo_env K d p x a
      = Inr (apply_op demo_env Add [?s3, ?l5], [Fin 1, Fin 1, Fin 1, Fin 1])"
    by (simp add: criterion_def Let_def item_apply_op demo_loss_value item_of_def)
  ultimately show ?thesis by simp
qed

lemma demo_train_batch:
  "\<exists>tr'. train_batch demo_env 2 (demo_data, t) tr = Inr (tr', demo_out)
         \<and> params tr' = params tr"
proof -
  from demo_forward [of tr]
  obtain v ag where fd: "forward_and_differentiate demo_env 2 tr demo_data
            = Inr (model demo_env (params tr) demo_data, Leaf DXdt v, ag)"
    and alive: "graph_alive ag"
    by blast
  from demo_criterion [OF requires_grad_model]
  obtain l f args where cr: "criterion demo_env 2 (Leaf Data demo_data)
       (model demo_env (params tr) demo_data) (Leaf DXdt v) (Const t)
     = Inr (l, [Fin 1, Fin 1, Fin 1, Fin 1])" and l: "l = Op f args [[Fin 4]]"
    by blast
  have it: "item l = Inr (Fin 4)" by (simp add: l item_def item_of_def)
  have st: "\<exists>tr'. backprop_and_step demo_env tr l ag = Inr tr' \<and> params tr' = params tr"
    using alive
    by (simp add: backprop_and_step_def Let_def torch_backward_Op [OF l]
        zero_grad_def demo_env_def identity_net_def)
  then obtain tr' where st': "backprop_and_step demo_env tr l ag = Inr tr'"
    and ps: "params tr' = params tr" by blast
  have pl: "item (criterion_plotting demo_env 2 (model demo_env (params tr) demo_data) (Const t))
      = Inr (Fin 1)"
    by (simp add: criterion_plotting_def item_apply_op demo_loss_value item_of_def)
  have cl: "component_losses demo_env 2 (model demo_env (params tr) demo_data) (Leaf DXdt v)
      (Const t) = ([[Fin 1, Fin 2]], [[Fin 0, Fin 5]])"
    by (simp add: component_losses_def tvalue_apply_op demo_loss_value)
  show ?thesis
    using ps by (simp add: fd cr it st' pl cl demo_out_def)
qed

text \<open>
  C2: whenever the loss composer returns, its total is the sum of the state loss, the L1
  derivative-magnitude loss, the derivative-sign loss and the mass-conservation loss (it
  returns whenever these four are scalars); replacing the relative loss by any other
  function changes nothing of the result; and the breakdown is the list of the four Python
  floats, which a training batch stores in its record while it backpropagates the total.
\<close>

theorem criterion_total:
  "(criterion env K data pred dXdt actual = Inr (loss, arr) \<longrightarrow>
      (\<exists>l1 l2 l3 l5.
          item_of (loss_value env log_loss [tvalue pred, slice_to K (tvalue actual)]) = Inr l1
        \<and> item_of (loss_value env L1Loss [tvalue dXdt, slice_from K (tvalue actual)]) = Inr l2
        \<and> item_of (loss_value env signed_loss_function
                     [tvalue dXdt, slice_from K (tvalue actual)]) = Inr l3
        \<and> item_of (loss_value env loss_mass_fraction [tvalue pred]) = Inr l5
        \<and> item loss = Inr (fadd (fadd (fadd l1 l2) l3) l5)
        \<and> arr = [l1, l2, l3, l5]))
   \<and> (item_of (loss_value env log_loss [tvalue pred, slice_to K (tvalue actual)]) = Inr l1
      \<and> item_of (loss_value env L1Loss [tvalue dXdt, slice_from K (tvalue actual)]) = Inr l2
      \<and> item_of (loss_value env signed_loss_function
                   [tvalue dXdt, slice_from K (tvalue actual)]) = Inr l3
      \<and> item_of (loss_value env loss_mass_fraction [tvalue pred]) = Inr l5
      \<longrightarrow> (\<exists>t. criterion env K data pred dXdt actual = Inr (t, [l1, l2, l3, l5])))
   \<and> criterion (env\<lparr>loss_value := (loss_value env)(relative_loss := f)\<rparr>) K data pred dXdt actual
       = criterion env K data pred dXdt actual
   \<and> (train_batch env K (x, targets) tr = Inr (tr', out) \<longrightarrow>
      (\<exists>prediction d ag total.
          forward_and_differentiate env K tr x = Inr (prediction, d, ag)
        \<and> criterion env K (Leaf Data x) prediction d (Const targets)
            = Inr (total, array_loss out)
        \<and> item total = Inr (loss_item out)
        \<and> backprop_and_step env tr total ag = Inr tr'))"
  using criterion_Inr [of env K data pred dXdt actual loss arr]
    criterion_succeeds [of env pred K actual l1 dXdt l2 l3 l5 data]
    criterion_ignores_relative_loss [of env f K data pred dXdt actual]
    train_batch_Inr [of env K x targets tr tr' out]
  by blast

theorem criterion_total_witness:
  "(\<exists>loss. criterion demo_env 2 (Leaf Data demo_data) (model demo_env demo_params demo_data)
        (Leaf DXdt [[Fin 1, Fin 0]]) (Const demo_targets)
       = Inr (loss, [Fin 1, Fin 1, Fin 1, Fin 1])
      \<and> item loss = Inr (Fin 4))
   \<and> (\<exists>tr' prediction d ag total.
        train_batch demo_env 2 (demo_data, demo_targets) demo_trainer = Inr (tr', demo_out)
      \<and> forward_and_differentiate demo_env 2 demo_trainer demo_data = Inr (prediction, d, ag)
      \<and> criterion demo_env 2 (Leaf Data demo_data) prediction d (Const demo_targets)
            = Inr (total, [Fin 1, Fin 1, Fin 1, Fin 1])
      \<and> item total = Inr (Fin 4)
      \<and> backprop_and_step demo_env demo_trainer total ag = Inr tr')"
proof -
  let ?p = "model demo_env demo_params demo_data"
  let ?d = "Leaf DXdt [[Fin 1, Fin 0]]"
  let ?a = "Const demo_targets"
  have v: "item_of (loss_value demo_env log_loss [tvalue ?p, slice_to 2 (tvalue ?a)])
            = Inr (Fin 1)"
    "item_of (loss_value demo_env L1Loss [tvalue ?d, slice_from 2 (tvalue ?a)]) = Inr (Fin 1)"
    "item_of (loss_value demo_env signed_loss_function [tvalue ?d, slice_from 2 (tvalue ?a)])
       = Inr (Fin 1)"
    "item_of (loss_value demo_env loss_mass_fraction [tvalue ?p]) = Inr (Fin 1)"
    by (simp_all add: demo_loss_value item_of_def)
  from criterion_total [where env = demo_env and K = 2 and data = "Leaf Data demo_data"
      and pred = ?p and dXdt = ?d and actual = ?a
      and ?l1.0 = "Fin 1" and ?l2.0 = "Fin 1" and ?l3.0 = "Fin 1" and ?l5.0 = "Fin 1"] v
  obtain t where t: "criterion demo_env 2 (Leaf Data demo_data) ?p ?d ?a
      = Inr (t, [Fin 1, Fin 1, Fin 1, Fin 1])"
    by blast
  from criterion_total [where env = demo_env and K = 2 and data = "Leaf Data demo_data"
      and pred = ?p and dXdt = ?d and actual = ?a and loss = t
      and arr = "[Fin 1, Fin 1, Fin 1, Fin 1]"] t v
  have "item t = Inr (fadd (fadd (fadd (Fin 1) (Fin 1)) (Fin 1)) (Fin 1))"
    by auto
  then have first: "\<exists>loss. criterion demo_env 2 (Leaf Data demo_data) ?p ?d ?a
       = Inr (loss, [Fin 1, Fin 1, Fin 1, Fin 1]) \<and> item loss = Inr (Fin 4)"
    using t by simp
  from demo_train_batch [of demo_targets demo_trainer]
  obtain tr' where tb: "train_batch demo_env 2 (demo_data, demo_targets) demo_trainer
      = Inr (tr', demo_out)"
    by blast
  from criterion_total [where env = demo_env and K = 2 and x = demo_data
      and targets = demo_targets and tr = demo_trainer and tr' = tr' and out = demo_out] tb
  have second: "\<exists>prediction d ag total.
        forward_and_differentiate demo_env 2 demo_trainer demo_data = Inr (prediction, d, ag)
      \<and> criterion demo_env 2 (Leaf Data demo_data) prediction d (Const demo_targets)
            = Inr (total, [Fin 1, Fin 1, Fin 1, Fin 1])
      \<and> item total = Inr (Fin 4)
      \<and> backprop_and_step demo_env demo_trainer total ag = Inr tr'"
    by (simp add: demo_out_def)
  show ?thesis
    using first second tb by blast
qed

subsection \<open>What reaches the parameters\<close>

text \<open>
  C3: in a training batch \<open>dXdt\<close> reaches the loss composer as a leaf of its own, made
  from the values the differentiator read out of \<open>data.grad\<close>: its graph reaches no model
  parameter. Backpropagating either derivative sub-loss leaves every parameter's gradient
  as it was, so the total loss gives every parameter the gradient that the state loss plus
  the mass-conservation loss alone give it, and \<open>optimizer.step()\<close> computes the same
  parameters and optimizer state from either.
\<close>

theorem derivative_losses_detached:
  assumes fd: "forward_and_differentiate env K tr data = Inr (prediction, dXdt, ag)"
    and cr: "criterion env K (Leaf Data data) prediction dXdt (Const targets) = Inr (loss, arr)"
  shows "(\<exists>v. differentiator env K prediction (new_batch (autograd_of tr)) = Inr (v, ag)
              \<and> dXdt = Leaf DXdt v)
    \<and> leaves dXdt = {DXdt}
    \<and> (\<forall>k g st. backward env (apply_op env (LossFn L1Loss)
                      [dXdt, apply_op env (SliceFrom K) [Const targets]]) g st (Param k)
                  = st (Param k))
    \<and> (\<forall>k g st. backward env (apply_op env (LossFn signed_loss_function)
                      [dXdt, apply_op env (SliceFrom K) [Const targets]]) g st (Param k)
                  = st (Param k))
    \<and> (\<forall>k g st. backward env loss g st (Param k)
                  = backward env (state_and_mass_loss env K prediction (Const targets)) g st
                      (Param k))
    \<and> map_sum id (\<lambda>t. (params t, opt_state t, param_grads (length (params tr)) (autograd_of t)))
         (backprop_and_step env tr loss ag)
      = map_sum id (\<lambda>t. (params t, opt_state t, param_grads (length (params tr)) (autograd_of t)))
         (backprop_and_step env tr (state_and_mass_loss env K prediction (Const targets)) ag)"
proof -
  let ?T = "Const targets"
  let ?l1 = "apply_op env (LossFn log_loss) [prediction, apply_op env (SliceTo K) [?T]]"
  let ?l2 = "apply_op env (LossFn L1Loss) [dXdt, apply_op env (SliceFrom K) [?T]]"
  let ?l3 = "apply_op env (LossFn signed_loss_function)
               [dXdt, apply_op env (SliceFrom K) [?T]]"
  let ?l5 = "apply_op env (LossFn loss_mass_fraction) [prediction]"
  let ?sml = "state_and_mass_loss env K prediction ?T"
  from forward_and_differentiate_Inr [OF fd]
  obtain v where pred: "prediction = model env (params tr) data"
    and diff: "differentiator env K prediction (new_batch (autograd_of tr)) = Inr (v, ag)"
    and dX: "dXdt = Leaf DXdt v"
    by blast
  from criterion_Inr [OF cr]
  obtain i1 i2 i3 i5 where
    v1: "item_of (loss_value env log_loss [tvalue prediction, slice_to K (tvalue ?T)]) = Inr i1"
    and v5: "item_of (loss_value env loss_mass_fraction [tvalue prediction]) = Inr i5"
    and tot: "item loss = Inr (fadd (fadd (fadd i1 i2) i3) i5)"
    by blast
  have loss: "loss = apply_op env Add [apply_op env Add [apply_op env Add [?l1, ?l2], ?l3], ?l5]"
    using cr unfolding criterion_def Let_def by (auto split: sum.splits)
  have sml: "?sml = apply_op env Add [?l1, ?l5]"
    by (simp add: state_and_mass_loss_def)
  have r1: "requires_grad ?l1"
    unfolding pred by (rule requires_grad_apply_op_model)
  have f2: "\<And>k. Param k \<notin> leaves ?l2" unfolding dX by (rule dXdt_loss_frame)
  have f3: "\<And>k. Param k \<notin> leaves ?l3" unfolding dX by (rule dXdt_loss_frame)
  have same: "\<And>k g st. backward env loss g st (Param k) = backward env ?sml g st (Param k)"
    unfolding loss sml
    by (rule total_reaches_parameters_like_state_and_mass [OF f2 f3 r1])
  have seed: "ones_like (tvalue loss) = [[Fin 1]]" "ones_like (tvalue ?sml) = [[Fin 1]]"
    using tot v1 v5
    by (simp_all add: item_def item_of_Inr sml tvalue_apply_op madd_scalars ones_like_def)
  have pg: "param_grads n (a\<lparr>grad_of := backward env loss g st, graph_alive := b\<rparr>)
          = param_grads n (a\<lparr>grad_of := backward env ?sml g st, graph_alive := b\<rparr>)"
    for n a g st b
    by (simp add: param_grads_def same)
  have step: "map_sum id
       (\<lambda>t. (params t, opt_state t, param_grads (length (params tr)) (autograd_of t)))
         (backprop_and_step env tr loss ag)
      = map_sum id
       (\<lambda>t. (params t, opt_state t, param_grads (length (params tr)) (autograd_of t)))
         (backprop_and_step env tr ?sml ag)"
  proof -
    obtain f1 a1 w1 where L: "loss = Op f1 a1 w1"
      using r1 by (simp add: loss apply_op_requires)
    obtain f2 a2 w2 where S: "?sml = Op f2 a2 w2"
      using r1 by (simp add: sml apply_op_requires)
    show ?thesis
      unfolding backprop_and_step_def Let_def seed
        torch_backward_Op [OF L] torch_backward_Op [OF S]
      by (simp add: pg split: prod.splits)
  qed
  have z2: "\<And>k g st. backward env ?l2 g st (Param k) = st (Param k)"
    by (rule backward_frame(1) [OF f2])
  have z3: "\<And>k g st. backward env ?l3 g st (Param k) = st (Param k)"
    by (rule backward_frame(1) [OF f3])
  have lv: "leaves dXdt = {DXdt}" by (simp add: dX)
  show ?thesis
    using diff dX lv z2 z3 same step by blast
qed

theorem derivative_losses_detached_witness:
  "\<exists>prediction dXdt ag loss arr.
      forward_and_differentiate demo_env 2 demo_trainer demo_data = Inr (prediction, dXdt, ag)
    \<and> criterion demo_env 2 (Leaf Data demo_data) prediction dXdt (Const demo_targets)
        = Inr (loss, arr)
    \<and> leaves dXdt = {DXdt}
    \<and> (\<forall>k g st. backward demo_env loss g st (Param k)
          = backward demo_env (state_and_mass_loss demo_env 2 prediction (Const demo_targets))
              g st (Param k))
    \<and> map_sum id (\<lambda>t. (params t, opt_state t,
                         param_grads (length (params demo_trainer)) (autograd_of t)))
         (backprop_and_step demo_env demo_trainer loss ag)
      = map_sum id (\<lambda>t. (params t, opt_state t,
                         param_grads (length (params demo_trainer)) (autograd_of t)))
         (backprop_and_step demo_env demo_trainer
            (state_and_mass_loss demo_env 2 prediction (Const demo_targets)) ag)"
proof -
  from demo_forward [of demo_trainer]
  obtain v ag where fd: "forward_and_differentiate demo_env 2 demo_trainer demo_data
            = Inr (model demo_env (params demo_trainer) demo_data, Leaf DXdt v, ag)"
    by blast
  from demo_criterion [OF requires_grad_model]
  obtain l where cr: "criterion demo_env 2 (Leaf Data demo_data)
       (model demo_env (params demo_trainer) demo_data) (Leaf DXdt v) (Const demo_targets)
     = Inr (l, [Fin 1, Fin 1, Fin 1, Fin 1])"
    by blast
  from derivative_losses_detached [OF fd cr] fd cr
  show ?thesis by blast
qed

subsection \<open>The epoch loop\<close>

lemma accumulate_components_Inr:
  assumes "accumulate_components i c d lv = Inr lv'"
  shows "losses lv' = losses lv" and "plotting_losses lv' = plotting_losses lv"
    and "diff_losses lv' = diff_losses lv" and "batch_idx lv' = batch_idx lv"
    and "i = 0 \<Longrightarrow> component_loss lv' = Some c \<and> d_component_loss lv' = Some d"
    and "0 < i \<Longrightarrow> \<exists>c0 d0 c' d'. component_loss lv = Some c0 \<and> d_component_loss lv = Some d0
            \<and> np_add c0 c = Inr c' \<and> np_add d0 d = Inr d'
            \<and> component_loss lv' = Some c' \<and> d_component_loss lv' = Some d'"
  using assms
  by (auto simp: accumulate_components_def split: if_splits option.splits sum.splits)

lemma train_loop_Inr:
  "train_loop env K i bs (tr, lv) = Inr (tr', lv') \<Longrightarrow>
   \<exists>outs. run_train_batches env K bs tr = Inr (tr', outs)
     \<and> length outs = length bs
     \<and> losses lv' = losses lv @ map loss_item outs
     \<and> plotting_losses lv' = plotting_losses lv @ map loss_plot outs
     \<and> diff_losses lv' = diff_losses lv @ map array_loss outs
     \<and> batch_idx lv' = (if bs = [] then batch_idx lv else Some (i + length bs - 1))
     \<and> (bs = [] \<longrightarrow> component_loss lv' = component_loss lv
                    \<and> d_component_loss lv' = d_component_loss lv)
     \<and> (0 < i \<and> bs \<noteq> [] \<longrightarrow>
          (\<exists>c0 d0 c' d'. component_loss lv = Some c0 \<and> d_component_loss lv = Some d0
            \<and> np_accum c0 (map loss_c outs) = Inr c'
            \<and> np_accum d0 (map dloss_c outs) = Inr d'
            \<and> component_loss lv' = Some c' \<and> d_component_loss lv' = Some d'))"
proof (induction bs arbitrary: i tr lv)
  case Nil
  then show ?case by simp
next
  case (Cons b bs)
  from Cons.prems obtain tr1 out lv1 where
    tb: "train_batch env K b tr = Inr (tr1, out)"
    and ac: "accumulate_components i (loss_c out) (dloss_c out)
             (lv\<lparr>batch_idx := Some i,
                 losses := losses lv @ [loss_item out],
                 diff_losses := diff_losses lv @ [array_loss out],
                 plotting_losses := plotting_losses lv @ [loss_plot out]\<rparr>) = Inr lv1"
    and rest: "train_loop env K (Suc i) bs (tr1, lv1) = Inr (tr', lv')"
    by (auto split: sum.splits prod.splits)
  note f = accumulate_components_Inr [OF ac]
  from Cons.IH [OF rest] obtain outs where
    run: "run_train_batches env K bs tr1 = Inr (tr', outs)"
    and len: "length outs = length bs"
    and l: "losses lv' = losses lv1 @ map loss_item outs"
    and p: "plotting_losses lv' = plotting_losses lv1 @ map loss_plot outs"
    and dl: "diff_losses lv' = diff_losses lv1 @ map array_loss outs"
    and bi: "batch_idx lv' = (if bs = [] then batch_idx lv1 else Some (Suc i + length bs - 1))"
    and cn: "bs = [] \<longrightarrow> component_loss lv' = component_loss lv1
                    \<and> d_component_loss lv' = d_component_loss lv1"
    and cc: "bs \<noteq> [] \<longrightarrow>
          (\<exists>c0 d0 c' d'. component_loss lv1 = Some c0 \<and> d_component_loss lv1 = Some d0
            \<and> np_accum c0 (map loss_c outs) = Inr c'
            \<and> np_accum d0 (map dloss_c outs) = Inr d'
            \<and> component_loss lv' = Some c' \<and> d_component_loss lv' = Some d')"
    by auto
  have run': "run_train_batches env K (b # bs) tr = Inr (tr', out # outs)"
    by (simp add: tb run)
  have lists: "losses lv' = losses lv @ map loss_item (out # outs)"
    "plotting_losses lv' = plotting_losses lv @ map loss_plot (out # outs)"
    "diff_losses lv' = diff_losses lv @ map array_loss (out # outs)"
    using l p dl f(1,2,3) by simp_all
  have idx: "batch_idx lv' = Some (i + length (b # bs) - 1)"
    using bi f(4) by (cases bs) simp_all
  have comp: "0 < i \<longrightarrow>
          (\<exists>c0 d0 c' d'. component_loss lv = Some c0 \<and> d_component_loss lv = Some d0
            \<and> np_accum c0 (map loss_c (out # outs)) = Inr c'
            \<and> np_accum d0 (map dloss_c (out # outs)) = Inr d'
            \<and> component_loss lv' = Some c' \<and> d_component_loss lv' = Some d')"
  proof
    assume i: "0 < i"
    from f(6) [OF i] obtain c0 d0 c1 d1 where
      s: "component_loss lv = Some c0" "d_component_loss lv = Some d0"
        "np_add c0 (loss_c out) = Inr c1" "np_add d0 (dloss_c out) = Inr d1"
        "component_loss lv1 = Some c1" "d_component_loss lv1 = Some d1"
      by auto
    show "\<exists>c0 d0 c' d'. component_loss lv = Some c0 \<and> d_component_loss lv = Some d0
            \<and> np_accum c0 (map loss_c (out # outs)) = Inr c'
            \<and> np_accum d0 (map dloss_c (out # outs)) = Inr d'
            \<and> component_loss lv' = Some c' \<and> d_component_loss lv' = Some d'"
    proof (cases bs)
      case Nil
      then have "outs = []" using len by simp
      then show ?thesis using s cn Nil by simp
    next
      case (Cons b' bs')
      then show ?thesis using s cc by auto
    qed
  qed
  show ?case
    using run' len lists idx comp by simp
qed

lemma train_loop_from_zero:
  assumes "train_loop env K 0 bs (tr, lv) = Inr (tr', lv')" and "bs \<noteq> []"
  shows "\<exists>outs c d. run_train_batches env K bs tr = Inr (tr', outs)
     \<and> length outs = length bs
     \<and> losses lv' = losses lv @ map loss_item outs
     \<and> plotting_losses lv' = plotting_losses lv @ map loss_plot outs
     \<and> diff_losses lv' = diff_losses lv @ map array_loss outs
     \<and> batch_idx lv' = Some (length bs - 1)
     \<and> np_total (map loss_c outs) = Inr c \<and> np_total (map dloss_c outs) = Inr d
     \<and> component_loss lv' = Some c \<and> d_component_loss lv' = Some d"
proof -
  from assms(2) obtain b bs' where bs: "bs = b # bs'" by (cases bs) auto
  from assms(1) obtain tr1 out lv1 where
    tb: "train_batch env K b tr = Inr (tr1, out)"
    and ac: "accumulate_components 0 (loss_c out) (dloss_c out)
             (lv\<lparr>batch_idx := Some 0,
                 losses := losses lv @ [loss_item out],
                 diff_losses := diff_losses lv @ [array_loss out],
                 plotting_losses := plotting_losses lv @ [loss_plot out]\<rparr>) = Inr lv1"
    and rest: "train_loop env K (Suc 0) bs' (tr1, lv1) = Inr (tr', lv')"
    unfolding bs by (auto split: sum.splits prod.splits)
  note f = accumulate_components_Inr [OF ac]
  from f(5) have c1: "component_loss lv1 = Some (loss_c out)"
    "d_component_loss lv1 = Some (dloss_c out)" by simp_all
  from train_loop_Inr [OF rest] obtain outs where
    run: "run_train_batches env K bs' tr1 = Inr (tr', outs)"
    and len: "length outs = length bs'"
    and l: "losses lv' = losses lv1 @ map loss_item outs"
    and p: "plotting_losses lv' = plotting_losses lv1 @ map loss_plot outs"
    and dl: "diff_losses lv' = diff_losses lv1 @ map array_loss outs"
    and bi: "batch_idx lv' = (if bs' = [] then batch_idx lv1 else Some (Suc 0 + length bs' - 1))"
    and cn: "bs' = [] \<longrightarrow> component_loss lv' = component_loss lv1
                    \<and> d_component_loss lv' = d_component_loss lv1"
    and cc: "bs' \<noteq> [] \<longrightarrow>
          (\<exists>c0 d0 c' d'. component_loss lv1 = Some c0 \<and> d_component_loss lv1 = Some d0
            \<and> np_accum c0 (map loss_c outs) = Inr c'
            \<and> np_accum d0 (map dloss_c outs) = Inr d'
            \<and> component_loss lv' = Some c' \<and> d_component_loss lv' = Some d')"
    by auto
  have run': "run_train_batches env K bs tr = Inr (tr', out # outs)"
    by (simp add: bs tb run)
  have lists: "losses lv' = losses lv @ map loss_item (out # outs)"
    "plotting_losses lv' = plotting_losses lv @ map loss_plot (out # outs)"
    "diff_losses lv' = diff_losses lv @ map array_loss (out # outs)"
    using l p dl f(1,2,3) by simp_all
  have idx: "batch_idx lv' = Some (length bs - 1)"
    using bi f(4) by (cases bs') (simp_all add: bs)
  have comp: "\<exists>c d. np_total (map loss_c (out # outs)) = Inr c
      \<and> np_total (map dloss_c (out # outs)) = Inr d
      \<and> component_loss lv' = Some c \<and> d_component_loss lv' = Some d"
  proof (cases bs')
    case Nil
    then have "outs = []" using len by simp
    then show ?thesis using c1 cn Nil by (simp add: np_total_def)
  next
    case (Cons b' bs'')
    then show ?thesis using c1 cc by (auto simp: np_total_def)
  qed
  show ?thesis
    using run' len lists idx comp by (simp add: bs)
qed

lemma test_loop_Inr:
  "test_loop env K i bs (tr, lv) = Inr (tr', lv') \<Longrightarrow>
   \<exists>outs. run_test_batches env K bs tr = Inr (tr', outs)
     \<and> length outs = length bs
     \<and> losses lv' = losses lv @ map test_loss_item outs
     \<and> batch_idx lv' = (if bs = [] then batch_idx lv else Some (i + length bs - 1))
     \<and> (bs = [] \<longrightarrow> component_loss lv' = component_loss lv
                    \<and> d_component_loss lv' = d_component_loss lv)
     \<and> (0 < i \<and> bs \<noteq> [] \<longrightarrow>
          (\<exists>c0 d0 c' d'. component_loss lv = Some c0 \<and> d_component_loss lv = Some d0
            \<and> np_accum c0 (map test_loss_c outs) = Inr c'
            \<and> np_accum d0 (map test_dloss_c outs) = Inr d'
            \<and> component_loss lv' = Some c' \<and> d_component_loss lv' = Some d'))"
proof (induction bs arbitrary: i tr lv)
  case Nil
  then show ?case by simp
next
  case (Cons b bs)
  from Cons.prems obtain tr1 out lv1 where
    tb: "test_batch env K b tr = Inr (tr1, out)"
    and ac: "accumulate_components i (test_loss_c out) (test_dloss_c out)
             (lv\<lparr>batch_idx := Some i,
                 losses := losses lv @ [test_loss_item out]\<rparr>) = Inr lv1"
    and rest: "test_loop env K (Suc i) bs (tr1, lv1) = Inr (tr', lv')"
    by (auto split: sum.splits prod.splits)
  note f = accumulate_components_Inr [OF ac]
  from Cons.IH [OF rest] obtain outs where
    run: "run_test_batches env K bs tr1 = Inr (tr', outs)"
    and len: "length outs = length bs"
    and l: "losses lv' = losses lv1 @ map test_loss_item outs"
    and bi: "batch_idx lv' = (if bs = [] then batch_idx lv1 else Some (Suc i + length bs - 1))"
    and cn: "bs = [] \<longrightarrow> component_loss lv' = component_loss lv1
                    \<and> d_component_loss lv' = d_component_loss lv1"
    and cc: "bs \<noteq> [] \<longrightarrow>
          (\<exists>c0 d0 c' d'. component_loss lv1 = Some c0 \<and> d_component_loss lv1 = Some d0
            \<and> np_accum c0 (map test_loss_c outs) = Inr c'
            \<and> np_accum d0 (map test_dloss_c outs) = Inr d'
            \<and> component_loss lv' = Some c' \<and> d_component_loss lv' = Some d')"
    by auto
  have run': "run_test_batches env K (b # bs) tr = Inr (tr', out # outs)"
    by (simp add: tb run)
  have lists: "losses lv' = losses lv @ map test_loss_item (out # outs)"
    using l f(1) by simp
  have idx: "batch_idx lv' = Some (i + length (b # bs) - 1)"
    using bi f(4) by (cases bs) simp_all
  have comp: "0 < i \<longrightarrow>
          (\<exists>c0 d0 c' d'. component_loss lv = Some c0 \<and> d_component_loss lv = Some d0
            \<and> np_accum c0 (map test_loss_c (out # outs)) = Inr c'
            \<and> np_accum d0 (map test_dloss_c (out # outs)) = Inr d'
            \<and> component_loss lv' = Some c' \<and> d_component_loss lv' = Some d')"
  proof
    assume i: "0 < i"
    from f(6) [OF i] obtain c0 d0 c1 d1 where
      s: "component_loss lv = Some c0" "d_component_loss lv = Some d0"
        "np_add c0 (test_loss_c out) = Inr c1" "np_add d0 (test_dloss_c out) = Inr d1"
        "component_loss lv1 = Some c1" "d_component_loss lv1 = Some d1"
      by auto
    show "\<exists>c0 d0 c' d'. component_loss lv = Some c0 \<and> d_component_loss lv = Some d0
            \<and> np_accum c0 (map test_loss_c (out # outs)) = Inr c'
            \<and> np_accum d0 (map test_dloss_c (out # outs)) = Inr d'
            \<and> component_loss lv' = Some c' \<and> d_component_loss lv' = Some d'"
    proof (cases bs)
      case Nil
      then have "outs = []" using len by simp
      then show ?thesis using s cn Nil by simp
    next
      case (Cons b' bs')
      then show ?thesis using s cc by auto
    qed
  qed
  show ?case
    using run' len lists idx comp by simp
qed

lemma test_loop_from_zero:
  assumes "test_loop env K 0 bs (tr, lv) = Inr (tr', lv')" and "bs \<noteq> []"
  shows "\<exists>outs c d. run_test_batches env K bs tr = Inr (tr', outs)
     \<and> length outs = length bs
     \<and> losses lv' = losses lv @ map test_loss_item outs
     \<and> batch_idx lv' = Some (length bs - 1)
     \<and> np_total (map test_loss_c outs) = Inr c \<and> np_total (map test_dloss_c outs) = Inr d
     \<and> component_loss lv' = Some c \<and> d_component_loss lv' = Some d"
proof -
  from assms(2) obtain b bs' where bs: "bs = b # bs'" by (cases bs) auto
  from assms(1) obtain tr1 out lv1 where
    tb: "test_batch env K b tr = Inr (tr1, out)"
    and ac: "accumulate_components 0 (test_loss_c out) (test_dloss_c out)
             (lv\<lparr>batch_idx := Some 0,
                 losses := losses lv @ [test_loss_item out]\<rparr>) = Inr lv1"
    and rest: "test_loop env K (Suc 0) bs' (tr1, lv1) = Inr (tr', lv')"
    unfolding bs by (auto split: sum.splits prod.splits)
  note f = accumulate_components_Inr [OF ac]
  from f(5) have c1: "component_loss lv1 = Some (test_loss_c out)"
    "d_component_loss lv1 = Some (test_dloss_c out)" by simp_all
  from test_loop_Inr [OF rest] obtain outs where
    run: "run_test_batches env K bs' tr1 = Inr (tr', outs)"
    and len: "length outs = length bs'"
    and l: "losses lv' = losses lv1 @ map test_loss_item outs"
    and bi: "batch_idx lv' = (if bs' = [] then batch_idx lv1 else Some (Suc 0 + length bs' - 1))"
    and cn: "bs' = [] \<longrightarrow> component_loss lv' = component_loss lv1
                    \<and> d_component_loss lv' = d_component_loss lv1"
    and cc: "bs' \<noteq> [] \<longrightarrow>
          (\<exists>c0 d0 c' d'. component_loss lv1 = Some c0 \<and> d_component_loss lv1 = Some d0
            \<and> np_accum c0 (map test_loss_c outs) = Inr c'
            \<and> np_accum d0 (map test_dloss_c outs) = Inr d'
            \<and> component_loss lv' = Some c' \<and> d_component_loss lv' = Some d')"
    by auto
  have run': "run_test_batches env K bs tr = Inr (tr', out # outs)"
    by (simp add: bs tb run)
  have lists: "losses lv' = losses lv @ map test_loss_item (out # outs)"
    using l f(1) by simp
  have idx: "batch_idx lv' = Some (length bs - 1)"
    using bi f(4) by (cases bs') (simp_all add: bs)
  have comp: "\<exists>c d. np_total (map test_loss_c (out # outs)) = Inr c
      \<and> np_total (map test_dloss_c (out # outs)) = Inr d
      \<and> component_loss lv' = Some c \<and> d_component_loss lv' = Some d"
  proof (cases bs')
    case Nil
    then have "outs = []" using len by simp
    then show ?thesis using c1 cn Nil by (simp add: np_total_def)
  next
    case (Cons b' bs'')
    then show ?thesis using c1 cc by (auto simp: np_total_def)
  qed
  show ?thesis
    using run' len lists idx comp by (simp add: bs)
qed

lemma py_mean_Inr: "py_mean xs = Inr m \<Longrightarrow> xs \<noteq> []"
  by (auto simp: py_mean_def py_truediv_def split: if_splits)

lemma after_train_Inr:
  assumes "after_train n lv h = Inr h'"
  shows "\<exists>cost plot_cost c i d. py_mean (losses lv) = Inr cost
      \<and> py_mean (plotting_losses lv) = Inr plot_cost
      \<and> component_loss lv = Some c \<and> batch_idx lv = Some i \<and> d_component_loss lv = Some d
      \<and> h' = h\<lparr>console := console h @ [CostAtEpoch n cost],
                 cost_per_epoc := cost_per_epoc h @ [plot_cost],
                 component_losses_train := component_losses_train h @ [np_div c i],
                 d_component_losses_train := d_component_losses_train h @ [np_div d i],
                 different_loss_metrics := different_loss_metrics h @
                   [map (\<lambda>x. fdiv_idx x (length (losses lv)))
                      (sum_axis0 (diff_losses lv))]\<rparr>"
  using assms
  by (auto simp: after_train_def split: sum.splits option.splits)

lemma after_test_Inr:
  assumes "after_test lv h = Inr h'"
  shows "\<exists>cost c i d. py_mean (losses lv) = Inr cost
      \<and> component_loss lv = Some c \<and> batch_idx lv = Some i \<and> d_component_loss lv = Some d
      \<and> h' = h\<lparr>cost_per_epoc_test := cost_per_epoc_test h @ [cost],
                 component_losses_test := component_losses_test h @ [np_div c i],
                 d_component_losses_test := d_component_losses_test h @ [np_div d i]\<rparr>"
  using assms
  by (auto simp: after_test_def split: sum.splits option.splits)

lemma epoch_Inr:
  assumes "epoch env K do_plotting train_batches test_batches n (tr, lv, h) = Inr (tr', lv', h')"
  shows "\<exists>tr1 lv1 h1.
      train_loop env K 0 train_batches
        (tr, lv\<lparr>losses := [], plotting_losses := [], diff_losses := []\<rparr>) = Inr (tr1, lv1)
    \<and> after_train n lv1 h = Inr h1
    \<and> (if do_plotting
        then test_loop env K 0 test_batches (tr1, lv1) = Inr (tr', lv') \<and> after_test lv' h1 = Inr h'
        else tr' = tr1 \<and> lv' = lv1 \<and> h' = h1)"
  using assms
  by (auto split: sum.splits prod.splits if_splits)

text \<open>What the training half of an epoch leaves behind.\<close>

lemma epoch_train_half:
  assumes tl: "train_loop env K 0 train_batches
        (tr, lv\<lparr>losses := [], plotting_losses := [], diff_losses := []\<rparr>) = Inr (tr1, lv1)"
    and at: "after_train n lv1 h = Inr h1"
  shows "\<exists>outs c d. run_train_batches env K train_batches tr = Inr (tr1, outs)
      \<and> length outs = length train_batches \<and> train_batches \<noteq> []
      \<and> losses lv1 = map loss_item outs
      \<and> batch_idx lv1 = Some (length train_batches - 1)
      \<and> np_total (map loss_c outs) = Inr c \<and> np_total (map dloss_c outs) = Inr d
      \<and> component_loss lv1 = Some c \<and> d_component_loss lv1 = Some d
      \<and> component_losses_train h1
          = component_losses_train h @ [np_div c (length train_batches - 1)]
      \<and> d_component_losses_train h1
          = d_component_losses_train h @ [np_div d (length train_batches - 1)]
      \<and> component_losses_test h1 = component_losses_test h
      \<and> d_component_losses_test h1 = d_component_losses_test h
      \<and> cost_per_epoc_test h1 = cost_per_epoc_test h"
proof -
  from after_train_Inr [OF at] obtain cost plot_cost c i d where
    m: "py_mean (losses lv1) = Inr cost"
    and v: "component_loss lv1 = Some c" "batch_idx lv1 = Some i" "d_component_loss lv1 = Some d"
    and h1: "h1 = h\<lparr>console := console h @ [CostAtEpoch n cost],
                 cost_per_epoc := cost_per_epoc h @ [plot_cost],
                 component_losses_train := component_losses_train h @ [np_div c i],
                 d_component_losses_train := d_component_losses_train h @ [np_div d i],
                 different_loss_metrics := different_loss_metrics h @
                   [map (\<lambda>x. fdiv_idx x (length (losses lv1)))
                      (sum_axis0 (diff_losses lv1))]\<rparr>"
    by blast
  have ne: "train_batches \<noteq> []"
  proof
    assume "train_batches = []"
    with tl have "losses lv1 = []" by auto
    with py_mean_Inr [OF m] show False by simp
  qed
  from train_loop_from_zero [OF tl ne] v
  show ?thesis
    by (auto simp: h1 ne)
qed




lemma fdiv_idx_zero_not_finite: "\<not> is_finite (fdiv_idx x 0)"
  by (cases x) (simp_all add: is_finite_def)

lemma none_finite_np_div_zero: "none_finite (np_div a 0)"
  by (simp add: none_finite_def np_div_def list_all_iff fdiv_idx_zero_not_finite)

lemma fdiv_idx_finite: "is_finite x \<Longrightarrow> 0 < k \<Longrightarrow> is_finite (fdiv_idx x k)"
  by (cases x) (simp_all add: is_finite_def)

lemma all_finite_np_div: "all_finite a \<Longrightarrow> 0 < k \<Longrightarrow> all_finite (np_div a k)"
  by (simp add: all_finite_def np_div_def list_all_iff fdiv_idx_finite)

lemma fadd_finite: "is_finite a \<Longrightarrow> is_finite b \<Longrightarrow> is_finite (fadd a b)"
  by (cases a; cases b) (simp_all add: is_finite_def)

lemma list_all_map2:
  assumes "\<And>x y. P x \<Longrightarrow> Q y \<Longrightarrow> R (f x y)"
  shows "list_all P xs \<Longrightarrow> list_all Q ys \<Longrightarrow> list_all R (map2 f xs ys)"
proof (induction xs arbitrary: ys)
  case Nil
  then show ?case by simp
next
  case (Cons x xs)
  then show ?case by (cases ys) (simp_all add: assms)
qed

lemma row_add_finite:
  "list_all is_finite r \<Longrightarrow> list_all is_finite s \<Longrightarrow> list_all is_finite (map2 fadd r s)"
  by (rule list_all_map2 [where P = is_finite and Q = is_finite]) (rule fadd_finite)

lemma all_finite_madd: "all_finite a \<Longrightarrow> all_finite b \<Longrightarrow> all_finite (madd a b)"
  unfolding all_finite_def madd_def
  by (rule list_all_map2 [where P = "list_all is_finite" and Q = "list_all is_finite"])
     (rule row_add_finite)

lemma np_accum_finite:
  "all_finite a \<Longrightarrow> list_all all_finite xs \<Longrightarrow> np_accum a xs = Inr c \<Longrightarrow> all_finite c"
proof (induction xs arbitrary: a)
  case Nil
  then show ?case by simp
next
  case (Cons x xs)
  from Cons.prems(3) obtain a' where a': "np_add a x = Inr a'" "np_accum a' xs = Inr c"
    by (auto split: sum.splits)
  from a'(1) have "a' = madd a x" by (auto simp: np_add_def split: if_splits)
  with Cons.prems(1,2) have "all_finite a'" by (simp add: all_finite_madd)
  with Cons.IH [OF _ _ a'(2)] Cons.prems(2) show ?case by simp
qed

lemma np_total_finite:
  "list_all all_finite xs \<Longrightarrow> np_total xs = Inr c \<Longrightarrow> all_finite c"
  by (cases xs) (auto simp: np_total_def intro: np_accum_finite)

lemma shape_madd: "shape a = shape b \<Longrightarrow> shape (madd a b) = shape a"
proof (induction a arbitrary: b)
  case Nil
  then show ?case by (simp add: shape_def madd_def)
next
  case (Cons r a)
  then obtain s b' where b: "b = s # b'" by (cases b) (auto simp: shape_def)
  with Cons.prems have "length r = length s" "shape a = shape b'" by (simp_all add: shape_def)
  with Cons.IH [of b'] show ?case by (simp add: b shape_def madd_def)
qed

lemma all_finite_nth:
  "all_finite m \<Longrightarrow> i < length m \<Longrightarrow> j < length (m ! i) \<Longrightarrow> m ! i ! j = Fin (real_of (m ! i ! j))"
proof -
  assume "all_finite m" "i < length m" "j < length (m ! i)"
  then have "is_finite (m ! i ! j)" by (simp add: all_finite_def list_all_length)
  then show ?thesis by (cases "m ! i ! j") (simp_all add: is_finite_def real_of_def)
qed

lemma shape_eq_lengths:
  assumes "shape a = shape b"
  shows "length a = length b" and "i < length a \<Longrightarrow> length (a ! i) = length (b ! i)"
proof -
  from assms have m: "map length a = map length b" by (simp add: shape_def)
  then show l: "length a = length b" by (rule map_eq_imp_length_eq)
  assume i: "i < length a"
  then have "map length a ! i = length (a ! i)" by simp
  moreover have "map length b ! i = length (b ! i)" using i l by simp
  ultimately show "length (a ! i) = length (b ! i)" using m by simp
qed

lemma madd_nth:
  assumes "shape a = shape b" and "i < length a" and "j < length (a ! i)"
  shows "madd a b ! i ! j = fadd (a ! i ! j) (b ! i ! j)"
  using assms shape_eq_lengths [OF assms(1)] by (simp add: madd_def)

lemma np_accum_values:
  "np_accum a xs = Inr c \<Longrightarrow> all_finite a \<Longrightarrow> list_all all_finite xs \<Longrightarrow>
   shape c = shape a
   \<and> (\<forall>i<length a. \<forall>j<length (a ! i).
         c ! i ! j = Fin (real_of (a ! i ! j) + sum_list (map (\<lambda>x. real_of (x ! i ! j)) xs)))"
proof (induction xs arbitrary: a)
  case Nil
  then show ?case by (simp add: all_finite_nth [symmetric])
next
  case (Cons x xs)
  from Cons.prems(1) obtain a' where a': "np_add a x = Inr a'" "np_accum a' xs = Inr c"
    by (auto split: sum.splits)
  from a'(1) have m: "a' = madd a x" and sh: "shape a = shape x"
    by (auto simp: np_add_def split: if_splits)
  from Cons.prems(2,3) have fa: "all_finite a'" by (simp add: m all_finite_madd)
  have sa: "shape a' = shape a" unfolding m by (rule shape_madd [OF sh])
  from Cons.prems(3) have fxs: "list_all all_finite xs" and fx: "all_finite x" by simp_all
  from Cons.IH [OF a'(2) fa fxs] have
    sc: "shape c = shape a'"
    and v: "\<And>i j. i < length a' \<Longrightarrow> j < length (a' ! i) \<Longrightarrow>
          c ! i ! j = Fin (real_of (a' ! i ! j) + sum_list (map (\<lambda>x. real_of (x ! i ! j)) xs))"
    by simp_all
  have "c ! i ! j = Fin (real_of (a ! i ! j)
          + sum_list (map (\<lambda>x. real_of (x ! i ! j)) (x # xs)))"
    if i: "i < length a" and j: "j < length (a ! i)" for i j
  proof -
    have i': "i < length a'" using i shape_eq_lengths(1) [OF sa] by simp
    have j': "j < length (a' ! i)" using j shape_eq_lengths(2) [OF sa i'] by simp
    have ix: "i < length x" using i shape_eq_lengths(1) [OF sh] by simp
    have jx: "j < length (x ! i)" using j shape_eq_lengths(2) [OF sh i] by simp
    have "a' ! i ! j = fadd (a ! i ! j) (x ! i ! j)" unfolding m by (rule madd_nth [OF sh i j])
    also have "\<dots> = fadd (Fin (real_of (a ! i ! j))) (Fin (real_of (x ! i ! j)))"
      using all_finite_nth [OF Cons.prems(2) i j] all_finite_nth [OF fx ix jx] by simp
    finally have "real_of (a' ! i ! j) = real_of (a ! i ! j) + real_of (x ! i ! j)"
      by (simp add: real_of_def)
    with v [OF i' j'] show ?thesis by simp
  qed
  with sc sa show ?case by simp
qed

lemma np_total_values:
  assumes "np_total xs = Inr c" and "list_all all_finite xs"
  shows "shape c = shape (hd xs)"
    and "i < length (hd xs) \<Longrightarrow> j < length (hd xs ! i) \<Longrightarrow>
         c ! i ! j = Fin (sum_list (map (\<lambda>x. real_of (x ! i ! j)) xs))"
proof -
  from assms(1) obtain x xs' where xs: "xs = x # xs'" and acc: "np_accum x xs' = Inr c"
    by (cases xs) (auto simp: np_total_def)
  from assms(2) have f: "all_finite x" "list_all all_finite xs'" by (simp_all add: xs)
  from np_accum_values [OF acc f] show "shape c = shape (hd xs)" by (simp add: xs)
  assume "i < length (hd xs)" "j < length (hd xs ! i)"
  with np_accum_values [OF acc f]
  show "c ! i ! j = Fin (sum_list (map (\<lambda>x. real_of (x ! i ! j)) xs))"
    by (simp add: xs)
qed

lemma np_div_last_index:
  assumes "np_total xs = Inr c" and "list_all all_finite xs" and "2 \<le> length xs"
  shows "np_div c (length xs - 1) = divided_by_last_index xs"
proof -
  note sh = np_total_values(1) [OF assms(1,2)]
  have len: "length c = length (hd xs)" by (rule shape_eq_lengths(1) [OF sh])
  have k: "length xs - 1 \<noteq> 0" using assms(3) by simp
  show ?thesis
  proof (rule nth_equalityI)
    show "length (np_div c (length xs - 1)) = length (divided_by_last_index xs)"
      by (simp add: np_div_def divided_by_last_index_def len)
  next
    fix i
    assume "i < length (np_div c (length xs - 1))"
    then have ic: "i < length c" by (simp add: np_div_def)
    then have ih: "i < length (hd xs)" by (simp add: len)
    have rl: "length (c ! i) = length (hd xs ! i)" by (rule shape_eq_lengths(2) [OF sh ic])
    show "np_div c (length xs - 1) ! i = divided_by_last_index xs ! i"
    proof (rule nth_equalityI)
      show "length (np_div c (length xs - 1) ! i) = length (divided_by_last_index xs ! i)"
        using ic ih by (simp add: np_div_def divided_by_last_index_def rl)
    next
      fix j
      assume "j < length (np_div c (length xs - 1) ! i)"
      then have jc: "j < length (c ! i)" using ic by (simp add: np_div_def)
      then have jh: "j < length (hd xs ! i)" by (simp add: rl)
      from np_total_values(2) [OF assms(1,2) ih jh] k
      show "np_div c (length xs - 1) ! i ! j = divided_by_last_index xs ! i ! j"
        using ic ih jc jh by (simp add: np_div_def divided_by_last_index_def)
    qed
  qed
qed

lemma fdiv_idx_zero: "fdiv_idx x 0 = over_zero x"
  by (cases x) (simp_all add: over_zero_def)

lemma np_div_zero: "np_div a 0 = map (map over_zero) a"
  by (simp add: np_div_def fdiv_idx_zero)

lemma np_total_single: "np_total [x] = Inr x"
  by (simp add: np_total_def)

lemma epoch_loop_states:
  assumes "epoch env K do_plotting train_batches test_batches n (tr, lv, h) = Inr (tr', lv', h')"
  shows "\<exists>tr1 lv1 outs c d.
      train_loop env K 0 train_batches
        (tr, lv\<lparr>losses := [], plotting_losses := [], diff_losses := []\<rparr>) = Inr (tr1, lv1)
    \<and> run_train_batches env K train_batches tr = Inr (tr1, outs)
    \<and> length outs = length train_batches \<and> train_batches \<noteq> []
    \<and> batch_idx lv1 = Some (length train_batches - 1)
    \<and> np_total (map loss_c outs) = Inr c \<and> np_total (map dloss_c outs) = Inr d
    \<and> component_loss lv1 = Some c \<and> d_component_loss lv1 = Some d
    \<and> component_losses_train h'
        = component_losses_train h @ [np_div c (length train_batches - 1)]
    \<and> d_component_losses_train h'
        = d_component_losses_train h @ [np_div d (length train_batches - 1)]
    \<and> (do_plotting \<and> test_batches \<noteq> [] \<longrightarrow>
         (\<exists>touts ct dt. test_loop env K 0 test_batches (tr1, lv1) = Inr (tr', lv')
            \<and> run_test_batches env K test_batches tr1 = Inr (tr', touts)
            \<and> length touts = length test_batches
            \<and> batch_idx lv' = Some (length test_batches - 1)
            \<and> np_total (map test_loss_c touts) = Inr ct
            \<and> np_total (map test_dloss_c touts) = Inr dt
            \<and> component_loss lv' = Some ct \<and> d_component_loss lv' = Some dt
            \<and> component_losses_test h'
                = component_losses_test h @ [np_div ct (length test_batches - 1)]
            \<and> d_component_losses_test h'
                = d_component_losses_test h @ [np_div dt (length test_batches - 1)]))"
proof -
  from epoch_Inr [OF assms] obtain tr1 lv1 h1 where
    tl: "train_loop env K 0 train_batches
        (tr, lv\<lparr>losses := [], plotting_losses := [], diff_losses := []\<rparr>) = Inr (tr1, lv1)"
    and at: "after_train n lv1 h = Inr h1"
    and rest: "if do_plotting
        then test_loop env K 0 test_batches (tr1, lv1) = Inr (tr', lv') \<and> after_test lv' h1 = Inr h'
        else tr' = tr1 \<and> lv' = lv1 \<and> h' = h1"
    by blast
  from epoch_train_half [OF tl at] obtain outs c d where
    run: "run_train_batches env K train_batches tr = Inr (tr1, outs)"
      "length outs = length train_batches" "train_batches \<noteq> []"
    and idx: "batch_idx lv1 = Some (length train_batches - 1)"
    and tot: "np_total (map loss_c outs) = Inr c" "np_total (map dloss_c outs) = Inr d"
      "component_loss lv1 = Some c" "d_component_loss lv1 = Some d"
    and h1: "component_losses_train h1
          = component_losses_train h @ [np_div c (length train_batches - 1)]"
      "d_component_losses_train h1
          = d_component_losses_train h @ [np_div d (length train_batches - 1)]"
      "component_losses_test h1 = component_losses_test h"
      "d_component_losses_test h1 = d_component_losses_test h"
    by blast
  have train: "component_losses_train h' = component_losses_train h1
      \<and> d_component_losses_train h' = d_component_losses_train h1"
  proof (cases do_plotting)
    case False
    with rest show ?thesis by simp
  next
    case True
    with rest have "after_test lv' h1 = Inr h'" by simp
    from after_test_Inr [OF this] show ?thesis by auto
  qed
  have test: "do_plotting \<and> test_batches \<noteq> [] \<longrightarrow>
         (\<exists>touts ct dt. test_loop env K 0 test_batches (tr1, lv1) = Inr (tr', lv')
            \<and> run_test_batches env K test_batches tr1 = Inr (tr', touts)
            \<and> length touts = length test_batches
            \<and> batch_idx lv' = Some (length test_batches - 1)
            \<and> np_total (map test_loss_c touts) = Inr ct
            \<and> np_total (map test_dloss_c touts) = Inr dt
            \<and> component_loss lv' = Some ct \<and> d_component_loss lv' = Some dt
            \<and> component_losses_test h'
                = component_losses_test h @ [np_div ct (length test_batches - 1)]
            \<and> d_component_losses_test h'
                = d_component_losses_test h @ [np_div dt (length test_batches - 1)])"
  proof
    assume p: "do_plotting \<and> test_batches \<noteq> []"
    with rest have tl2: "test_loop env K 0 test_batches (tr1, lv1) = Inr (tr', lv')"
      and at2: "after_test lv' h1 = Inr h'" by simp_all
    from p have ne: "test_batches \<noteq> []" by simp
    from test_loop_from_zero [OF tl2 ne] obtain touts ct dt where
      t: "run_test_batches env K test_batches tr1 = Inr (tr', touts)"
        "length touts = length test_batches"
        "batch_idx lv' = Some (length test_batches - 1)"
        "np_total (map test_loss_c touts) = Inr ct"
        "np_total (map test_dloss_c touts) = Inr dt"
        "component_loss lv' = Some ct" "d_component_loss lv' = Some dt"
      by blast
    from after_test_Inr [OF at2] t(3,6,7) have
      "component_losses_test h'
          = component_losses_test h1 @ [np_div ct (length test_batches - 1)]"
      "d_component_losses_test h'
          = d_component_losses_test h1 @ [np_div dt (length test_batches - 1)]"
      by auto
    with tl2 t h1(3,4) show "\<exists>touts ct dt. test_loop env K 0 test_batches (tr1, lv1) = Inr (tr', lv')
            \<and> run_test_batches env K test_batches tr1 = Inr (tr', touts)
            \<and> length touts = length test_batches
            \<and> batch_idx lv' = Some (length test_batches - 1)
            \<and> np_total (map test_loss_c touts) = Inr ct
            \<and> np_total (map test_dloss_c touts) = Inr dt
            \<and> component_loss lv' = Some ct \<and> d_component_loss lv' = Some dt
            \<and> component_losses_test h'
                = component_losses_test h @ [np_div ct (length test_batches - 1)]
            \<and> d_component_losses_test h'
                = d_component_losses_test h @ [np_div dt (length test_batches - 1)]"
      by simp
  qed
  from tl run idx tot h1(1,2) train test show ?thesis by simp
qed

text \<open>
  C4: in every epoch that completes, the entry appended to the per-component training
  histories is the sum of the per-batch component (and derivative-component) losses
  divided by the last batch index, the number of training batches minus one: it is the
  running sum the loop has built, divided by NumPy, and for finite per-batch losses and
  two or more batches its entries are the real sums divided by the number of batches
  minus one. With evaluation on and a test loader that yields a batch, the same holds for
  the test histories and the test batches.
\<close>

theorem component_histories_divide_by_last_index:
  assumes "epoch env K do_plotting train_batches test_batches n (tr, lv, h) = Inr (tr', lv', h')"
  shows "\<exists>tr1 outs c d. run_train_batches env K train_batches tr = Inr (tr1, outs)
      \<and> length outs = length train_batches \<and> train_batches \<noteq> []
      \<and> np_total (map loss_c outs) = Inr c \<and> np_total (map dloss_c outs) = Inr d
      \<and> component_losses_train h'
          = component_losses_train h @ [np_div c (length train_batches - 1)]
      \<and> d_component_losses_train h'
          = d_component_losses_train h @ [np_div d (length train_batches - 1)]
      \<and> (2 \<le> length train_batches
           \<and> list_all (\<lambda>out. all_finite (loss_c out) \<and> all_finite (dloss_c out)) outs \<longrightarrow>
             component_losses_train h'
               = component_losses_train h @ [divided_by_last_index (map loss_c outs)]
           \<and> d_component_losses_train h'
               = d_component_losses_train h @ [divided_by_last_index (map dloss_c outs)])
      \<and> (do_plotting \<and> test_batches \<noteq> [] \<longrightarrow>
           (\<exists>touts ct dt. run_test_batches env K test_batches tr1 = Inr (tr', touts)
              \<and> length touts = length test_batches
              \<and> np_total (map test_loss_c touts) = Inr ct
              \<and> np_total (map test_dloss_c touts) = Inr dt
              \<and> component_losses_test h'
                  = component_losses_test h @ [np_div ct (length test_batches - 1)]
              \<and> d_component_losses_test h'
                  = d_component_losses_test h @ [np_div dt (length test_batches - 1)]
              \<and> (2 \<le> length test_batches
                   \<and> list_all (\<lambda>out. all_finite (test_loss_c out)
                                  \<and> all_finite (test_dloss_c out)) touts \<longrightarrow>
                     component_losses_test h'
                       = component_losses_test h
                           @ [divided_by_last_index (map test_loss_c touts)]
                   \<and> d_component_losses_test h'
                       = d_component_losses_test h
                           @ [divided_by_last_index (map test_dloss_c touts)])))"
proof -
  from epoch_loop_states [OF assms] obtain tr1 outs c d where
    run: "run_train_batches env K train_batches tr = Inr (tr1, outs)"
      "length outs = length train_batches" "train_batches \<noteq> []"
    and tot: "np_total (map loss_c outs) = Inr c" "np_total (map dloss_c outs) = Inr d"
    and hc: "component_losses_train h'
          = component_losses_train h @ [np_div c (length train_batches - 1)]"
      "d_component_losses_train h'
          = d_component_losses_train h @ [np_div d (length train_batches - 1)]"
    and test: "do_plotting \<and> test_batches \<noteq> [] \<longrightarrow>
         (\<exists>touts ct dt. run_test_batches env K test_batches tr1 = Inr (tr', touts)
            \<and> length touts = length test_batches
            \<and> np_total (map test_loss_c touts) = Inr ct
            \<and> np_total (map test_dloss_c touts) = Inr dt
            \<and> component_losses_test h'
                = component_losses_test h @ [np_div ct (length test_batches - 1)]
            \<and> d_component_losses_test h'
                = d_component_losses_test h @ [np_div dt (length test_batches - 1)])"
    by blast
  have fin: "2 \<le> length train_batches
           \<and> list_all (\<lambda>out. all_finite (loss_c out) \<and> all_finite (dloss_c out)) outs \<longrightarrow>
             component_losses_train h'
               = component_losses_train h @ [divided_by_last_index (map loss_c outs)]
           \<and> d_component_losses_train h'
               = d_component_losses_train h @ [divided_by_last_index (map dloss_c outs)]"
  proof
    assume p: "2 \<le> length train_batches
           \<and> list_all (\<lambda>out. all_finite (loss_c out) \<and> all_finite (dloss_c out)) outs"
    then have f: "list_all all_finite (map loss_c outs)" "list_all all_finite (map dloss_c outs)"
      by (simp_all add: list_all_iff)
    from p run(2) have l: "2 \<le> length (map loss_c outs)" "2 \<le> length (map dloss_c outs)"
      by simp_all
    from np_div_last_index [OF tot(1) f(1) l(1)] np_div_last_index [OF tot(2) f(2) l(2)]
    show "component_losses_train h'
               = component_losses_train h @ [divided_by_last_index (map loss_c outs)]
           \<and> d_component_losses_train h'
               = d_component_losses_train h @ [divided_by_last_index (map dloss_c outs)]"
      by (simp add: hc run(2))
  qed
  have tst: "do_plotting \<and> test_batches \<noteq> [] \<longrightarrow>
           (\<exists>touts ct dt. run_test_batches env K test_batches tr1 = Inr (tr', touts)
              \<and> length touts = length test_batches
              \<and> np_total (map test_loss_c touts) = Inr ct
              \<and> np_total (map test_dloss_c touts) = Inr dt
              \<and> component_losses_test h'
                  = component_losses_test h @ [np_div ct (length test_batches - 1)]
              \<and> d_component_losses_test h'
                  = d_component_losses_test h @ [np_div dt (length test_batches - 1)]
              \<and> (2 \<le> length test_batches
                   \<and> list_all (\<lambda>out. all_finite (test_loss_c out)
                                  \<and> all_finite (test_dloss_c out)) touts \<longrightarrow>
                     component_losses_test h'
                       = component_losses_test h
                           @ [divided_by_last_index (map test_loss_c touts)]
                   \<and> d_component_losses_test h'
                       = d_component_losses_test h
                           @ [divided_by_last_index (map test_dloss_c touts)]))"
  proof
    assume "do_plotting \<and> test_batches \<noteq> []"
    with test obtain touts ct dt where
      t: "run_test_batches env K test_batches tr1 = Inr (tr', touts)"
        "length touts = length test_batches"
        "np_total (map test_loss_c touts) = Inr ct"
        "np_total (map test_dloss_c touts) = Inr dt"
      and th: "component_losses_test h'
                = component_losses_test h @ [np_div ct (length test_batches - 1)]"
        "d_component_losses_test h'
                = d_component_losses_test h @ [np_div dt (length test_batches - 1)]"
      by blast
    have "2 \<le> length test_batches
           \<and> list_all (\<lambda>out. all_finite (test_loss_c out)
                          \<and> all_finite (test_dloss_c out)) touts \<longrightarrow>
             component_losses_test h'
               = component_losses_test h @ [divided_by_last_index (map test_loss_c touts)]
           \<and> d_component_losses_test h'
               = d_component_losses_test h @ [divided_by_last_index (map test_dloss_c touts)]"
    proof
      assume p: "2 \<le> length test_batches
           \<and> list_all (\<lambda>out. all_finite (test_loss_c out)
                          \<and> all_finite (test_dloss_c out)) touts"
      then have f: "list_all all_finite (map test_loss_c touts)"
        "list_all all_finite (map test_dloss_c touts)"
        by (simp_all add: list_all_iff)
      from p t(2) have l: "2 \<le> length (map test_loss_c touts)"
        "2 \<le> length (map test_dloss_c touts)"
        by simp_all
      from np_div_last_index [OF t(3) f(1) l(1)] np_div_last_index [OF t(4) f(2) l(2)]
      show "component_losses_test h'
               = component_losses_test h @ [divided_by_last_index (map test_loss_c touts)]
           \<and> d_component_losses_test h'
               = d_component_losses_test h @ [divided_by_last_index (map test_dloss_c touts)]"
        by (simp add: th t(2))
    qed
    with t th show "\<exists>touts ct dt. run_test_batches env K test_batches tr1 = Inr (tr', touts)
              \<and> length touts = length test_batches
              \<and> np_total (map test_loss_c touts) = Inr ct
              \<and> np_total (map test_dloss_c touts) = Inr dt
              \<and> component_losses_test h'
                  = component_losses_test h @ [np_div ct (length test_batches - 1)]
              \<and> d_component_losses_test h'
                  = d_component_losses_test h @ [np_div dt (length test_batches - 1)]
              \<and> (2 \<le> length test_batches
                   \<and> list_all (\<lambda>out. all_finite (test_loss_c out)
                                  \<and> all_finite (test_dloss_c out)) touts \<longrightarrow>
                     component_losses_test h'
                       = component_losses_test h
                           @ [divided_by_last_index (map test_loss_c touts)]
                   \<and> d_component_losses_test h'
                       = d_component_losses_test h
                           @ [divided_by_last_index (map test_dloss_c touts)])"
      by blast
  qed
  from run tot hc fin tst show ?thesis by blast
qed

lemma singleton_hd: "length xs = 1 \<Longrightarrow> xs = [hd xs]"
  by (cases xs) simp_all

text \<open>
  C10: when the training loader yields exactly one batch, the loop ends with
  \<open>batch_idx = 0\<close> and the running sums equal to the arrays of that batch; the entries
  appended to the training component histories are those arrays divided by zero
  elementwise, \<open>inf\<close>, \<open>-inf\<close> or \<open>nan\<close> in every position, and none of them is a finite
  number. With at least two batches and finite per-batch component losses the appended
  entries are the real sums divided by the number of batches minus one, all finite. With
  evaluation on, the same holds for the test loader and the test histories.
\<close>

theorem single_batch_epoch_divides_by_zero:
  assumes "epoch env K do_plotting train_batches test_batches n (tr, lv, h) = Inr (tr', lv', h')"
  shows "\<exists>tr1 lv1 outs.
      train_loop env K 0 train_batches
        (tr, lv\<lparr>losses := [], plotting_losses := [], diff_losses := []\<rparr>) = Inr (tr1, lv1)
    \<and> run_train_batches env K train_batches tr = Inr (tr1, outs)
    \<and> length outs = length train_batches
    \<and> batch_idx lv1 = Some (length train_batches - 1)
    \<and> (length train_batches = 1 \<longrightarrow>
          outs = [hd outs] \<and> batch_idx lv1 = Some 0
        \<and> component_loss lv1 = Some (loss_c (hd outs))
        \<and> d_component_loss lv1 = Some (dloss_c (hd outs))
        \<and> component_losses_train h'
            = component_losses_train h @ [map (map over_zero) (loss_c (hd outs))]
        \<and> d_component_losses_train h'
            = d_component_losses_train h @ [map (map over_zero) (dloss_c (hd outs))]
        \<and> none_finite (last (component_losses_train h'))
        \<and> none_finite (last (d_component_losses_train h')))
    \<and> (2 \<le> length train_batches
         \<and> list_all (\<lambda>out. all_finite (loss_c out) \<and> all_finite (dloss_c out)) outs \<longrightarrow>
          component_losses_train h'
            = component_losses_train h @ [divided_by_last_index (map loss_c outs)]
        \<and> d_component_losses_train h'
            = d_component_losses_train h @ [divided_by_last_index (map dloss_c outs)]
        \<and> all_finite (last (component_losses_train h'))
        \<and> all_finite (last (d_component_losses_train h')))
    \<and> (do_plotting \<and> test_batches \<noteq> [] \<longrightarrow>
         (\<exists>touts. test_loop env K 0 test_batches (tr1, lv1) = Inr (tr', lv')
            \<and> run_test_batches env K test_batches tr1 = Inr (tr', touts)
            \<and> length touts = length test_batches
            \<and> batch_idx lv' = Some (length test_batches - 1)
            \<and> (length test_batches = 1 \<longrightarrow>
                  touts = [hd touts] \<and> batch_idx lv' = Some 0
                \<and> component_loss lv' = Some (test_loss_c (hd touts))
                \<and> d_component_loss lv' = Some (test_dloss_c (hd touts))
                \<and> component_losses_test h'
                    = component_losses_test h @ [map (map over_zero) (test_loss_c (hd touts))]
                \<and> d_component_losses_test h'
                    = d_component_losses_test h
                        @ [map (map over_zero) (test_dloss_c (hd touts))]
                \<and> none_finite (last (component_losses_test h'))
                \<and> none_finite (last (d_component_losses_test h')))
            \<and> (2 \<le> length test_batches
                 \<and> list_all (\<lambda>out. all_finite (test_loss_c out)
                                \<and> all_finite (test_dloss_c out)) touts \<longrightarrow>
                  component_losses_test h'
                    = component_losses_test h @ [divided_by_last_index (map test_loss_c touts)]
                \<and> d_component_losses_test h'
                    = d_component_losses_test h
                        @ [divided_by_last_index (map test_dloss_c touts)]
                \<and> all_finite (last (component_losses_test h'))
                \<and> all_finite (last (d_component_losses_test h')))))"
proof -
  from epoch_loop_states [OF assms] obtain tr1 lv1 outs c d where
    tl: "train_loop env K 0 train_batches
        (tr, lv\<lparr>losses := [], plotting_losses := [], diff_losses := []\<rparr>) = Inr (tr1, lv1)"
    and run: "run_train_batches env K train_batches tr = Inr (tr1, outs)"
    and len: "length outs = length train_batches"
    and idx: "batch_idx lv1 = Some (length train_batches - 1)"
    and tot: "np_total (map loss_c outs) = Inr c" "np_total (map dloss_c outs) = Inr d"
    and cl: "component_loss lv1 = Some c" "d_component_loss lv1 = Some d"
    and hc: "component_losses_train h'
        = component_losses_train h @ [np_div c (length train_batches - 1)]"
      "d_component_losses_train h'
        = d_component_losses_train h @ [np_div d (length train_batches - 1)]"
    and test: "do_plotting \<and> test_batches \<noteq> [] \<longrightarrow>
         (\<exists>touts ct dt. test_loop env K 0 test_batches (tr1, lv1) = Inr (tr', lv')
            \<and> run_test_batches env K test_batches tr1 = Inr (tr', touts)
            \<and> length touts = length test_batches
            \<and> batch_idx lv' = Some (length test_batches - 1)
            \<and> np_total (map test_loss_c touts) = Inr ct
            \<and> np_total (map test_dloss_c touts) = Inr dt
            \<and> component_loss lv' = Some ct \<and> d_component_loss lv' = Some dt
            \<and> component_losses_test h'
                = component_losses_test h @ [np_div ct (length test_batches - 1)]
            \<and> d_component_losses_test h'
                = d_component_losses_test h @ [np_div dt (length test_batches - 1)])"
    by blast
  have one: "length train_batches = 1 \<longrightarrow>
          outs = [hd outs] \<and> batch_idx lv1 = Some 0
        \<and> component_loss lv1 = Some (loss_c (hd outs))
        \<and> d_component_loss lv1 = Some (dloss_c (hd outs))
        \<and> component_losses_train h'
            = component_losses_train h @ [map (map over_zero) (loss_c (hd outs))]
        \<and> d_component_losses_train h'
            = d_component_losses_train h @ [map (map over_zero) (dloss_c (hd outs))]
        \<and> none_finite (last (component_losses_train h'))
        \<and> none_finite (last (d_component_losses_train h'))"
  proof
    assume l: "length train_batches = 1"
    with len have o: "outs = [hd outs]" by (simp add: singleton_hd)
    have "np_total (map loss_c outs) = Inr (loss_c (hd outs))"
      "np_total (map dloss_c outs) = Inr (dloss_c (hd outs))"
      by (subst o, simp add: np_total_single)+
    with tot have c: "c = loss_c (hd outs)" "d = dloss_c (hd outs)" by simp_all
    have nf: "none_finite (last (component_losses_train h'))"
      "none_finite (last (d_component_losses_train h'))"
      by (simp_all add: hc l none_finite_np_div_zero)
    from o idx cl hc nf show "outs = [hd outs] \<and> batch_idx lv1 = Some 0
        \<and> component_loss lv1 = Some (loss_c (hd outs))
        \<and> d_component_loss lv1 = Some (dloss_c (hd outs))
        \<and> component_losses_train h'
            = component_losses_train h @ [map (map over_zero) (loss_c (hd outs))]
        \<and> d_component_losses_train h'
            = d_component_losses_train h @ [map (map over_zero) (dloss_c (hd outs))]
        \<and> none_finite (last (component_losses_train h'))
        \<and> none_finite (last (d_component_losses_train h'))"
      by (simp add: l c np_div_zero)
  qed
  have two: "2 \<le> length train_batches
         \<and> list_all (\<lambda>out. all_finite (loss_c out) \<and> all_finite (dloss_c out)) outs \<longrightarrow>
          component_losses_train h'
            = component_losses_train h @ [divided_by_last_index (map loss_c outs)]
        \<and> d_component_losses_train h'
            = d_component_losses_train h @ [divided_by_last_index (map dloss_c outs)]
        \<and> all_finite (last (component_losses_train h'))
        \<and> all_finite (last (d_component_losses_train h'))"
  proof
    assume p: "2 \<le> length train_batches
         \<and> list_all (\<lambda>out. all_finite (loss_c out) \<and> all_finite (dloss_c out)) outs"
    then have f: "list_all all_finite (map loss_c outs)" "list_all all_finite (map dloss_c outs)"
      by (simp_all add: list_all_iff)
    from p len have l: "2 \<le> length (map loss_c outs)" "2 \<le> length (map dloss_c outs)"
      by simp_all
    have k: "0 < length train_batches - 1" using p by simp
    have "all_finite c" "all_finite d"
      using np_total_finite [OF f(1) tot(1)] np_total_finite [OF f(2) tot(2)] by simp_all
    then have af: "all_finite (last (component_losses_train h'))"
      "all_finite (last (d_component_losses_train h'))"
      using k by (simp_all add: hc all_finite_np_div)
    from np_div_last_index [OF tot(1) f(1) l(1)] np_div_last_index [OF tot(2) f(2) l(2)] af
    show "component_losses_train h'
            = component_losses_train h @ [divided_by_last_index (map loss_c outs)]
        \<and> d_component_losses_train h'
            = d_component_losses_train h @ [divided_by_last_index (map dloss_c outs)]
        \<and> all_finite (last (component_losses_train h'))
        \<and> all_finite (last (d_component_losses_train h'))"
      by (simp add: hc len)
  qed
  have tst: "do_plotting \<and> test_batches \<noteq> [] \<longrightarrow>
         (\<exists>touts. test_loop env K 0 test_batches (tr1, lv1) = Inr (tr', lv')
            \<and> run_test_batches env K test_batches tr1 = Inr (tr', touts)
            \<and> length touts = length test_batches
            \<and> batch_idx lv' = Some (length test_batches - 1)
            \<and> (length test_batches = 1 \<longrightarrow>
                  touts = [hd touts] \<and> batch_idx lv' = Some 0
                \<and> component_loss lv' = Some (test_loss_c (hd touts))
                \<and> d_component_loss lv' = Some (test_dloss_c (hd touts))
                \<and> component_losses_test h'
                    = component_losses_test h @ [map (map over_zero) (test_loss_c (hd touts))]
                \<and> d_component_losses_test h'
                    = d_component_losses_test h
                        @ [map (map over_zero) (test_dloss_c (hd touts))]
                \<and> none_finite (last (component_losses_test h'))
                \<and> none_finite (last (d_component_losses_test h')))
            \<and> (2 \<le> length test_batches
                 \<and> list_all (\<lambda>out. all_finite (test_loss_c out)
                                \<and> all_finite (test_dloss_c out)) touts \<longrightarrow>
                  component_losses_test h'
                    = component_losses_test h @ [divided_by_last_index (map test_loss_c touts)]
                \<and> d_component_losses_test h'
                    = d_component_losses_test h
                        @ [divided_by_last_index (map test_dloss_c touts)]
                \<and> all_finite (last (component_losses_test h'))
                \<and> all_finite (last (d_component_losses_test h'))))"
  proof
    assume "do_plotting \<and> test_batches \<noteq> []"
    with test obtain touts ct dt where
      tl2: "test_loop env K 0 test_batches (tr1, lv1) = Inr (tr', lv')"
      and trun: "run_test_batches env K test_batches tr1 = Inr (tr', touts)"
      and tlen: "length touts = length test_batches"
      and tidx: "batch_idx lv' = Some (length test_batches - 1)"
      and ttot: "np_total (map test_loss_c touts) = Inr ct"
        "np_total (map test_dloss_c touts) = Inr dt"
      and tcl: "component_loss lv' = Some ct" "d_component_loss lv' = Some dt"
      and th: "component_losses_test h'
                = component_losses_test h @ [np_div ct (length test_batches - 1)]"
        "d_component_losses_test h'
                = d_component_losses_test h @ [np_div dt (length test_batches - 1)]"
      by blast
    have tone: "length test_batches = 1 \<longrightarrow>
                  touts = [hd touts] \<and> batch_idx lv' = Some 0
                \<and> component_loss lv' = Some (test_loss_c (hd touts))
                \<and> d_component_loss lv' = Some (test_dloss_c (hd touts))
                \<and> component_losses_test h'
                    = component_losses_test h @ [map (map over_zero) (test_loss_c (hd touts))]
                \<and> d_component_losses_test h'
                    = d_component_losses_test h
                        @ [map (map over_zero) (test_dloss_c (hd touts))]
                \<and> none_finite (last (component_losses_test h'))
                \<and> none_finite (last (d_component_losses_test h'))"
    proof
      assume l: "length test_batches = 1"
      with tlen have o: "touts = [hd touts]" by (simp add: singleton_hd)
      have "np_total (map test_loss_c touts) = Inr (test_loss_c (hd touts))"
        "np_total (map test_dloss_c touts) = Inr (test_dloss_c (hd touts))"
        by (subst o, simp add: np_total_single)+
      with ttot have c: "ct = test_loss_c (hd touts)" "dt = test_dloss_c (hd touts)"
        by simp_all
      have nf: "none_finite (last (component_losses_test h'))"
        "none_finite (last (d_component_losses_test h'))"
        by (simp_all add: th l none_finite_np_div_zero)
      from o tidx tcl th nf show "touts = [hd touts] \<and> batch_idx lv' = Some 0
                \<and> component_loss lv' = Some (test_loss_c (hd touts))
                \<and> d_component_loss lv' = Some (test_dloss_c (hd touts))
                \<and> component_losses_test h'
                    = component_losses_test h @ [map (map over_zero) (test_loss_c (hd touts))]
                \<and> d_component_losses_test h'
                    = d_component_losses_test h
                        @ [map (map over_zero) (test_dloss_c (hd touts))]
                \<and> none_finite (last (component_losses_test h'))
                \<and> none_finite (last (d_component_losses_test h'))"
        by (simp add: l c np_div_zero)
    qed
    have ttwo: "2 \<le> length test_batches
                 \<and> list_all (\<lambda>out. all_finite (test_loss_c out)
                                \<and> all_finite (test_dloss_c out)) touts \<longrightarrow>
                  component_losses_test h'
                    = component_losses_test h @ [divided_by_last_index (map test_loss_c touts)]
                \<and> d_component_losses_test h'
                    = d_component_losses_test h
                        @ [divided_by_last_index (map test_dloss_c touts)]
                \<and> all_finite (last (component_losses_test h'))
                \<and> all_finite (last (d_component_losses_test h'))"
    proof
      assume p: "2 \<le> length test_batches
                 \<and> list_all (\<lambda>out. all_finite (test_loss_c out)
                                \<and> all_finite (test_dloss_c out)) touts"
      then have f: "list_all all_finite (map test_loss_c touts)"
        "list_all all_finite (map test_dloss_c touts)"
        by (simp_all add: list_all_iff)
      from p tlen have l: "2 \<le> length (map test_loss_c touts)"
        "2 \<le> length (map test_dloss_c touts)"
        by simp_all
      have k: "0 < length test_batches - 1" using p by simp
      have "all_finite ct" "all_finite dt"
        using np_total_finite [OF f(1) ttot(1)] np_total_finite [OF f(2) ttot(2)] by simp_all
      then have af: "all_finite (last (component_losses_test h'))"
        "all_finite (last (d_component_losses_test h'))"
        using k by (simp_all add: th all_finite_np_div)
      from np_div_last_index [OF ttot(1) f(1) l(1)] np_div_last_index [OF ttot(2) f(2) l(2)] af
      show "component_losses_test h'
                    = component_losses_test h @ [divided_by_last_index (map test_loss_c touts)]
                \<and> d_component_losses_test h'
                    = d_component_losses_test h
                        @ [divided_by_last_index (map test_dloss_c touts)]
                \<and> all_finite (last (component_losses_test h'))
                \<and> all_finite (last (d_component_losses_test h'))"
        by (simp add: th tlen)
    qed
    from tl2 trun tlen tidx tone ttwo
    show "\<exists>touts. test_loop env K 0 test_batches (tr1, lv1) = Inr (tr', lv')
            \<and> run_test_batches env K test_batches tr1 = Inr (tr', touts)
            \<and> length touts = length test_batches
            \<and> batch_idx lv' = Some (length test_batches - 1)
            \<and> (length test_batches = 1 \<longrightarrow>
                  touts = [hd touts] \<and> batch_idx lv' = Some 0
                \<and> component_loss lv' = Some (test_loss_c (hd touts))
                \<and> d_component_loss lv' = Some (test_dloss_c (hd touts))
                \<and> component_losses_test h'
                    = component_losses_test h @ [map (map over_zero) (test_loss_c (hd touts))]
                \<and> d_component_losses_test h'
                    = d_component_losses_test h
                        @ [map (map over_zero) (test_dloss_c (hd touts))]
                \<and> none_finite (last (component_losses_test h'))
                \<and> none_finite (last (d_component_losses_test h')))
            \<and> (2 \<le> length test_batches
                 \<and> list_all (\<lambda>out. all_finite (test_loss_c out)
                                \<and> all_finite (test_dloss_c out)) touts \<longrightarrow>
                  component_losses_test h'
                    = component_losses_test h @ [divided_by_last_index (map test_loss_c touts)]
                \<and> d_component_losses_test h'
                    = d_component_losses_test h
                        @ [divided_by_last_index (map test_dloss_c touts)]
                \<and> all_finite (last (component_losses_test h'))
                \<and> all_finite (last (d_component_losses_test h')))"
      by (intro exI [of _ touts] conjI)
  qed
  from tl run len idx one two tst show ?thesis
    by (intro exI [of _ tr1] exI [of _ lv1] exI [of _ outs] conjI)
qed

subsection \<open>The concrete run\<close>

lemma demo_test_batch:
  "\<exists>tr'. test_batch demo_env 2 (demo_data, t) tr = Inr (tr', demo_test_out)"
proof -
  have h1: "list_all (\<lambda>r. 2 \<le> length r) (forward demo_env (demo_data # params tr))"
    "length (forward demo_env (demo_data # params tr)) = length demo_data"
    "list_all (\<lambda>r. 0 < length r) demo_data"
    by (simp_all add: demo_env_def identity_net_def demo_data_def slice_to_def)
  have h2: "\<forall>n<2. shape (channel_grad demo_env (params tr) demo_data n) = shape demo_data"
    unfolding demo_env_def by (simp add: identity_channel_grad_shape [OF demo_data_wide])
  have h3: "graph_alive (new_batch (autograd_of tr))"
    "grad_of (new_batch (autograd_of tr)) Data = None"
    by (simp_all add: new_batch_def)
  from differentiator_general [OF h1 h2 h3]
  obtain v ag where d: "differentiator demo_env 2 (model demo_env (params tr) demo_data)
      (new_batch (autograd_of tr)) = Inr (v, ag)"
    by blast
  have pl: "item (criterion_plotting demo_env 2 (model demo_env (params tr) demo_data) (Const t))
      = Inr (Fin 1)"
    by (simp add: criterion_plotting_def item_apply_op demo_loss_value item_of_def)
  have cl: "component_losses demo_env 2 (model demo_env (params tr) demo_data) (Const v)
      (Const t) = ([[Fin 1, Fin 2]], [[Fin 0, Fin 5]])"
    by (simp add: component_losses_def tvalue_apply_op demo_loss_value)
  show ?thesis
    by (simp add: Let_def pl d cl demo_test_out_def)
qed

lemma demo_run_train:
  "\<exists>tr'. run_train_batches demo_env 2 (replicate k demo_batch) tr
            = Inr (tr', replicate k demo_out)"
proof (induction k arbitrary: tr)
  case 0
  then show ?case by simp
next
  case (Suc k)
  from demo_train_batch [of demo_targets tr] obtain tr1 where
    "train_batch demo_env 2 (demo_data, demo_targets) tr = Inr (tr1, demo_out)" by blast
  moreover from Suc [of tr1] obtain tr2 where
    "run_train_batches demo_env 2 (replicate k demo_batch) tr1 = Inr (tr2, replicate k demo_out)"
    by blast
  ultimately show ?case by (simp add: demo_batch_def)
qed

lemma demo_run_test:
  "\<exists>tr'. run_test_batches demo_env 2 (replicate k demo_batch) tr
            = Inr (tr', replicate k demo_test_out)"
proof (induction k arbitrary: tr)
  case 0
  then show ?case by simp
next
  case (Suc k)
  from demo_test_batch [of demo_targets tr] obtain tr1 where
    "test_batch demo_env 2 (demo_data, demo_targets) tr = Inr (tr1, demo_test_out)" by blast
  moreover from Suc [of tr1] obtain tr2 where
    "run_test_batches demo_env 2 (replicate k demo_batch) tr1
      = Inr (tr2, replicate k demo_test_out)"
    by blast
  ultimately show ?case by (simp add: demo_batch_def)
qed

lemma demo_accumulate:
  assumes "0 < i \<longrightarrow> two_wide lv"
  shows "\<exists>lv'. accumulate_components i [[Fin 1, Fin 2]] [[Fin 0, Fin 5]] lv = Inr lv'
           \<and> two_wide lv' \<and> losses lv' = losses lv \<and> batch_idx lv' = batch_idx lv"
proof (cases "i = 0")
  case True
  then show ?thesis by (simp add: accumulate_components_def two_wide_def shape_def)
next
  case False
  with assms obtain c d where
    c: "component_loss lv = Some c" "shape c = [2]"
      "d_component_loss lv = Some d" "shape d = [2]"
    by (auto simp: two_wide_def)
  have s: "shape [[Fin 1, Fin 2]] = [2]" "shape [[Fin 0, Fin 5]] = [2]"
    by (simp_all add: shape_def)
  have "shape (madd c [[Fin 1, Fin 2]]) = [2]" "shape (madd d [[Fin 0, Fin 5]]) = [2]"
    using shape_madd [of c "[[Fin 1, Fin 2]]"] shape_madd [of d "[[Fin 0, Fin 5]]"] c s
    by simp_all
  then show ?thesis
    using False c s by (simp add: accumulate_components_def np_add_def two_wide_def)
qed

lemma demo_train_loop:
  "0 < i \<longrightarrow> two_wide lv \<Longrightarrow>
   \<exists>tr' lv'. train_loop demo_env 2 i (replicate k demo_batch) (tr, lv) = Inr (tr', lv')"
proof (induction k arbitrary: i tr lv)
  case 0
  then show ?case by simp
next
  case (Suc k)
  from demo_train_batch [of demo_targets tr] obtain tr1 where
    tb: "train_batch demo_env 2 (demo_data, demo_targets) tr = Inr (tr1, demo_out)" by blast
  let ?lv = "lv\<lparr>batch_idx := Some i,
                 losses := losses lv @ [loss_item demo_out],
                 diff_losses := diff_losses lv @ [array_loss demo_out],
                 plotting_losses := plotting_losses lv @ [loss_plot demo_out]\<rparr>"
  have "0 < i \<longrightarrow> two_wide ?lv" using Suc.prems by (simp add: two_wide_def)
  from demo_accumulate [OF this] obtain lv1 where
    ac: "accumulate_components i [[Fin 1, Fin 2]] [[Fin 0, Fin 5]] ?lv = Inr lv1"
    and w: "two_wide lv1" by blast
  from Suc.IH [of "Suc i" lv1 tr1] w obtain tr' lv' where
    "train_loop demo_env 2 (Suc i) (replicate k demo_batch) (tr1, lv1) = Inr (tr', lv')"
    by blast
  then show ?case
    using tb ac by (simp add: demo_batch_def demo_out_def)
qed

lemma demo_test_loop:
  "0 < i \<longrightarrow> two_wide lv \<Longrightarrow>
   \<exists>tr' lv'. test_loop demo_env 2 i (replicate k demo_batch) (tr, lv) = Inr (tr', lv')"
proof (induction k arbitrary: i tr lv)
  case 0
  then show ?case by simp
next
  case (Suc k)
  from demo_test_batch [of demo_targets tr] obtain tr1 where
    tb: "test_batch demo_env 2 (demo_data, demo_targets) tr = Inr (tr1, demo_test_out)"
    by blast
  let ?lv = "lv\<lparr>batch_idx := Some i, losses := losses lv @ [test_loss_item demo_test_out]\<rparr>"
  have "0 < i \<longrightarrow> two_wide ?lv" using Suc.prems by (simp add: two_wide_def)
  from demo_accumulate [OF this] obtain lv1 where
    ac: "accumulate_components i [[Fin 1, Fin 2]] [[Fin 0, Fin 5]] ?lv = Inr lv1"
    and w: "two_wide lv1" by blast
  from Suc.IH [of "Suc i" lv1 tr1] w obtain tr' lv' where
    "test_loop demo_env 2 (Suc i) (replicate k demo_batch) (tr1, lv1) = Inr (tr', lv')"
    by blast
  then show ?case
    using tb ac by (simp add: demo_batch_def demo_test_out_def)
qed

lemma py_mean_nonempty: "xs \<noteq> [] \<Longrightarrow> \<exists>m. py_mean xs = Inr m"
  by (simp add: py_mean_def py_truediv_def)

lemma demo_epoch:
  "\<exists>tr' lv' h'. epoch demo_env 2 do_plotting (replicate (Suc k) demo_batch)
       (replicate j demo_batch) n (tr, lv, h) = Inr (tr', lv', h')"
proof -
  let ?lv0 = "lv\<lparr>losses := [], plotting_losses := [], diff_losses := []\<rparr>"
  from demo_train_loop [of 0 ?lv0 "Suc k" tr] obtain tr1 lv1 where
    tl: "train_loop demo_env 2 0 (replicate (Suc k) demo_batch) (tr, ?lv0) = Inr (tr1, lv1)"
    by auto
  have ne: "replicate (Suc k) demo_batch \<noteq> []" by simp
  have f: "losses lv1 \<noteq> []" "plotting_losses lv1 \<noteq> []"
    "\<exists>c. component_loss lv1 = Some c" "\<exists>d. d_component_loss lv1 = Some d"
    "\<exists>i. batch_idx lv1 = Some i"
    using train_loop_from_zero [OF tl ne]
    by (auto simp del: replicate.simps run_train_batches.simps)
  then obtain m pm where m: "py_mean (losses lv1) = Inr m"
    "py_mean (plotting_losses lv1) = Inr pm"
    using py_mean_nonempty by blast
  then obtain h1 where at: "after_train n lv1 h = Inr h1"
    using f by (auto simp: after_train_def)
  show ?thesis
  proof (cases do_plotting)
    case False
    then show ?thesis using tl at by simp
  next
    case True
    from demo_test_loop [of 0 lv1 j tr1] obtain tr2 lv2 where
      tl2: "test_loop demo_env 2 0 (replicate j demo_batch) (tr1, lv1) = Inr (tr2, lv2)"
      by auto
    have g: "\<exists>touts. losses lv2 = losses lv1 @ touts"
        "j = 0 \<longrightarrow> batch_idx lv2 = batch_idx lv1 \<and> component_loss lv2 = component_loss lv1
                    \<and> d_component_loss lv2 = d_component_loss lv1"
      using test_loop_Inr [OF tl2]
      by (auto simp del: replicate.simps run_test_batches.simps)
    have "losses lv2 \<noteq> []" using g(1) f(1) by auto
    then obtain m2 where m2: "py_mean (losses lv2) = Inr m2"
      using py_mean_nonempty by blast
    have "\<exists>c2 d2 i2. component_loss lv2 = Some c2 \<and> d_component_loss lv2 = Some d2
        \<and> batch_idx lv2 = Some i2"
    proof (cases j)
      case 0
      then show ?thesis using g f by simp
    next
      case (Suc j')
      then have "replicate j demo_batch \<noteq> []" by simp
      from test_loop_from_zero [OF tl2 this] show ?thesis
        by (auto simp del: replicate.simps run_test_batches.simps)
    qed
    then obtain h2 where "after_test lv2 h1 = Inr h2"
      using m2 by (auto simp: after_test_def)
    then show ?thesis using tl at tl2 True by simp
  qed
qed

lemma demo_outs_finite:
  "list_all (\<lambda>out. all_finite (loss_c out) \<and> all_finite (dloss_c out)) (replicate k demo_out)"
  "list_all (\<lambda>out. all_finite (test_loss_c out) \<and> all_finite (test_dloss_c out))
     (replicate k demo_test_out)"
  by (simp_all add: list_all_iff all_finite_def demo_out_def demo_test_out_def is_finite_def)

lemma demo_divided:
  "divided_by_last_index (map loss_c (replicate (Suc (Suc (Suc 0))) demo_out))
     = [[Fin (3 / 2), Fin 3]]"
  "divided_by_last_index (map dloss_c (replicate (Suc (Suc (Suc 0))) demo_out))
     = [[Fin 0, Fin (15 / 2)]]"
  "divided_by_last_index (map test_loss_c (replicate (Suc (Suc (Suc (Suc 0)))) demo_test_out))
     = [[Fin (4 / 3), Fin (8 / 3)]]"
  "divided_by_last_index (map test_dloss_c (replicate (Suc (Suc (Suc (Suc 0)))) demo_test_out))
     = [[Fin 0, Fin (20 / 3)]]"
  "divided_by_last_index (map loss_c (replicate (Suc (Suc 0)) demo_out)) = [[Fin 2, Fin 4]]"
  "divided_by_last_index (map dloss_c (replicate (Suc (Suc 0)) demo_out)) = [[Fin 0, Fin 10]]"
  "divided_by_last_index (map test_loss_c (replicate (Suc (Suc 0)) demo_test_out))
     = [[Fin 2, Fin 4]]"
  "divided_by_last_index (map test_dloss_c (replicate (Suc (Suc 0)) demo_test_out))
     = [[Fin 0, Fin 10]]"
  by (simp_all add: divided_by_last_index_def demo_out_def demo_test_out_def real_of_def
      upt_rec)

theorem component_histories_divide_by_last_index_witness:
  "\<exists>tr' lv' h'.
      epoch demo_env 2 True [demo_batch, demo_batch, demo_batch]
        [demo_batch, demo_batch, demo_batch, demo_batch] 0
        (demo_trainer, initial_loopvars, initial_histories) = Inr (tr', lv', h')
    \<and> component_losses_train h' = [[[Fin (3 / 2), Fin 3]]]
    \<and> d_component_losses_train h' = [[[Fin 0, Fin (15 / 2)]]]
    \<and> component_losses_test h' = [[[Fin (4 / 3), Fin (8 / 3)]]]
    \<and> d_component_losses_test h' = [[[Fin 0, Fin (20 / 3)]]]"
proof -
  let ?bs = "replicate (Suc (Suc (Suc 0))) demo_batch"
  let ?ts = "replicate (Suc (Suc (Suc (Suc 0)))) demo_batch"
  from demo_epoch [of True "Suc (Suc 0)" "Suc (Suc (Suc (Suc 0)))" 0 demo_trainer
      initial_loopvars initial_histories]
  obtain tr' lv' h' where
    ep: "epoch demo_env 2 True ?bs ?ts 0 (demo_trainer, initial_loopvars, initial_histories)
          = Inr (tr', lv', h')"
    by blast
  have ne: "True \<and> ?ts \<noteq> []" by simp
  from component_histories_divide_by_last_index [OF ep]
  obtain tr1 outs where
    run: "run_train_batches demo_env 2 ?bs demo_trainer = Inr (tr1, outs)"
    and fin: "2 \<le> length ?bs
           \<and> list_all (\<lambda>out. all_finite (loss_c out) \<and> all_finite (dloss_c out)) outs \<longrightarrow>
             component_losses_train h'
               = component_losses_train initial_histories
                   @ [divided_by_last_index (map loss_c outs)]
           \<and> d_component_losses_train h'
               = d_component_losses_train initial_histories
                   @ [divided_by_last_index (map dloss_c outs)]"
    and test: "True \<and> ?ts \<noteq> [] \<longrightarrow>
           (\<exists>touts. run_test_batches demo_env 2 ?ts tr1 = Inr (tr', touts)
              \<and> (2 \<le> length ?ts
                   \<and> list_all (\<lambda>out. all_finite (test_loss_c out)
                                  \<and> all_finite (test_dloss_c out)) touts \<longrightarrow>
                     component_losses_test h'
                       = component_losses_test initial_histories
                           @ [divided_by_last_index (map test_loss_c touts)]
                   \<and> d_component_losses_test h'
                       = d_component_losses_test initial_histories
                           @ [divided_by_last_index (map test_dloss_c touts)]))"
    by blast
  from test ne obtain touts where
    trun: "run_test_batches demo_env 2 ?ts tr1 = Inr (tr', touts)"
    and tfin: "2 \<le> length ?ts
                   \<and> list_all (\<lambda>out. all_finite (test_loss_c out)
                                  \<and> all_finite (test_dloss_c out)) touts \<longrightarrow>
                     component_losses_test h'
                       = component_losses_test initial_histories
                           @ [divided_by_last_index (map test_loss_c touts)]
                   \<and> d_component_losses_test h'
                       = d_component_losses_test initial_histories
                           @ [divided_by_last_index (map test_dloss_c touts)]"
    by blast
  from demo_run_train [of "Suc (Suc (Suc 0))" demo_trainer] run
  have outs: "outs = replicate (Suc (Suc (Suc 0))) demo_out"
    by (auto simp del: replicate.simps run_train_batches.simps)
  from demo_run_test [of "Suc (Suc (Suc (Suc 0)))" tr1] trun
  have touts: "touts = replicate (Suc (Suc (Suc (Suc 0)))) demo_test_out"
    by (auto simp del: replicate.simps run_test_batches.simps)
  have l: "2 \<le> length ?bs" "2 \<le> length ?ts" by simp_all
  from fin l(1) demo_outs_finite(1) [of "Suc (Suc (Suc 0))"]
  have a: "component_losses_train h' = [[[Fin (3 / 2), Fin 3]]]"
    "d_component_losses_train h' = [[[Fin 0, Fin (15 / 2)]]]"
    unfolding outs demo_divided by (simp_all add: initial_histories_def)
  from tfin l(2) demo_outs_finite(2) [of "Suc (Suc (Suc (Suc 0)))"]
  have b: "component_losses_test h' = [[[Fin (4 / 3), Fin (8 / 3)]]]"
    "d_component_losses_test h' = [[[Fin 0, Fin (20 / 3)]]]"
    unfolding touts demo_divided by (simp_all add: initial_histories_def)
  have "epoch demo_env 2 True [demo_batch, demo_batch, demo_batch]
        [demo_batch, demo_batch, demo_batch, demo_batch] 0
        (demo_trainer, initial_loopvars, initial_histories) = Inr (tr', lv', h')"
    using ep by (simp only: replicate.simps)
  with a b show ?thesis by blast
qed


theorem single_batch_epoch_divides_by_zero_witness:
  "(\<exists>tr' lv' h'.
      epoch demo_env 2 True [demo_batch] [demo_batch] 0
        (demo_trainer, initial_loopvars, initial_histories) = Inr (tr', lv', h')
    \<and> batch_idx lv' = Some 0
    \<and> component_losses_train h' = [[[PInf, PInf]]]
    \<and> d_component_losses_train h' = [[[NaN, PInf]]]
    \<and> component_losses_test h' = [[[PInf, PInf]]]
    \<and> d_component_losses_test h' = [[[NaN, PInf]]])
   \<and> (\<exists>tr' lv' h'.
      epoch demo_env 2 True [demo_batch, demo_batch] [demo_batch, demo_batch] 0
        (demo_trainer, initial_loopvars, initial_histories) = Inr (tr', lv', h')
    \<and> batch_idx lv' = Some 1
    \<and> component_losses_train h' = [[[Fin 2, Fin 4]]]
    \<and> d_component_losses_train h' = [[[Fin 0, Fin 10]]]
    \<and> component_losses_test h' = [[[Fin 2, Fin 4]]]
    \<and> d_component_losses_test h' = [[[Fin 0, Fin 10]]])"
proof -
  let ?one = "replicate (Suc 0) demo_batch"
  let ?two = "replicate (Suc (Suc 0)) demo_batch"
  let ?s = "(demo_trainer, initial_loopvars, initial_histories)"
  have first: "\<exists>tr' lv' h'. epoch demo_env 2 True [demo_batch] [demo_batch] 0 ?s
      = Inr (tr', lv', h')
    \<and> batch_idx lv' = Some 0
    \<and> component_losses_train h' = [[[PInf, PInf]]]
    \<and> d_component_losses_train h' = [[[NaN, PInf]]]
    \<and> component_losses_test h' = [[[PInf, PInf]]]
    \<and> d_component_losses_test h' = [[[NaN, PInf]]]"
  proof -
    from demo_epoch [of True 0 "Suc 0" 0 demo_trainer initial_loopvars initial_histories]
    obtain tr' lv' h' where ep: "epoch demo_env 2 True ?one ?one 0 ?s = Inr (tr', lv', h')"
      by blast
    have len: "length ?one = 1" and ne: "True \<and> ?one \<noteq> []" by simp_all
    from single_batch_epoch_divides_by_zero [OF ep]
    obtain tr1 outs where
      run: "run_train_batches demo_env 2 ?one demo_trainer = Inr (tr1, outs)"
      and one: "length ?one = 1 \<longrightarrow>
          component_losses_train h'
            = component_losses_train initial_histories
                @ [map (map over_zero) (loss_c (hd outs))]
        \<and> d_component_losses_train h'
            = d_component_losses_train initial_histories
                @ [map (map over_zero) (dloss_c (hd outs))]"
      and test: "True \<and> ?one \<noteq> [] \<longrightarrow>
         (\<exists>touts. run_test_batches demo_env 2 ?one tr1 = Inr (tr', touts)
            \<and> (length ?one = 1 \<longrightarrow>
                  batch_idx lv' = Some 0
                \<and> component_losses_test h'
                    = component_losses_test initial_histories
                        @ [map (map over_zero) (test_loss_c (hd touts))]
                \<and> d_component_losses_test h'
                    = d_component_losses_test initial_histories
                        @ [map (map over_zero) (test_dloss_c (hd touts))]))"
      by blast
    from test ne len obtain touts where
      trun: "run_test_batches demo_env 2 ?one tr1 = Inr (tr', touts)"
      and tone: "batch_idx lv' = Some 0"
        "component_losses_test h'
                    = component_losses_test initial_histories
                        @ [map (map over_zero) (test_loss_c (hd touts))]"
        "d_component_losses_test h'
                    = d_component_losses_test initial_histories
                        @ [map (map over_zero) (test_dloss_c (hd touts))]"
      by blast
    from demo_run_train [of "Suc 0" demo_trainer] run
    have outs: "outs = replicate (Suc 0) demo_out"
      by (auto simp del: replicate.simps run_train_batches.simps)
    from demo_run_test [of "Suc 0" tr1] trun
    have touts: "touts = replicate (Suc 0) demo_test_out"
      by (auto simp del: replicate.simps run_test_batches.simps)
    from one len have a: "component_losses_train h' = [[[PInf, PInf]]]"
      "d_component_losses_train h' = [[[NaN, PInf]]]"
      unfolding outs by (simp_all add: initial_histories_def demo_out_def over_zero_def)
    from tone have b: "component_losses_test h' = [[[PInf, PInf]]]"
      "d_component_losses_test h' = [[[NaN, PInf]]]"
      unfolding touts by (simp_all add: initial_histories_def demo_test_out_def over_zero_def)
    have "epoch demo_env 2 True [demo_batch] [demo_batch] 0 ?s = Inr (tr', lv', h')"
      using ep by (simp only: replicate.simps)
    with a b tone(1) show ?thesis by blast
  qed
  have second: "\<exists>tr' lv' h'.
      epoch demo_env 2 True [demo_batch, demo_batch] [demo_batch, demo_batch] 0 ?s
        = Inr (tr', lv', h')
    \<and> batch_idx lv' = Some 1
    \<and> component_losses_train h' = [[[Fin 2, Fin 4]]]
    \<and> d_component_losses_train h' = [[[Fin 0, Fin 10]]]
    \<and> component_losses_test h' = [[[Fin 2, Fin 4]]]
    \<and> d_component_losses_test h' = [[[Fin 0, Fin 10]]]"
  proof -
    from demo_epoch [of True "Suc 0" "Suc (Suc 0)" 0 demo_trainer initial_loopvars
        initial_histories]
    obtain tr' lv' h' where ep: "epoch demo_env 2 True ?two ?two 0 ?s = Inr (tr', lv', h')"
      by blast
    have len: "2 \<le> length ?two" and ne: "True \<and> ?two \<noteq> []" by simp_all
    from single_batch_epoch_divides_by_zero [OF ep]
    obtain tr1 outs where
      run: "run_train_batches demo_env 2 ?two demo_trainer = Inr (tr1, outs)"
      and two: "2 \<le> length ?two
         \<and> list_all (\<lambda>out. all_finite (loss_c out) \<and> all_finite (dloss_c out)) outs \<longrightarrow>
          component_losses_train h'
            = component_losses_train initial_histories
                @ [divided_by_last_index (map loss_c outs)]
        \<and> d_component_losses_train h'
            = d_component_losses_train initial_histories
                @ [divided_by_last_index (map dloss_c outs)]"
      and test: "True \<and> ?two \<noteq> [] \<longrightarrow>
         (\<exists>touts. run_test_batches demo_env 2 ?two tr1 = Inr (tr', touts)
            \<and> batch_idx lv' = Some (length ?two - 1)
            \<and> (2 \<le> length ?two
                 \<and> list_all (\<lambda>out. all_finite (test_loss_c out)
                                \<and> all_finite (test_dloss_c out)) touts \<longrightarrow>
                  component_losses_test h'
                    = component_losses_test initial_histories
                        @ [divided_by_last_index (map test_loss_c touts)]
                \<and> d_component_losses_test h'
                    = d_component_losses_test initial_histories
                        @ [divided_by_last_index (map test_dloss_c touts)]))"
      by blast
    from test ne obtain touts where
      trun: "run_test_batches demo_env 2 ?two tr1 = Inr (tr', touts)"
      and tidx: "batch_idx lv' = Some (length ?two - 1)"
      and ttwo: "2 \<le> length ?two
                 \<and> list_all (\<lambda>out. all_finite (test_loss_c out)
                                \<and> all_finite (test_dloss_c out)) touts \<longrightarrow>
                  component_losses_test h'
                    = component_losses_test initial_histories
                        @ [divided_by_last_index (map test_loss_c touts)]
                \<and> d_component_losses_test h'
                    = d_component_losses_test initial_histories
                        @ [divided_by_last_index (map test_dloss_c touts)]"
      by blast
    from demo_run_train [of "Suc (Suc 0)" demo_trainer] run
    have outs: "outs = replicate (Suc (Suc 0)) demo_out"
      by (auto simp del: replicate.simps run_train_batches.simps)
    from demo_run_test [of "Suc (Suc 0)" tr1] trun
    have touts: "touts = replicate (Suc (Suc 0)) demo_test_out"
      by (auto simp del: replicate.simps run_test_batches.simps)
    from two len demo_outs_finite(1) [of "Suc (Suc 0)"]
    have a: "component_losses_train h' = [[[Fin 2, Fin 4]]]"
      "d_component_losses_train h' = [[[Fin 0, Fin 10]]]"
      unfolding outs demo_divided by (simp_all add: initial_histories_def)
    from ttwo len demo_outs_finite(2) [of "Suc (Suc 0)"]
    have b: "component_losses_test h' = [[[Fin 2, Fin 4]]]"
      "d_component_losses_test h' = [[[Fin 0, Fin 10]]]"
      unfolding touts demo_divided by (simp_all add: initial_histories_def)
    have i: "batch_idx lv' = Some 1" using tidx by simp
    have "epoch demo_env 2 True [demo_batch, demo_batch] [demo_batch, demo_batch] 0 ?s
        = Inr (tr', lv', h')"
      using ep by (simp only: replicate.simps)
    with a b i show ?thesis by blast
  qed
  from first second show ?thesis by (rule conjI)
qed

subsection \<open>Files\<close>

lemma split_paths:
  "split_path file_name = ckpt"
  "split_path (file_name @ ''.backup'') = bak"
  "split_path log_file = [''fix_plot'', ''log.txt'']"
  "split_path (output_dir @ ''/cost_per_epoch.txt'') = [''fix_plot'', ''cost_per_epoch.txt'']"
  "split_path (output_dir @ ''/component_losses_test.txt'')
     = [''fix_plot'', ''component_losses_test.txt'']"
  "split_path (output_dir @ ''/component_losses_train.txt'')
     = [''fix_plot'', ''component_losses_train.txt'']"
  "split_path (output_dir @ ''/d_component_losses_test.txt'')
     = [''fix_plot'', ''d_component_losses_test.txt'']"
  "split_path (output_dir @ ''/d_component_losses_train.txt'')
     = [''fix_plot'', ''d_component_losses_train.txt'']"
  by (simp_all add: split_path_def file_name_def log_file_def output_dir_def ckpt_def bak_def)

lemma node_at_remove: "node_at (remove fs p) q = (if q = p then None else node_at fs q)"
  unfolding node_at_def remove_def
  by (induction fs) auto

lemma node_at_put: "node_at (put fs p n) q = (if q = p then Some n else node_at fs q)"
  using node_at_remove [of fs p q] by (simp add: put_def node_at_def)

lemma is_dir_put: "q \<noteq> p \<Longrightarrow> is_dir (put fs p n) q = is_dir fs q"
  by (simp add: is_dir_def node_at_put)

lemma node_at_log_write:
  "q \<noteq> [''fix_plot'', ''log.txt''] \<Longrightarrow> node_at (log_write fs m) q = node_at fs q"
  by (simp add: log_write_def split_paths node_at_put split: option.splits node.splits
      content.splits)

lemma log_write_Dir:
  "node_at (log_write fs m) q = Some Dir \<longleftrightarrow> node_at fs q = Some Dir"
  by (auto simp: log_write_def split_paths node_at_put split: option.splits node.splits
      content.splits if_splits)

lemma is_dir_log_write: "is_dir (log_write fs m) q = is_dir fs q"
  by (simp add: is_dir_def log_write_Dir)

lemma write_file_Inr:
  "write_file fs s c = Inr fs' \<Longrightarrow> fs' = put fs (split_path s) (File c)"
  by (auto simp: write_file_def Let_def split: if_splits)

lemma write_file_ok:
  "split_path s \<noteq> [] \<Longrightarrow> node_at fs (split_path s) \<noteq> Some Dir \<Longrightarrow>
   is_dir fs (butlast (split_path s)) \<Longrightarrow>
   write_file fs s c = Inr (put fs (split_path s) (File c))"
  by (simp add: write_file_def Let_def)

lemma os_rename_file:
  "os_rename fs src dst = Inr fs' \<Longrightarrow> node_at fs (split_path src) = Some (File c) \<Longrightarrow>
   fs' = put (remove fs (split_path src)) (split_path dst) (File c)
   \<and> node_at fs (split_path dst) \<noteq> Some Dir"
  by (auto simp: os_rename_def Let_def split: if_splits)

lemma backup_paths:
  "is_backup bak" "\<not> is_backup ckpt" "\<not> is_backup [''fix_plot'', ''log.txt'']"
  "\<not> is_backup [''fix_plot'', ''cost_per_epoch.txt'']"
  "\<not> is_backup [''fix_plot'', ''component_losses_test.txt'']"
  "\<not> is_backup [''fix_plot'', ''component_losses_train.txt'']"
  "\<not> is_backup [''fix_plot'', ''d_component_losses_test.txt'']"
  "\<not> is_backup [''fix_plot'', ''d_component_losses_train.txt'']"
  by (simp_all add: is_backup_def bak_def ckpt_def)


lemma backups_remove_other: "\<not> is_backup p \<Longrightarrow> backups (remove fs p) = backups fs"
  unfolding backups_def remove_def by (induction fs) auto

lemma backups_remove: "backups (remove fs p) = filter (\<lambda>q. q \<noteq> p) (backups fs)"
  unfolding backups_def remove_def by (induction fs) auto

lemma backups_put_other: "\<not> is_backup p \<Longrightarrow> backups (put fs p n) = backups fs"
  using backups_remove_other [of p fs] by (simp add: put_def backups_def)

lemma backups_put_backup:
  "is_backup p \<Longrightarrow> backups (put fs p n) = p # filter (\<lambda>q. q \<noteq> p) (backups fs)"
  using backups_remove [of fs p] by (simp add: put_def backups_def)

lemma backups_log_write: "backups (log_write fs m) = backups fs"
  by (simp add: log_write_def split_paths backups_put_other backup_paths
      split: option.splits node.splits content.splits)

lemma below_same:
  assumes "below p q" and "drop (length p) q = []"
  shows "q = p"
proof -
  from assms(1) have t: "take (length p) q = p" by (simp only: below_def)
  from assms(2) have "length q \<le> length p" by simp
  then have "take (length p) q = q" by simp
  with t show ?thesis by (simp only:)
qed

lemma below_refl: "below p p"
  by (simp add: below_def)

lemma fst_move_target:
  assumes "q \<noteq> pd"
  shows "fst (move ps pd (q, n)) = pd \<longleftrightarrow> q = ps"
proof (cases "below ps q")
  case True
  have "pd @ drop (length ps) q = pd \<longleftrightarrow> drop (length ps) q = []" by simp
  also have "\<dots> \<longleftrightarrow> q = ps" using below_same [OF True] by auto
  finally show ?thesis using True by (simp add: move_def)
next
  case False
  then have "q \<noteq> ps" using below_refl by auto
  then show ?thesis using False assms by (simp add: move_def)
qed

lemma snd_move: "snd (move ps pd e) = snd e"
  by (simp add: move_def)

lemma moved_target:
  "\<forall>e \<in> set xs. fst e \<noteq> pd \<Longrightarrow> map_of (map (move ps pd) xs) pd = map_of xs ps"
proof (induction xs)
  case Nil
  show ?case by simp
next
  case (Cons e xs)
  obtain q n where e: "e = (q, n)" by (cases e)
  have qpd: "q \<noteq> pd" using Cons.prems e by simp
  have ih: "map_of (map (move ps pd) xs) pd = map_of xs ps"
    by (rule Cons.IH) (use Cons.prems in simp)
  obtain q' n' where m: "move ps pd (q, n) = (q', n')" by (cases "move ps pd (q, n)")
  have n': "n' = n" using snd_move [of ps pd "(q, n)"] m by simp
  have q': "q' = pd \<longleftrightarrow> q = ps" using fst_move_target [OF qpd, of ps n] m by simp
  have "map_of (map (move ps pd) (e # xs)) pd
      = (if q' = pd then Some n' else map_of (map (move ps pd) xs) pd)"
    by (simp add: e m)
  also have "\<dots> = (if q = ps then Some n else map_of xs ps)"
    by (simp only: q' n' ih)
  also have "\<dots> = map_of (e # xs) ps"
    by (auto simp: e)
  finally show ?case .
qed

lemma os_rename_dir:
  assumes "os_rename fs src dst = Inr fs'" and "node_at fs (split_path src) = Some Dir"
  shows "node_at fs' (split_path dst) = Some Dir"
proof -
  let ?ps = "split_path src" and ?pd = "split_path dst"
  have u: "os_rename fs src dst =
     (if ?pd = [] \<or> \<not> is_dir fs (butlast ?pd) then Inl OSError
      else if below ?ps ?pd then Inl OSError
      else if node_at fs ?pd \<noteq> None
              \<and> (node_at fs ?pd \<noteq> Some Dir \<or> os_listdir fs dst \<noteq> [])
           then Inl OSError
      else Inr (map (move ?ps ?pd) (remove fs ?pd)))"
    unfolding os_rename_def Let_def by (simp only: assms(2) option.case node.case)
  have nb: "\<not> below ?ps ?pd"
    using assms(1) unfolding u by (simp split: if_splits)
  have fs': "fs' = map (move ?ps ?pd) (remove fs ?pd)"
    using assms(1) unfolding u by (simp split: if_splits)
  have "?ps \<noteq> ?pd" using nb below_refl by auto
  then have a: "map_of (remove fs ?pd) ?ps = Some Dir"
    using assms(2) node_at_remove [of fs ?pd ?ps] by (simp add: node_at_def)
  have b: "\<forall>e \<in> set (remove fs ?pd). fst e \<noteq> ?pd"
    by (simp add: remove_def)
  have "map_of (map (move ?ps ?pd) (remove fs ?pd)) ?pd = map_of (remove fs ?pd) ?ps"
    by (rule moved_target [OF b])
  then show ?thesis
    unfolding fs' node_at_def using a by (simp only:)
qed

lemma backup_existing_file:
  assumes "backup_existing (fs, out) = Inr (fs', out')" and "node_at fs ckpt = Some (File c)"
  shows "fs' = put (remove (log_write fs (OverwritingFile file_name)) ckpt) bak (File c)"
    and "out' = out @ [OverwritingFile file_name]"
proof -
  have ex: "os_path_exists fs file_name"
    using assms(2) by (simp add: os_path_exists_def split_paths)
  have n: "node_at (log_write fs (OverwritingFile file_name)) (split_path file_name)
      = Some (File c)"
    using assms(2) by (simp add: split_paths node_at_log_write ckpt_def)
  from assms(1) ex obtain r where
    r: "os_rename (log_write fs (OverwritingFile file_name)) file_name (file_name @ ''.backup'')
        = Inr r" and fs': "fs' = r" and o: "out' = out @ [OverwritingFile file_name]"
    by (auto simp: backup_existing_def split: sum.splits)
  from os_rename_file [OF r n] show "fs' = put (remove (log_write fs (OverwritingFile file_name))
      ckpt) bak (File c)"
    by (simp add: fs' split_paths)
  show "out' = out @ [OverwritingFile file_name]" by (rule o)
qed

lemma backup_existing_absent:
  "node_at fs ckpt = None \<Longrightarrow> backup_existing (fs, out) = Inr (fs, out)"
  by (simp add: backup_existing_def os_path_exists_def split_paths ckpt_def)

lemma backup_existing_dir:
  assumes "backup_existing (fs, out) = Inr (fs', out')" and "node_at fs ckpt = Some Dir"
  shows "node_at fs' bak = Some Dir"
proof -
  have ex: "os_path_exists fs file_name"
    using assms(2) by (simp add: os_path_exists_def split_paths)
  have n: "node_at (log_write fs (OverwritingFile file_name)) (split_path file_name) = Some Dir"
    using assms(2) by (simp add: split_paths log_write_Dir)
  from assms(1) ex have
    r: "os_rename (log_write fs (OverwritingFile file_name)) file_name (file_name @ ''.backup'')
        = Inr fs'"
    by (auto simp: backup_existing_def split: sum.splits)
  from os_rename_dir [OF r n] show ?thesis by (simp add: split_paths)
qed

lemma save_model_Inr:
  assumes "save_model sd h w = Inr w'"
  shows "\<exists>fs. backup_existing (print_line (Line ''Saving...'') w) = Inr (fs, snd w')
      \<and> node_at (fst w') ckpt = Some (File (Checkpoint sd))
      \<and> node_at (fst w') bak = node_at fs bak
      \<and> backups (fst w') = backups fs
      \<and> is_dir (fst w') [''fix_plot''] = is_dir fs [''fix_plot'']
      \<and> list_all (\<lambda>p. node_at (fst w') p \<noteq> Some Dir) metric_paths"
proof -
  from assms obtain fs out fs1 fs2 fs3 fs4 fs5 fs6 where
    b: "backup_existing (print_line (Line ''Saving...'') w) = Inr (fs, out)"
    and w1: "write_file fs file_name (Checkpoint sd) = Inr fs1"
    and w2: "write_file fs1 (output_dir @ ''/cost_per_epoch.txt'')
               (Table (map (\<lambda>x. [x]) (cost_per_epoc h))) = Inr fs2"
    and w3: "write_file fs2 (output_dir @ ''/component_losses_test.txt'')
               (Table (map concat (component_losses_test h))) = Inr fs3"
    and w4: "write_file fs3 (output_dir @ ''/component_losses_train.txt'')
               (Table (map concat (component_losses_train h))) = Inr fs4"
    and w5: "write_file fs4 (output_dir @ ''/d_component_losses_test.txt'')
               (Table (map concat (d_component_losses_test h))) = Inr fs5"
    and w6: "write_file fs5 (output_dir @ ''/d_component_losses_train.txt'')
               (Table (map concat (d_component_losses_train h))) = Inr fs6"
    and w': "w' = (fs6, out)"
    unfolding save_model_def by (auto split: sum.splits prod.splits)
  note p = write_file_Inr [OF w1] write_file_Inr [OF w2] write_file_Inr [OF w3]
    write_file_Inr [OF w4] write_file_Inr [OF w5] write_file_Inr [OF w6]
  have c: "node_at fs6 ckpt = Some (File (Checkpoint sd))"
    by (simp add: p split_paths node_at_put ckpt_def)
  have k: "node_at fs6 bak = node_at fs bak"
    by (simp add: p split_paths node_at_put ckpt_def bak_def)
  have bs: "backups fs6 = backups fs"
    by (simp add: p split_paths backups_put_other backup_paths)
  have d: "is_dir fs6 [''fix_plot''] = is_dir fs [''fix_plot'']"
    by (simp add: p split_paths is_dir_put ckpt_def)
  have m: "list_all (\<lambda>p. node_at fs6 p \<noteq> Some Dir) metric_paths"
    by (simp add: p split_paths node_at_put metric_paths_def)
  show ?thesis
    using b c k bs d m by (simp add: w')
qed

lemma save_model_ok:
  assumes b: "backup_existing (print_line (Line ''Saving...'') w) = Inr (fs, out)"
    and d: "is_dir fs [''fix_plot'']"
    and c: "node_at fs ckpt \<noteq> Some Dir"
    and m: "list_all (\<lambda>p. node_at fs p \<noteq> Some Dir) metric_paths"
  shows "\<exists>fs'. save_model sd h w = Inr (fs', out)"
proof -
  let ?f1 = "put fs ckpt (File (Checkpoint sd))"
  let ?f2 = "put ?f1 [''fix_plot'', ''cost_per_epoch.txt'']
               (File (Table (map (\<lambda>x. [x]) (cost_per_epoc h))))"
  let ?f3 = "put ?f2 [''fix_plot'', ''component_losses_test.txt'']
               (File (Table (map concat (component_losses_test h))))"
  let ?f4 = "put ?f3 [''fix_plot'', ''component_losses_train.txt'']
               (File (Table (map concat (component_losses_train h))))"
  let ?f5 = "put ?f4 [''fix_plot'', ''d_component_losses_test.txt'']
               (File (Table (map concat (d_component_losses_test h))))"
  have w1: "write_file fs file_name (Checkpoint sd) = Inr ?f1"
    using d c by (simp add: write_file_def Let_def split_paths) (simp add: ckpt_def)
  have w2: "write_file ?f1 (output_dir @ ''/cost_per_epoch.txt'')
               (Table (map (\<lambda>x. [x]) (cost_per_epoc h))) = Inr ?f2"
    using d m
    by (simp add: write_file_def Let_def split_paths node_at_put is_dir_put
        metric_paths_def ckpt_def)
  have w3: "write_file ?f2 (output_dir @ ''/component_losses_test.txt'')
               (Table (map concat (component_losses_test h))) = Inr ?f3"
    using d m
    by (simp add: write_file_def Let_def split_paths node_at_put is_dir_put
        metric_paths_def ckpt_def)
  have w4: "write_file ?f3 (output_dir @ ''/component_losses_train.txt'')
               (Table (map concat (component_losses_train h))) = Inr ?f4"
    using d m
    by (simp add: write_file_def Let_def split_paths node_at_put is_dir_put
        metric_paths_def ckpt_def)
  have w5: "write_file ?f4 (output_dir @ ''/d_component_losses_test.txt'')
               (Table (map concat (d_component_losses_test h))) = Inr ?f5"
    using d m
    by (simp add: write_file_def Let_def split_paths node_at_put is_dir_put
        metric_paths_def ckpt_def)
  have w6: "\<exists>f6. write_file ?f5 (output_dir @ ''/d_component_losses_train.txt'')
               (Table (map concat (d_component_losses_train h))) = Inr f6"
    using d m
    by (simp add: write_file_def Let_def split_paths node_at_put is_dir_put
        metric_paths_def ckpt_def)
  then obtain f6 where w6': "write_file ?f5 (output_dir @ ''/d_component_losses_train.txt'')
               (Table (map concat (d_component_losses_train h))) = Inr f6" by blast
  show ?thesis
    unfolding save_model_def by (simp only: b w1 w2 w3 w4 w5 w6' sum.case prod.case) blast
qed

lemma os_rename_file_ok:
  assumes "node_at fs (split_path src) = Some (File c)" and "split_path dst \<noteq> []"
    and "is_dir fs (butlast (split_path dst))" and "node_at fs (split_path dst) \<noteq> Some Dir"
  shows "os_rename fs src dst = Inr (put (remove fs (split_path src)) (split_path dst) (File c))"
  using assms by (simp add: os_rename_def Let_def)

lemma backup_existing_file_target:
  assumes "backup_existing (fs, out) = Inr (fs', out')" and "node_at fs ckpt = Some (File c)"
  shows "node_at fs bak \<noteq> Some Dir"
proof -
  have ex: "os_path_exists fs file_name"
    using assms(2) by (simp add: os_path_exists_def split_paths)
  have n: "node_at (log_write fs (OverwritingFile file_name)) (split_path file_name)
      = Some (File c)"
    using assms(2) by (simp add: split_paths node_at_log_write ckpt_def)
  from assms(1) ex obtain r where
    r: "os_rename (log_write fs (OverwritingFile file_name)) file_name (file_name @ ''.backup'')
        = Inr r"
    by (auto simp: backup_existing_def split: sum.splits)
  from os_rename_file [OF r n] show ?thesis
    by (simp add: split_paths log_write_Dir)
qed

lemma save_model_backs_up:
  assumes s: "save_model sd h (fs, out) = Inr (fs', out')"
    and c: "node_at fs ckpt = Some (File c)"
  shows "node_at fs' bak = Some (File c)" and "node_at fs' ckpt = Some (File (Checkpoint sd))"
    and "backups fs' = bak # filter (\<lambda>q. q \<noteq> bak) (backups fs)"
    and "node_at fs bak \<noteq> Some Dir"
proof -
  let ?fs0 = "log_write fs (Line ''Saving...'')"
  from save_model_Inr [OF s] obtain fsb where
    b: "backup_existing (?fs0, out @ [Line ''Saving...'']) = Inr (fsb, out')"
    and k: "node_at fs' ckpt = Some (File (Checkpoint sd))"
      "node_at fs' bak = node_at fsb bak" "backups fs' = backups fsb"
    by auto
  have c0: "node_at ?fs0 ckpt = Some (File c)"
    using c by (simp add: node_at_log_write ckpt_def)
  note fsb = backup_existing_file(1) [OF b c0]
  show "node_at fs' bak = Some (File c)"
    by (simp add: k fsb node_at_put)
  show "node_at fs' ckpt = Some (File (Checkpoint sd))" by (rule k(1))
  show "backups fs' = bak # filter (\<lambda>q. q \<noteq> bak) (backups fs)"
    by (simp add: k fsb backups_put_backup backup_paths backups_remove_other backups_log_write)
  show "node_at fs bak \<noteq> Some Dir"
    using backup_existing_file_target [OF b c0] by (simp add: log_write_Dir)
qed

lemma save_model_backups_first:
  assumes s: "save_model sd h (fs, out) = Inr (fs', out')" and e: "backups fs = []"
  shows "filter (\<lambda>q. q \<noteq> bak) (backups fs') = [] \<or> node_at fs' bak = Some Dir"
proof -
  let ?fs0 = "log_write fs (Line ''Saving...'')"
  from save_model_Inr [OF s] obtain fsb where
    b: "backup_existing (?fs0, out @ [Line ''Saving...'']) = Inr (fsb, out')"
    and k: "node_at fs' bak = node_at fsb bak" "backups fs' = backups fsb"
    by auto
  show ?thesis
  proof (cases "node_at fs ckpt")
    case None
    then have "node_at ?fs0 ckpt = None" by (simp add: node_at_log_write ckpt_def)
    from backup_existing_absent [OF this, of "out @ [Line ''Saving...'']"] b
    have "fsb = ?fs0" by simp
    then show ?thesis using e by (simp add: k backups_log_write)
  next
    case (Some n)
    show ?thesis
    proof (cases n)
      case Dir
      with Some have "node_at ?fs0 ckpt = Some Dir" by (simp add: log_write_Dir)
      from backup_existing_dir [OF b this] show ?thesis by (simp add: k)
    next
      case (File c)
      with Some have "node_at fs ckpt = Some (File c)" by simp
      from save_model_backs_up(3) [OF s this] e show ?thesis by simp
    qed
  qed
qed

lemma save_model_writable:
  assumes w: "writable fs"
  shows "\<exists>fs' out'. save_model sd h (fs, out) = Inr (fs', out') \<and> writable fs'"
proof -
  let ?fs0 = "log_write fs (Line ''Saving...'')"
  let ?out0 = "out @ [Line ''Saving...'']"
  from w have d0: "is_dir ?fs0 [''fix_plot'']"
    and c0: "node_at ?fs0 ckpt \<noteq> Some Dir" and k0: "node_at ?fs0 bak \<noteq> Some Dir"
    and m0: "list_all (\<lambda>p. node_at ?fs0 p \<noteq> Some Dir) metric_paths"
    by (simp_all add: writable_def is_dir_log_write log_write_Dir)
  have "\<exists>fsb outb. backup_existing (?fs0, ?out0) = Inr (fsb, outb)
      \<and> is_dir fsb [''fix_plot''] \<and> node_at fsb ckpt \<noteq> Some Dir
      \<and> node_at fsb bak \<noteq> Some Dir
      \<and> list_all (\<lambda>p. node_at fsb p \<noteq> Some Dir) metric_paths"
  proof (cases "node_at ?fs0 ckpt")
    case None
    from backup_existing_absent [OF this, of ?out0] d0 c0 k0 m0 show ?thesis by simp
  next
    case (Some n)
    with c0 obtain c where n: "node_at ?fs0 ckpt = Some (File c)" by (cases n) simp_all
    let ?fs1 = "log_write ?fs0 (OverwritingFile file_name)"
    have n1: "node_at ?fs1 (split_path file_name) = Some (File c)"
      using n by (simp add: split_paths node_at_log_write ckpt_def)
    have r: "os_rename ?fs1 file_name (file_name @ ''.backup'')
        = Inr (put (remove ?fs1 ckpt) bak (File c))"
      using os_rename_file_ok [OF n1, of "file_name @ ''.backup''"] d0 k0
      by (simp add: split_paths is_dir_log_write log_write_Dir) (simp add: bak_def)
    have ex: "os_path_exists ?fs0 file_name"
      using n by (simp add: os_path_exists_def split_paths)
    have be: "backup_existing (?fs0, ?out0)
        = Inr (put (remove ?fs1 ckpt) bak (File c), ?out0 @ [OverwritingFile file_name])"
      using ex r by (simp add: backup_existing_def)
    have "is_dir (put (remove ?fs1 ckpt) bak (File c)) [''fix_plot'']"
      using d0 by (simp add: is_dir_def node_at_put node_at_remove log_write_Dir bak_def ckpt_def)
    moreover have "list_all (\<lambda>p. node_at (put (remove ?fs1 ckpt) bak (File c)) p \<noteq> Some Dir)
        metric_paths"
      using m0
      by (simp add: metric_paths_def node_at_put node_at_remove log_write_Dir bak_def ckpt_def)
    ultimately show ?thesis
      using be by (simp add: node_at_put node_at_remove bak_def ckpt_def)
  qed
  then obtain fsb outb where
    b: "backup_existing (print_line (Line ''Saving...'') (fs, out)) = Inr (fsb, outb)"
    and db: "is_dir fsb [''fix_plot'']" and cb: "node_at fsb ckpt \<noteq> Some Dir"
    and kb: "node_at fsb bak \<noteq> Some Dir"
    and mb: "list_all (\<lambda>p. node_at fsb p \<noteq> Some Dir) metric_paths"
    by auto
  from save_model_ok [OF b db cb mb] obtain fs' where
    s: "save_model sd h (fs, out) = Inr (fs', outb)" by blast
  from save_model_Inr [OF s] b
  have "node_at fs' ckpt = Some (File (Checkpoint sd))" "node_at fs' bak = node_at fsb bak"
    "is_dir fs' [''fix_plot''] = is_dir fsb [''fix_plot'']"
    "list_all (\<lambda>p. node_at fs' p \<noteq> Some Dir) metric_paths"
    by auto
  then have "writable fs'"
    using db kb by (simp add: writable_def)
  with s show ?thesis by blast
qed

subsection \<open>The run guard\<close>

text \<open>
  C7: when the output directory exists and is not empty, the driver prints the two lines
  of the conflict and exits; the files are what they were, so no metric file, log file or
  checkpoint has been created or changed, and nothing else has run.
\<close>

theorem run_guard_exits_before_any_work:
  assumes "os_path_isdir fs output_dir" and "os_listdir fs output_dir \<noteq> []"
  shows "driver env inp fs =
     \<lparr>outcome = Exited, files = fs,
      terminal =
        [Line ''Directory fix_plot/ exists and is not empty.'',
         Line ''Please change output_dir or remove the directory to prevent overwritting data.'']\<rparr>"
  using assms by (simp add: driver_def output_dir_def)

lemma split_output_dir: "split_path output_dir = [''fix_plot'']"
  by (simp add: split_path_def output_dir_def)

theorem run_guard_exits_before_any_work_witness:
  "os_path_isdir occupied_files output_dir
   \<and> os_listdir occupied_files output_dir = [''old_run.txt'']
   \<and> driver demo_env demo_inputs occupied_files =
     \<lparr>outcome = Exited, files = occupied_files,
      terminal =
        [Line ''Directory fix_plot/ exists and is not empty.'',
         Line ''Please change output_dir or remove the directory to prevent overwritting data.'']\<rparr>"
proof -
  have a: "os_path_isdir occupied_files output_dir"
    by (simp add: os_path_isdir_def is_dir_def node_at_def split_output_dir occupied_files_def)
  have b: "os_listdir occupied_files output_dir = [''old_run.txt'']"
    by (simp add: os_listdir_def split_output_dir occupied_files_def)
  then have c: "os_listdir occupied_files output_dir \<noteq> []" by simp
  show ?thesis
    using a b run_guard_exits_before_any_work [OF a c, of demo_env demo_inputs] by simp
qed

subsection \<open>Saving the model\<close>

text \<open>
  C8: when the block that saves the model finds a checkpoint file at the target path, the
  file is afterwards at the same path with \<open>.backup\<close> appended and the new checkpoint is
  at the target path. After two runs of the block the target path holds the second run's
  weights and the backup path the first run's, and when there was no \<open>.backup\<close> path
  before there is exactly one now. Both runs go through whenever the output directory is
  a directory and none of the paths written to is one.
\<close>

theorem checkpoint_is_backed_up:
  "(save_model sd h (fs, out) = Inr (fs', out')
      \<and> node_at fs (split_path file_name) = Some (File c)
    \<longrightarrow> node_at fs' (split_path (file_name @ ''.backup'')) = Some (File c)
      \<and> node_at fs' (split_path file_name) = Some (File (Checkpoint sd)))
   \<and> (save_model sd1 h1 (fs, out) = Inr w1 \<and> save_model sd2 h2 w1 = Inr w2
    \<longrightarrow> node_at (fst w2) (split_path file_name) = Some (File (Checkpoint sd2))
      \<and> node_at (fst w2) (split_path (file_name @ ''.backup'')) = Some (File (Checkpoint sd1))
      \<and> (backups fs = [] \<longrightarrow> backups (fst w2) = [split_path (file_name @ ''.backup'')]))
   \<and> (writable fs
    \<longrightarrow> (\<exists>w1 w2. save_model sd1 h1 (fs, out) = Inr w1 \<and> save_model sd2 h2 w1 = Inr w2))"
proof (intro conjI impI)
  assume a: "save_model sd h (fs, out) = Inr (fs', out')
      \<and> node_at fs (split_path file_name) = Some (File c)"
  then have s: "save_model sd h (fs, out) = Inr (fs', out')"
    and c: "node_at fs ckpt = Some (File c)" by (simp_all add: split_paths)
  show "node_at fs' (split_path (file_name @ ''.backup'')) = Some (File c)"
    using save_model_backs_up(1) [OF s c] by (simp add: split_paths)
  show "node_at fs' (split_path file_name) = Some (File (Checkpoint sd))"
    using save_model_backs_up(2) [OF s c] by (simp add: split_paths)
next
  assume a: "save_model sd1 h1 (fs, out) = Inr w1 \<and> save_model sd2 h2 w1 = Inr w2"
  obtain fs1 out1 where w1: "w1 = (fs1, out1)" by (cases w1)
  obtain fs2 out2 where w2: "w2 = (fs2, out2)" by (cases w2)
  from a have s1: "save_model sd1 h1 (fs, out) = Inr (fs1, out1)"
    and s2: "save_model sd2 h2 (fs1, out1) = Inr (fs2, out2)"
    by (simp_all add: w1 w2)
  from save_model_Inr [OF s1] have c1: "node_at fs1 ckpt = Some (File (Checkpoint sd1))"
    by auto
  note second = save_model_backs_up [OF s2 c1]
  show "node_at (fst w2) (split_path file_name) = Some (File (Checkpoint sd2))"
    using second(2) by (simp add: w2 split_paths)
  show "node_at (fst w2) (split_path (file_name @ ''.backup'')) = Some (File (Checkpoint sd1))"
    using second(1) by (simp add: w2 split_paths)
  show "backups (fst w2) = [split_path (file_name @ ''.backup'')]" if e: "backups fs = []"
  proof -
    from save_model_backups_first [OF s1 e] second(4)
    have "filter (\<lambda>q. q \<noteq> bak) (backups fs1) = []" by simp
    with second(3) show ?thesis by (simp add: w2 split_paths)
  qed
next
  assume w: "writable fs"
  from save_model_writable [OF w, of sd1 h1 out] obtain fs1 out1 where
    s1: "save_model sd1 h1 (fs, out) = Inr (fs1, out1)" and w1: "writable fs1" by blast
  from save_model_writable [OF w1, of sd2 h2 out1] obtain fs2 out2 where
    s2: "save_model sd2 h2 (fs1, out1) = Inr (fs2, out2)" by blast
  from s1 s2 show "\<exists>w1 w2. save_model sd1 h1 (fs, out) = Inr w1 \<and> save_model sd2 h2 w1 = Inr w2"
    by blast
qed

theorem checkpoint_is_backed_up_witness:
  "writable fresh_files \<and> backups fresh_files = []
   \<and> (\<exists>w1 w2. save_model [[[Fin 1]]] initial_histories (fresh_files, []) = Inr w1
        \<and> save_model [[[Fin 2]]] initial_histories w1 = Inr w2
        \<and> node_at (fst w1) (split_path file_name) = Some (File (Checkpoint [[[Fin 1]]]))
        \<and> node_at (fst w2) (split_path file_name) = Some (File (Checkpoint [[[Fin 2]]]))
        \<and> node_at (fst w2) (split_path (file_name @ ''.backup''))
            = Some (File (Checkpoint [[[Fin 1]]]))
        \<and> backups (fst w2) = [split_path (file_name @ ''.backup'')])"
proof -
  have w: "writable fresh_files"
    by (simp add: writable_def fresh_files_def is_dir_def node_at_def ckpt_def bak_def
        metric_paths_def)
  have e: "backups fresh_files = []"
    by (simp add: backups_def fresh_files_def is_backup_def)
  note t = checkpoint_is_backed_up [where fs = fresh_files and out = "[]"
      and ?sd1.0 = "[[[Fin 1]]]" and ?sd2.0 = "[[[Fin 2]]]"
      and ?h1.0 = initial_histories and ?h2.0 = initial_histories]
  from t w obtain w1 w2 where
    s: "save_model [[[Fin 1]]] initial_histories (fresh_files, []) = Inr w1"
      "save_model [[[Fin 2]]] initial_histories w1 = Inr w2"
    by blast
  from save_model_Inr [OF s(1)]
  have c1: "node_at (fst w1) (split_path file_name) = Some (File (Checkpoint [[[Fin 1]]]))"
    by (auto simp: split_paths)
  from t [where ?w1.0 = w1 and ?w2.0 = w2] s e
  have "node_at (fst w2) (split_path file_name) = Some (File (Checkpoint [[[Fin 2]]]))"
    "node_at (fst w2) (split_path (file_name @ ''.backup''))
            = Some (File (Checkpoint [[[Fin 1]]]))"
    "backups (fst w2) = [split_path (file_name @ ''.backup'')]"
    by blast+
  with w e s c1 show ?thesis by blast
qed

end
